(* ===== verification/Prelude.thy ===== *)
theory Prelude
  imports Main "HOL-Library.Word" "HOL-Library.Multiset"
begin

unbundle bit_operations_syntax

text \<open>
  What every component shares: the C types at their width, the errno values the
  sources return, kernel memory as a function from addresses to bytes, the C string
  functions the sources call, decimal and hexadecimal printing, the outcome of a C
  function that may fault or never return, and the reachability locale that every
  state machine of the development instantiates.
\<close>

section \<open>C types\<close>

type_synonym u8 = "8 word"
type_synonym u16 = "16 word"
type_synonym u32 = "32 word"
type_synonym u64 = "64 word"

text \<open>
  A C \<open>int\<close> is a HOL \<open>int\<close>; wherever C converts it to an unsigned type the
  conversion is written out. A pointer to an object is a natural number: an object
  does not wrap around the address space.
\<close>

type_synonym addr = nat
type_synonym bytes = "addr \<Rightarrow> u8"

definition size_t_of_int :: "int \<Rightarrow> u64" where
  "size_t_of_int n = word_of_int n"

definition u32_of_int :: "int \<Rightarrow> u32" where
  "u32_of_int n = word_of_int n"

definition int_of_u32 :: "u32 \<Rightarrow> int" where
  "int_of_u32 w = sint w"

definition is_c_int :: "int \<Rightarrow> bool" where
  "is_c_int n \<longleftrightarrow> - (2 ^ 31) \<le> n \<and> n < 2 ^ 31"

lemma uint_size_t_of_int:
  "uint (size_t_of_int n) = n mod 2 ^ 64"
  by (simp add: size_t_of_int_def uint_word_of_int)

lemma uint_size_t_negative:
  assumes "is_c_int n" and "n < 0"
  shows "uint (size_t_of_int n) = n + 2 ^ 64"
proof -
  have "n mod 2 ^ 64 = (n + 2 ^ 64) mod 2 ^ 64" by simp
  also have "\<dots> = n + 2 ^ 64"
    by (rule mod_pos_pos_trivial) (use assms in \<open>auto simp: is_c_int_def\<close>)
  finally show ?thesis by (simp add: uint_size_t_of_int)
qed

lemma unat_size_t_of_int: "0 \<le> n \<Longrightarrow> n < 2 ^ 64 \<Longrightarrow> unat (size_t_of_int n) = nat n"
  by (simp add: unat_eq_nat_uint uint_size_t_of_int)

section \<open>errno values\<close>

abbreviation (input) EPERM :: int where "EPERM \<equiv> 1"
abbreviation (input) ENXIO :: int where "ENXIO \<equiv> 6"
abbreviation (input) EAGAIN :: int where "EAGAIN \<equiv> 11"
abbreviation (input) ENOMEM :: int where "ENOMEM \<equiv> 12"
abbreviation (input) EFAULT :: int where "EFAULT \<equiv> 14"
abbreviation (input) EBUSY :: int where "EBUSY \<equiv> 16"
abbreviation (input) ENODEV :: int where "ENODEV \<equiv> 19"
abbreviation (input) EINVAL :: int where "EINVAL \<equiv> 22"
abbreviation (input) EFBIG :: int where "EFBIG \<equiv> 27"
abbreviation (input) EPIPE :: int where "EPIPE \<equiv> 32"
abbreviation (input) EOVERFLOW :: int where "EOVERFLOW \<equiv> 75"
abbreviation (input) EMSGSIZE :: int where "EMSGSIZE \<equiv> 90"
abbreviation (input) ERESTARTSYS :: int where "ERESTARTSYS \<equiv> 512"

section \<open>Outcomes\<close>

text \<open>
  A C function returns a value, touches memory that is not its own, or never returns.
\<close>

datatype 'a outcome = Returns 'a | Faults | Hangs

primrec bind_outcome :: "'a outcome \<Rightarrow> ('a \<Rightarrow> 'b outcome) \<Rightarrow> 'b outcome" where
  "bind_outcome (Returns x) f = f x"
| "bind_outcome Faults f = Faults"
| "bind_outcome Hangs f = Hangs"

lemma bind_outcome_eq_Returns [simp]:
  "bind_outcome m f = Returns y \<longleftrightarrow> (\<exists>x. m = Returns x \<and> f x = Returns y)"
  by (cases m) auto

lemma bind_outcome_assoc:
  "bind_outcome (bind_outcome m f) g = bind_outcome m (\<lambda>x. bind_outcome (f x) g)"
  by (cases m) simp_all

text \<open>A dereference: the object, or a fault when the pointer is dangling or NULL.\<close>

definition deref :: "('p \<Rightarrow> 'a option) \<Rightarrow> 'p \<Rightarrow> 'a outcome" where
  "deref h p = (case h p of None \<Rightarrow> Faults | Some x \<Rightarrow> Returns x)"

lemma deref_eq_Returns [simp]: "deref h p = Returns x \<longleftrightarrow> h p = Some x"
  by (simp add: deref_def split: option.splits)

lemma deref_Some [simp]: "h p = Some x \<Longrightarrow> deref h p = Returns x"
  by simp

lemma deref_None [simp]: "h p = None \<Longrightarrow> deref h p = Faults"
  by (simp add: deref_def)

section \<open>Kernel memory\<close>

definition load :: "bytes \<Rightarrow> addr \<Rightarrow> nat \<Rightarrow> u8 list" where
  "load m a n = map (\<lambda>i. m (a + i)) [0..<n]"

definition store :: "bytes \<Rightarrow> addr \<Rightarrow> u8 list \<Rightarrow> bytes" where
  "store m a bs = (\<lambda>x. if a \<le> x \<and> x < a + length bs then bs ! (x - a) else m x)"

definition bytes_of :: "u8 list \<Rightarrow> bytes" where
  "bytes_of bs = (\<lambda>i. if i < length bs then bs ! i else 0)"

lemma length_load [simp]: "length (load m a n) = n"
  by (simp add: load_def)

lemma nth_load [simp]: "i < n \<Longrightarrow> load m a n ! i = m (a + i)"
  by (simp add: load_def)

lemma load_cong: "(\<And>i. i < n \<Longrightarrow> m (a + i) = m' (b + i)) \<Longrightarrow> load m a n = load m' b n"
  by (simp add: load_def)

lemma load_split: "load m a (k + n) = load m a k @ load m (a + k) n"
  by (rule nth_equalityI) (auto simp: nth_append)

lemma load_store_same [simp]: "load (store m a bs) a (length bs) = bs"
  by (rule nth_equalityI) (auto simp: store_def)

lemma load_store_same': "n = length bs \<Longrightarrow> load (store m a bs) a n = bs"
  by simp

lemma load_store_apart:
  "b + n \<le> a \<or> a + length bs \<le> b \<Longrightarrow> load (store m a bs) b n = load m b n"
  by (rule nth_equalityI) (auto simp: store_def)

lemma store_apart: "x < a \<or> a + length bs \<le> x \<Longrightarrow> store m a bs x = m x"
  by (auto simp: store_def)

lemma load_bytes_of [simp]: "load (bytes_of bs) 0 (length bs) = bs"
  by (rule nth_equalityI) (auto simp: bytes_of_def)

section \<open>State machines\<close>

text \<open>
  The states a step relation reaches from its initial states, and the contract of an
  inductive invariant: it holds initially and every step keeps it. A client reads off
  that it holds in every reachable state.
\<close>

inductive reachable :: "('s \<Rightarrow> bool) \<Rightarrow> ('s \<Rightarrow> 's \<Rightarrow> bool) \<Rightarrow> 's \<Rightarrow> bool"
  for init :: "'s \<Rightarrow> bool" and step :: "'s \<Rightarrow> 's \<Rightarrow> bool" where
  start: "init s \<Longrightarrow> reachable init step s"
| next_state: "reachable init step s \<Longrightarrow> step s t \<Longrightarrow> reachable init step t"

locale inductive_invariant =
  fixes init :: "'s \<Rightarrow> bool"
    and step :: "'s \<Rightarrow> 's \<Rightarrow> bool"
    and inv :: "'s \<Rightarrow> bool"
  assumes inv_init: "init s \<Longrightarrow> inv s"
    and inv_step: "inv s \<Longrightarrow> step s t \<Longrightarrow> inv t"
begin

lemma reachable_inv: "reachable init step s \<Longrightarrow> inv s"
  by (induction rule: reachable.induct) (auto intro: inv_init inv_step)

lemma step_from_reachable: "reachable init step s \<Longrightarrow> step s t \<Longrightarrow> inv s \<and> inv t"
  using inv_step reachable_inv by blast

end

text \<open>
  A system that refines another: \<open>abs\<close> maps its states to those of the abstract system, and
  each of its steps is an abstract step or is not seen there. What is reachable is reachable in
  the abstract system. When a step refines only in the states of an invariant, that is the
  more general locale; in a simulation the invariant is trivial, and an invariant of the
  abstract system is one of the refined system.
\<close>

locale invariant_refinement = base: inductive_invariant cinit cstep cinv
  for cinit :: "'c \<Rightarrow> bool" and cstep :: "'c \<Rightarrow> 'c \<Rightarrow> bool" and cinv +
  fixes ainit :: "'s \<Rightarrow> bool"
    and astep :: "'s \<Rightarrow> 's \<Rightarrow> bool"
    and abs :: "'c \<Rightarrow> 's"
  assumes ref_init: "cinit c \<Longrightarrow> ainit (abs c)"
    and ref_step: "cinv c \<Longrightarrow> cstep c d \<Longrightarrow> abs d = abs c \<or> astep (abs c) (abs d)"
begin

lemma reachable_abs: "reachable cinit cstep c \<Longrightarrow> reachable ainit astep (abs c)"
proof (induction rule: reachable.induct)
  case (start c)
  then show ?case by (intro reachable.start ref_init)
next
  case (next_state c d)
  from ref_step [OF base.reachable_inv [OF next_state.hyps(1)] next_state.hyps(2)] next_state.IH
  show ?case by (auto intro: reachable.next_state)
qed

end

locale forward_simulation =
  fixes cinit :: "'c \<Rightarrow> bool"
    and cstep :: "'c \<Rightarrow> 'c \<Rightarrow> bool"
    and ainit :: "'s \<Rightarrow> bool"
    and astep :: "'s \<Rightarrow> 's \<Rightarrow> bool"
    and abs :: "'c \<Rightarrow> 's"
  assumes sim_init: "cinit c \<Longrightarrow> ainit (abs c)"
    and sim_step: "cstep c d \<Longrightarrow> abs d = abs c \<or> astep (abs c) (abs d)"

sublocale forward_simulation \<subseteq> invariant_refinement cinit cstep "\<lambda>_. True" ainit astep abs
  by unfold_locales (auto intro: sim_init dest: sim_step)

locale simulated_invariant =
  forward_simulation cinit cstep ainit astep abs + abstract: inductive_invariant ainit astep ainv
  for cinit :: "'c \<Rightarrow> bool" and cstep and ainit :: "'s \<Rightarrow> bool" and astep and abs and ainv

sublocale simulated_invariant \<subseteq> concrete: inductive_invariant cinit cstep "\<lambda>c. ainv (abs c)"
proof
  show "ainv (abs c)" if "cinit c" for c using that by (intro abstract.inv_init sim_init)
  show "ainv (abs d)" if "ainv (abs c)" and "cstep c d" for c d
    using sim_step [OF that(2)] that(1) by (auto intro: abstract.inv_step)
qed

text \<open>
  A wait queue: threads that are parked on it, what they wait for, and a wake-up that is still to
  come. When the invariant of a system gives the law, no wake-up is lost in it.
\<close>

locale wait_queue = inductive_invariant init step inv
  for init :: "'s \<Rightarrow> bool" and step and inv +
  fixes queue_of :: "'s \<Rightarrow> nat set"
    and ready :: "'s \<Rightarrow> bool"
    and owed :: "'s \<Rightarrow> bool"
  assumes wake_owed: "inv s \<Longrightarrow> t \<in> queue_of s \<Longrightarrow> ready s \<Longrightarrow> owed s"
begin

lemma no_lost_wakeup: "reachable init step s \<Longrightarrow> t \<in> queue_of s \<Longrightarrow> ready s \<Longrightarrow> owed s"
  using reachable_inv wake_owed by blast

end

section \<open>Counting threads\<close>

lemma card_upd_in:
  assumes "finite {t. P (f t)}" and "P x" and "\<not> P (f t)"
  shows "card {u. P ((f(t := x)) u)} = Suc (card {u. P (f u)})"
proof -
  have "{u. P ((f(t := x)) u)} = insert t {u. P (f u)}" using assms(2) by auto
  then show ?thesis using assms by simp
qed

lemma card_upd_out:
  assumes "finite {t. P (f t)}" and "\<not> P x" and "P (f t)"
  shows "Suc (card {u. P ((f(t := x)) u)}) = card {u. P (f u)}"
proof -
  have "{u. P ((f(t := x)) u)} = {u. P (f u)} - {t}" using assms(2) by auto
  then show ?thesis using card_Suc_Diff1 [OF assms(1), of t] assms(3) by (simp only: mem_Collect_eq)
qed

lemma card_upd_same:
  assumes "P x \<longleftrightarrow> P (f t)"
  shows "{u. P ((f(t := x)) u)} = {u. P (f u)}"
  using assms by auto

lemma finite_upd: "finite {t. P (f t)} \<Longrightarrow> finite {u. P ((f(t := x)) u)}"
  by (rule finite_subset [of _ "insert t {u. P (f u)}"]) auto

end
