(* ===== verification/KernelApi.thy ===== *)
theory KernelApi
  imports Prelude
begin

text \<open>
  The kernel functions the rpmsg bus calls, as a record of functions over the kernel's
  own types: a virtqueue \<open>'q\<close> and an id allocator \<open>'i\<close>. They are not part of the
  sources, so every definition that calls one takes the record as its argument \<open>K\<close>.
  What the code relies on is stated by two law predicates, in the terms of the
  documentation of these functions: a virtqueue hands back exactly the tokens it was
  given (\<open>queued\<close> observes the tokens it holds), and an idr hands out ids in the
  requested range that are not in use. The last section builds one kernel that satisfies
  both, for the witnesses.
\<close>

section \<open>The interface\<close>

record scatterlist =
  sg_page :: nat
  sg_offset :: nat
  sg_len :: u32

record ('q, 'i) kernel =
  is_vmalloc_addr :: "addr \<Rightarrow> bool"
  vmalloc_to_page :: "addr \<Rightarrow> nat"
  virt_to_page :: "addr \<Rightarrow> nat"
  virtqueue_add_inbuf :: "'q \<Rightarrow> scatterlist \<Rightarrow> addr \<Rightarrow> int \<times> 'q"
  virtqueue_add_outbuf :: "'q \<Rightarrow> scatterlist \<Rightarrow> addr \<Rightarrow> int \<times> 'q"
  virtqueue_get_buf :: "'q \<Rightarrow> (addr \<times> u32) option \<times> 'q"
  virtqueue_kick :: "'q \<Rightarrow> 'q"
  virtqueue_kick_prepare :: "'q \<Rightarrow> bool \<times> 'q"
  virtqueue_notify :: "'q \<Rightarrow> 'q"
  virtqueue_enable_cb :: "'q \<Rightarrow> 'q"
  virtqueue_disable_cb :: "'q \<Rightarrow> 'q"
  virtqueue_get_vring_size :: "'q \<Rightarrow> u32"
  idr_init :: 'i
  idr_alloc :: "'i \<Rightarrow> addr \<Rightarrow> int \<Rightarrow> int \<Rightarrow> int \<times> 'i"
  idr_find :: "'i \<Rightarrow> u32 \<Rightarrow> addr option"
  idr_remove :: "'i \<Rightarrow> u32 \<Rightarrow> 'i"

definition PAGE_SIZE :: nat where "PAGE_SIZE = 4096"

definition offset_in_page :: "addr \<Rightarrow> nat" where
  "offset_in_page a = a mod PAGE_SIZE"

section \<open>What the code relies on\<close>

named_theorems vq_law
named_theorems idr_law

definition add_buf_law ::
  "('q \<Rightarrow> scatterlist \<Rightarrow> addr \<Rightarrow> int \<times> 'q) \<Rightarrow> ('q \<Rightarrow> addr multiset) \<Rightarrow> ('q \<Rightarrow> bool) \<Rightarrow> bool" where
  "add_buf_law add queued cb_on \<longleftrightarrow>
     (\<forall>q sg t err q'. add q sg t = (err, q') \<longrightarrow>
        err \<le> 0 \<and> cb_on q' = cb_on q \<and>
        queued q' = (if err = 0 then add_mset t (queued q) else queued q))"

definition get_buf_law ::
  "('q \<Rightarrow> (addr \<times> u32) option \<times> 'q) \<Rightarrow> ('q \<Rightarrow> addr multiset) \<Rightarrow> ('q \<Rightarrow> bool) \<Rightarrow> bool" where
  "get_buf_law get queued cb_on \<longleftrightarrow>
     (\<forall>q r q'. get q = (r, q') \<longrightarrow> cb_on q' = cb_on q \<and>
        (case r of None \<Rightarrow> queued q' = queued q
         | Some (t, n) \<Rightarrow> queued q = add_mset t (queued q')))"

definition signal_law ::
  "('q \<Rightarrow> 'q) \<Rightarrow> ('q \<Rightarrow> addr multiset) \<Rightarrow> bool" where
  "signal_law f queued \<longleftrightarrow> (\<forall>q. queued (f q) = queued q)"

definition virtqueue_laws ::
  "('q, 'i, 'z) kernel_scheme \<Rightarrow> ('q \<Rightarrow> addr multiset) \<Rightarrow> ('q \<Rightarrow> bool) \<Rightarrow> bool" where
  "virtqueue_laws K queued cb_on \<longleftrightarrow>
     add_buf_law (virtqueue_add_inbuf K) queued cb_on \<and>
     add_buf_law (virtqueue_add_outbuf K) queued cb_on \<and>
     get_buf_law (virtqueue_get_buf K) queued cb_on \<and>
     signal_law (virtqueue_kick K) queued \<and> (\<forall>q. cb_on (virtqueue_kick K q) = cb_on q) \<and>
     signal_law (snd \<circ> virtqueue_kick_prepare K) queued \<and>
     signal_law (virtqueue_notify K) queued \<and>
     signal_law (virtqueue_enable_cb K) queued \<and> (\<forall>q. cb_on (virtqueue_enable_cb K q)) \<and>
     signal_law (virtqueue_disable_cb K) queued \<and> (\<forall>q. \<not> cb_on (virtqueue_disable_cb K q))"

text \<open>
  The number of buffers the other side has used and the driver has not fetched yet. It
  tells when \<open>virtqueue_get_buf\<close> runs dry.
\<close>

definition used_law :: "('q, 'i, 'z) kernel_scheme \<Rightarrow> ('q \<Rightarrow> nat) \<Rightarrow> bool" where
  "used_law K used \<longleftrightarrow>
     (\<forall>q r q'. virtqueue_get_buf K q = (r, q') \<longrightarrow>
        (case r of None \<Rightarrow> used q = 0 \<and> used q' = 0 | Some b \<Rightarrow> used q = Suc (used q'))) \<and>
     (\<forall>q sg t err q'. virtqueue_add_inbuf K q sg t = (err, q') \<longrightarrow> used q' = used q) \<and>
     (\<forall>q. used (virtqueue_kick K q) = used q)"

definition idr_laws :: "('q, 'i, 'z) kernel_scheme \<Rightarrow> bool" where
  "idr_laws K \<longleftrightarrow>
     (\<forall>a. idr_find K (idr_init K) a = None) \<and>
     (\<forall>i p lo hi k i'. idr_alloc K i p lo hi = (k, i') \<longrightarrow>
        (if k < 0 then idr_find K i' = idr_find K i
         else idr_find K i (word_of_int k) = None \<and> lo \<le> k \<and> (0 < hi \<longrightarrow> k < hi) \<and> k < 2 ^ 31 \<and>
              idr_find K i' = (idr_find K i)(word_of_int k \<mapsto> p))) \<and>
     (\<forall>i p lo hi. lo < 0 \<longrightarrow> fst (idr_alloc K i p lo hi) < 0) \<and>
     (\<forall>i a. idr_find K (idr_remove K i a) = (idr_find K i)(a := None))"

lemma virtqueue_add_outbufD [vq_law]:
  assumes "virtqueue_laws K queued cb_on" and "virtqueue_add_outbuf K q sg t = (err, q')"
  shows "err \<le> 0" and "cb_on q' = cb_on q"
    and "queued q' = (if err = 0 then add_mset t (queued q) else queued q)"
proof -
  from assms(1) have "add_buf_law (virtqueue_add_outbuf K) queued cb_on"
    by (simp add: virtqueue_laws_def)
  with assms(2) show "err \<le> 0" and "cb_on q' = cb_on q"
    and "queued q' = (if err = 0 then add_mset t (queued q) else queued q)"
    unfolding add_buf_law_def by metis+
qed

lemma virtqueue_add_inbufD [vq_law]:
  assumes "virtqueue_laws K queued cb_on" and "virtqueue_add_inbuf K q sg t = (err, q')"
  shows "err \<le> 0" and "cb_on q' = cb_on q"
    and "queued q' = (if err = 0 then add_mset t (queued q) else queued q)"
proof -
  from assms(1) have "add_buf_law (virtqueue_add_inbuf K) queued cb_on"
    by (simp add: virtqueue_laws_def)
  with assms(2) show "err \<le> 0" and "cb_on q' = cb_on q"
    and "queued q' = (if err = 0 then add_mset t (queued q) else queued q)"
    unfolding add_buf_law_def by metis+
qed

lemma virtqueue_get_buf_NoneD [vq_law]:
  assumes "virtqueue_laws K queued cb_on" and "virtqueue_get_buf K q = (None, q')"
  shows "queued q' = queued q" and "cb_on q' = cb_on q"
  using assms unfolding virtqueue_laws_def get_buf_law_def by fastforce+

lemma virtqueue_get_buf_SomeD [vq_law]:
  assumes "virtqueue_laws K queued cb_on" and "virtqueue_get_buf K q = (Some (t, n), q')"
  shows "queued q = add_mset t (queued q')" and "cb_on q' = cb_on q"
  using assms unfolding virtqueue_laws_def get_buf_law_def by fastforce+

lemma virtqueue_signals [vq_law]:
  assumes "virtqueue_laws K queued cb_on"
  shows "queued (virtqueue_kick K q) = queued q"
    and "queued (virtqueue_enable_cb K q) = queued q"
    and "queued (virtqueue_disable_cb K q) = queued q"
    and "queued (virtqueue_notify K q) = queued q"
    and "queued (snd (virtqueue_kick_prepare K q)) = queued q"
    and "cb_on (virtqueue_kick K q) = cb_on q"
    and "cb_on (virtqueue_enable_cb K q)"
    and "\<not> cb_on (virtqueue_disable_cb K q)"
  using assms unfolding virtqueue_laws_def signal_law_def by simp_all

lemma used_lawD [vq_law]:
  assumes "used_law K used"
  shows "virtqueue_get_buf K q = (None, q') \<Longrightarrow> used q' = 0"
    and "virtqueue_get_buf K q = (Some b, q') \<Longrightarrow> used q = Suc (used q')"
    and "virtqueue_add_inbuf K q sg t = (err, q') \<Longrightarrow> used q' = used q"
    and "used (virtqueue_kick K q) = used q"
  using assms unfolding used_law_def by fastforce+

lemma idr_alloc_okD [idr_law]:
  assumes "idr_laws K" and "idr_alloc K i p lo hi = (k, i')" and "0 \<le> k"
  shows "idr_find K i (word_of_int k) = None" and "lo \<le> k" and "0 < hi \<Longrightarrow> k < hi"
    and "k < 2 ^ 31" and "idr_find K i' = (idr_find K i)(word_of_int k \<mapsto> p)"
proof -
  have "if k < 0 then idr_find K i' = idr_find K i
    else idr_find K i (word_of_int k) = None \<and> lo \<le> k \<and> (0 < hi \<longrightarrow> k < hi) \<and> k < 2 ^ 31 \<and>
      idr_find K i' = (idr_find K i)(word_of_int k \<mapsto> p)"
    using assms(1,2) unfolding idr_laws_def by blast
  with assms(3) show "idr_find K i (word_of_int k) = None" and "lo \<le> k"
    and "0 < hi \<Longrightarrow> k < hi" and "k < 2 ^ 31"
    and "idr_find K i' = (idr_find K i)(word_of_int k \<mapsto> p)"
    by auto
qed

lemma idr_alloc_failD [idr_law]:
  assumes "idr_laws K" and "idr_alloc K i p lo hi = (k, i')" and "k < 0"
  shows "idr_find K i' = idr_find K i"
proof -
  have "if k < 0 then idr_find K i' = idr_find K i
    else idr_find K i (word_of_int k) = None \<and> lo \<le> k \<and> (0 < hi \<longrightarrow> k < hi) \<and> k < 2 ^ 31 \<and>
      idr_find K i' = (idr_find K i)(word_of_int k \<mapsto> p)"
    using assms(1,2) unfolding idr_laws_def by blast
  with assms(3) show ?thesis by simp
qed

lemma idr_alloc_negative [idr_law]:
  "idr_laws K \<Longrightarrow> lo < 0 \<Longrightarrow> fst (idr_alloc K i p lo hi) < 0"
  by (simp add: idr_laws_def)

lemma idr_find_remove [idr_law]:
  "idr_laws K \<Longrightarrow> idr_find K (idr_remove K i a) = (idr_find K i)(a := None)"
  by (simp add: idr_laws_def)

lemma idr_find_init [idr_law]: "idr_laws K \<Longrightarrow> idr_find K (idr_init K) a = None"
  by (simp add: idr_laws_def)

section \<open>A kernel that satisfies the laws\<close>

text \<open>
  The queue keeps the buffers the device has not used yet, those it has used, whether
  callbacks are on, and its size; the idr is an association list.
\<close>

record sim_vq =
  sv_avail :: "(addr \<times> u32) list"
  sv_used :: "(addr \<times> u32) list"
  sv_cb :: bool
  sv_size :: nat

definition sim_add_buf :: "sim_vq \<Rightarrow> scatterlist \<Rightarrow> addr \<Rightarrow> int \<times> sim_vq" where
  "sim_add_buf q sg t =
     (if length (sv_avail q) + length (sv_used q) < sv_size q
      then (0, q\<lparr>sv_avail := sv_avail q @ [(t, sg_len sg)]\<rparr>) else (- 28, q))"

definition sim_get_buf :: "sim_vq \<Rightarrow> (addr \<times> u32) option \<times> sim_vq" where
  "sim_get_buf q =
     (case sv_used q of [] \<Rightarrow> (None, q) | b # bs \<Rightarrow> (Some b, q\<lparr>sv_used := bs\<rparr>))"

definition sim_idr_alloc ::
  "(u32 \<times> addr) list \<Rightarrow> addr \<Rightarrow> int \<Rightarrow> int \<Rightarrow> int \<times> (u32 \<times> addr) list" where
  "sim_idr_alloc i p lo hi =
     (if lo < 0 then (- EINVAL, i)
      else case find (\<lambda>k. map_of i (word_of_int k) = None)
                  [lo..min (lo + int (length i)) (if 0 < hi then hi - 1 else 2 ^ 31 - 1)] of
             None \<Rightarrow> (- 28, i)
           | Some k \<Rightarrow> if k < 2 ^ 31 then (k, (word_of_int k, p) # i) else (- 28, i))"

definition sim_kernel :: "(sim_vq, (u32 \<times> addr) list) kernel" where
  "sim_kernel =
     \<lparr>is_vmalloc_addr = (\<lambda>a. False), vmalloc_to_page = (\<lambda>a. 0), virt_to_page = (\<lambda>a. a div PAGE_SIZE),
      virtqueue_add_inbuf = sim_add_buf, virtqueue_add_outbuf = sim_add_buf,
      virtqueue_get_buf = sim_get_buf, virtqueue_kick = (\<lambda>q. q),
      virtqueue_kick_prepare = (\<lambda>q. (True, q)), virtqueue_notify = (\<lambda>q. q),
      virtqueue_enable_cb = (\<lambda>q. q\<lparr>sv_cb := True\<rparr>),
      virtqueue_disable_cb = (\<lambda>q. q\<lparr>sv_cb := False\<rparr>),
      virtqueue_get_vring_size = (\<lambda>q. of_nat (sv_size q)),
      idr_init = [], idr_alloc = sim_idr_alloc, idr_find = map_of,
      idr_remove = (\<lambda>i a. filter (\<lambda>e. fst e \<noteq> a) i)\<rparr>"

definition sim_queued :: "sim_vq \<Rightarrow> addr multiset" where
  "sim_queued q = mset (map fst (sv_avail q)) + mset (map fst (sv_used q))"

lemmas sim_defs = sim_kernel_def sim_add_buf_def sim_get_buf_def sim_idr_alloc_def sim_queued_def

lemma sim_virtqueue_laws: "virtqueue_laws sim_kernel sim_queued sv_cb"
  unfolding virtqueue_laws_def add_buf_law_def get_buf_law_def signal_law_def
  by (auto simp: sim_defs split: if_splits list.splits)

lemma sim_used_law: "used_law sim_kernel (\<lambda>q. length (sv_used q))"
  unfolding used_law_def by (auto simp: sim_defs split: if_splits list.splits)

lemma map_of_filter_neq: "map_of (filter (\<lambda>e. fst e \<noteq> a) xs) = (map_of xs)(a := None)"
  by (induction xs) auto

lemma find_SomeD: "find P xs = Some x \<Longrightarrow> P x \<and> x \<in> set xs"
  by (auto simp: find_Some_iff)

lemma sim_idr_alloc_ok:
  assumes "sim_idr_alloc i p lo hi = (k, i')" and "\<not> k < 0"
  shows "map_of i (word_of_int k) = None \<and> lo \<le> k \<and> (0 < hi \<longrightarrow> k < hi) \<and> k < 2 ^ 31 \<and>
    map_of i' = (map_of i)(word_of_int k \<mapsto> p)"
  using assms by (auto simp: sim_idr_alloc_def dest!: find_SomeD split: option.splits if_splits)

lemma sim_idr_alloc_fail:
  assumes "sim_idr_alloc i p lo hi = (k, i')" and "k < 0"
  shows "map_of i' = map_of i"
  using assms by (auto simp: sim_idr_alloc_def dest!: find_SomeD split: option.splits if_splits)

lemma sim_idr_laws: "idr_laws sim_kernel"
  unfolding idr_laws_def
proof (intro conjI allI impI)
  fix i p lo hi k i'
  assume "idr_alloc sim_kernel i p lo hi = (k, i')"
  then have "sim_idr_alloc i p lo hi = (k, i')" by (simp add: sim_kernel_def)
  then show "if k < 0 then idr_find sim_kernel i' = idr_find sim_kernel i
    else idr_find sim_kernel i (word_of_int k) = None \<and> lo \<le> k \<and> (0 < hi \<longrightarrow> k < hi) \<and> k < 2 ^ 31 \<and>
      idr_find sim_kernel i' = (idr_find sim_kernel i)(word_of_int k \<mapsto> p)"
    using sim_idr_alloc_ok [of i p lo hi k i'] sim_idr_alloc_fail [of i p lo hi k i']
    by (simp add: sim_kernel_def)
qed (simp_all add: sim_kernel_def sim_idr_alloc_def map_of_filter_neq)

end
