(* ===== verification/CStrings.thy ===== *)
theory CStrings
  imports Prelude
begin

text \<open>
  The C string functions the sources call, on character arrays as byte lists: reading
  past the end of the list meets the terminating NUL. Each is characterised by the
  string the array holds, \<open>cstr\<close>, which is everything before the first NUL. The
  number conversions are those of \<open>sprintf\<close> for \<open>%d\<close> and \<open>0x%x\<close>.
\<close>

section \<open>Strings in arrays\<close>

definition cstr :: "u8 list \<Rightarrow> u8 list" where
  "cstr bs = takeWhile (\<lambda>c. c \<noteq> 0) bs"

definition lit :: "string \<Rightarrow> u8 list" where
  "lit s = map of_char s"

definition strncpy :: "u8 list \<Rightarrow> nat \<Rightarrow> u8 list" where
  "strncpy src n = (let s = cstr (take n src) in s @ replicate (n - length s) 0)"

fun strncmp :: "nat \<Rightarrow> u8 list \<Rightarrow> u8 list \<Rightarrow> int" where
  "strncmp 0 s t = 0"
| "strncmp (Suc n) s t =
     (let c1 = (case s of [] \<Rightarrow> 0 | c # _ \<Rightarrow> c); c2 = (case t of [] \<Rightarrow> 0 | c # _ \<Rightarrow> c)
      in if c1 \<noteq> c2 then (if c1 < c2 then - 1 else 1)
         else if c1 = 0 then 0 else strncmp n (tl s) (tl t))"

definition strcmp :: "u8 list \<Rightarrow> u8 list \<Rightarrow> int" where
  "strcmp s t = strncmp (Suc (max (length s) (length t))) s t"

definition strlen :: "u8 list \<Rightarrow> nat" where
  "strlen s = length (cstr s)"

definition strcspn :: "u8 list \<Rightarrow> u8 \<Rightarrow> nat" where
  "strcspn s r = length (takeWhile (\<lambda>c. c \<noteq> r) (cstr s))"

lemma cstr_simps [simp]:
  "cstr [] = []"
  "cstr (c # cs) = (if c = 0 then [] else c # cstr cs)"
  by (simp_all add: cstr_def)

lemma cstr_no_nul: "0 \<notin> set (cstr s)"
  by (auto simp: cstr_def dest: set_takeWhileD)

lemma length_cstr_le: "length (cstr s) \<le> length s"
  by (simp add: cstr_def length_takeWhile_le)

lemma cstr_append_nul: "0 \<notin> set s \<Longrightarrow> cstr (s @ 0 # t) = s"
  by (induction s) auto

lemma cstr_append_replicate: "0 \<notin> set s \<Longrightarrow> cstr (s @ replicate k 0) = s"
  by (induction s) (cases k, auto)

lemma cstr_idem [simp]: "cstr (cstr s) = cstr s"
  by (induction s) auto

lemma cstr_take_cstr: "cstr (take n (cstr s)) = cstr (take n s)"
  by (induction s arbitrary: n) (auto simp: take_Cons split: nat.splits)

lemma length_strncpy [simp]: "length (strncpy s n) = n"
proof -
  have "length (cstr (take n s)) \<le> n"
    by (rule order_trans [OF length_cstr_le]) simp
  then show ?thesis by (simp add: strncpy_def Let_def)
qed

lemma cstr_strncpy [simp]: "cstr (strncpy s n) = cstr (take n s)"
  by (simp add: strncpy_def Let_def cstr_append_replicate cstr_no_nul)

lemma strncpy_strncpy [simp]: "strncpy (strncpy s n) n = strncpy s n"
proof -
  have "take n (strncpy s n) = strncpy s n" by simp
  then have "cstr (take n (strncpy s n)) = cstr (take n s)" by simp
  then show ?thesis by (simp add: strncpy_def Let_def)
qed

lemma strncmp_eq_0: "strncmp n s t = 0 \<longleftrightarrow> cstr (take n s) = cstr (take n t)"
  by (induction n s t rule: strncmp.induct)
     (auto simp: Let_def take_Cons split: list.splits)

lemma strncmp_self [simp]: "strncmp n s s = 0"
  by (simp add: strncmp_eq_0)

lemma strncmp_sym_0: "strncmp n s t = 0 \<longleftrightarrow> strncmp n t s = 0"
  by (auto simp: strncmp_eq_0)

lemma strcmp_eq_0: "strcmp s t = 0 \<longleftrightarrow> cstr s = cstr t"
  unfolding strcmp_def strncmp_eq_0 by simp

section \<open>Printed numbers\<close>

fun digits :: "nat \<Rightarrow> nat \<Rightarrow> nat list" where
  "digits b n = (if b < 2 \<or> n < b then [n] else digits b (n div b) @ [n mod b])"

declare digits.simps [simp del]

definition digit_char :: "nat \<Rightarrow> u8" where
  "digit_char d = (if d < 10 then of_nat (48 + d) else of_nat (87 + d))"

definition show_nat :: "nat \<Rightarrow> nat \<Rightarrow> u8 list" where
  "show_nat b n = map digit_char (digits b n)"

definition show_d :: "int \<Rightarrow> u8 list" where
  "show_d i = (if i < 0 then 45 # show_nat 10 (nat (- i)) else show_nat 10 (nat i))"

definition show_x :: "u32 \<Rightarrow> u8 list" where
  "show_x w = show_nat 16 (unat w)"

fun undigits :: "nat \<Rightarrow> nat \<Rightarrow> nat list \<Rightarrow> nat" where
  "undigits b acc [] = acc"
| "undigits b acc (d # ds) = undigits b (acc * b + d) ds"

lemma undigits_append: "undigits b acc (xs @ ys) = undigits b (undigits b acc xs) ys"
  by (induction xs arbitrary: acc) auto

lemma undigits_digits: "2 \<le> b \<Longrightarrow> undigits b 0 (digits b n) = n"
proof (induction b n rule: digits.induct)
  case (1 b n)
  show ?case
  proof (cases "n < b")
    case True
    then show ?thesis by (simp add: digits.simps [of b n])
  next
    case False
    with 1 have "undigits b 0 (digits b (n div b)) = n div b" by simp
    with False \<open>2 \<le> b\<close> show ?thesis
      by (simp add: digits.simps [of b n] undigits_append)
  qed
qed

lemma digits_less: "2 \<le> b \<Longrightarrow> d \<in> set (digits b n) \<Longrightarrow> d < b"
proof (induction b n rule: digits.induct)
  case (1 b n)
  then show ?case
    by (cases "n < b") (auto simp: digits.simps [of b n])
qed

lemma digits_not_Nil: "digits b n \<noteq> []"
  by (subst digits.simps) simp

lemma unat_digit_char: "d < 16 \<Longrightarrow> unat (digit_char d) = (if d < 10 then 48 + d else 87 + d)"
  unfolding digit_char_def unat_of_nat by (simp del: of_nat_add add: unat_of_nat)

lemma digit_char_inj: "inj_on digit_char {0..<16}"
proof (rule inj_onI)
  fix d e :: nat
  assume "d \<in> {0..<16}" and "e \<in> {0..<16}" and eq: "digit_char d = digit_char e"
  then have "d < 16" and "e < 16" by auto
  then show "d = e"
    using arg_cong [OF eq, of unat] by (simp add: unat_digit_char split: if_splits)
qed

lemma show_nat_inj:
  assumes "2 \<le> b" and "b \<le> 16" and eq: "show_nat b m = show_nat b n"
  shows "m = n"
proof -
  have "set (digits b m) \<union> set (digits b n) \<subseteq> {0..<16}"
    using assms(1,2) by (auto dest: digits_less)
  then have "inj_on digit_char (set (digits b m) \<union> set (digits b n))"
    by (rule inj_on_subset [OF digit_char_inj])
  then have "digits b m = digits b n"
    using eq by (simp add: show_nat_def inj_on_map_eq_map)
  then have "undigits b 0 (digits b m) = undigits b 0 (digits b n)"
    by (rule arg_cong)
  then show ?thesis
    by (simp only: undigits_digits [OF assms(1)])
qed

lemma show_nat_chars:
  assumes "2 \<le> b" and "b \<le> 16" and "c \<in> set (show_nat b n)"
  shows "48 \<le> unat c \<and> unat c < 103"
  using assms digits_less [OF assms(1)]
  by (fastforce simp: show_nat_def unat_digit_char split: if_splits)

lemma show_d_inj:
  assumes "show_d i = show_d j"
  shows "i = j"
proof -
  have nd: "45 \<notin> set (show_nat 10 n)" for n
    using show_nat_chars [of 10 45 n] by auto
  have hd: "show_nat 10 n \<noteq> 45 # cs" for n cs
    using nd [of n] by auto
  show ?thesis
    using assms hd by (auto simp: show_d_def dest!: show_nat_inj [rotated 2] split: if_splits)
      (metis hd)+
qed

end
