(* ===== verification/RpmsgWire.thy ===== *)
theory RpmsgWire
  imports CStrings
begin

text \<open>
  The two packed structures that cross the wire (\<open>struct rpmsg_hdr\<close> and
  \<open>struct rpmsg_ns_msg\<close> of virtio_rpmsg_bus.c), the channel description of the rpmsg
  core, and the protocol constants. The structures are laid out byte by byte, without
  padding, in the byte order of the x86-64 kernels the Makefiles build for. The locale
  \<open>wire_format\<close> states what a packed structure promises: a fixed size, and reading
  memory that holds the bytes of a value gives the value back.
\<close>

section \<open>Constants\<close>

definition RPMSG_ADDR_ANY :: u32 where "RPMSG_ADDR_ANY = 0xFFFFFFFF"
definition RPMSG_NAME_SIZE :: nat where "RPMSG_NAME_SIZE = 32"
definition VIRTIO_RPMSG_F_NS :: nat where "VIRTIO_RPMSG_F_NS = 0"
definition RPMSG_NS_CREATE :: u32 where "RPMSG_NS_CREATE = 0"
definition RPMSG_NS_DESTROY :: u32 where "RPMSG_NS_DESTROY = 1"
definition MAX_RPMSG_NUM_BUFS :: u32 where "MAX_RPMSG_NUM_BUFS = 512"
definition MAX_RPMSG_BUF_SIZE :: u32 where "MAX_RPMSG_BUF_SIZE = 512"
definition RPMSG_RESERVED_ADDRESSES :: int where "RPMSG_RESERVED_ADDRESSES = 1024"
definition RPMSG_NS_ADDR :: u32 where "RPMSG_NS_ADDR = 53"

lemmas rpmsg_consts =
  RPMSG_ADDR_ANY_def RPMSG_NAME_SIZE_def VIRTIO_RPMSG_F_NS_def RPMSG_NS_CREATE_def
  RPMSG_NS_DESTROY_def MAX_RPMSG_NUM_BUFS_def MAX_RPMSG_BUF_SIZE_def
  RPMSG_RESERVED_ADDRESSES_def RPMSG_NS_ADDR_def

section \<open>Structures\<close>

record rpmsg_hdr =
  hdr_src :: u32
  hdr_dst :: u32
  hdr_reserved :: u32
  hdr_len :: u16
  hdr_flags :: u16

record rpmsg_ns_msg =
  nsm_name :: "u8 list"
  nsm_addr :: u32
  nsm_flags :: u32

record rpmsg_channel_info =
  ch_name :: "u8 list"
  ch_src :: u32
  ch_dst :: u32

definition sizeof_rpmsg_hdr :: nat where "sizeof_rpmsg_hdr = 16"
definition sizeof_rpmsg_ns_msg :: nat where "sizeof_rpmsg_ns_msg = 40"

lemmas sizeofs = sizeof_rpmsg_hdr_def sizeof_rpmsg_ns_msg_def

section \<open>Little-endian words\<close>

fun le_enc :: "nat \<Rightarrow> 'a::len word \<Rightarrow> u8 list" where
  "le_enc 0 w = []"
| "le_enc (Suc n) w = ucast w # le_enc n (drop_bit 8 w)"

fun le_dec :: "u8 list \<Rightarrow> 'a::len word" where
  "le_dec [] = 0"
| "le_dec (b # bs) = ucast b OR push_bit 8 (le_dec bs)"

lemma length_le_enc [simp]: "length (le_enc n w) = n"
  by (induction n w rule: le_enc.induct) auto

lemma le_dec_enc: "le_dec (le_enc n w) = take_bit (8 * n) w"
proof (induction n arbitrary: w)
  case 0
  then show ?case by simp
next
  case (Suc n)
  show ?case
    by (rule bit_word_eqI)
       (auto simp: Suc bit_or_iff bit_push_bit_iff bit_take_bit_iff bit_drop_bit_eq
         bit_word_ucast_iff not_le)
qed

lemma le_dec_enc16 [simp]: "le_dec (le_enc 2 (w :: u16)) = w"
  by (simp add: le_dec_enc take_bit_word_eq_self)

lemma le_dec_enc32 [simp]: "le_dec (le_enc 4 (w :: u32)) = w"
  by (simp add: le_dec_enc take_bit_word_eq_self)

section \<open>The packed layouts\<close>

definition hdr_enc :: "rpmsg_hdr \<Rightarrow> u8 list" where
  "hdr_enc h = le_enc 4 (hdr_src h) @ le_enc 4 (hdr_dst h) @ le_enc 4 (hdr_reserved h) @
     le_enc 2 (hdr_len h) @ le_enc 2 (hdr_flags h)"

definition hdr_load :: "bytes \<Rightarrow> addr \<Rightarrow> rpmsg_hdr" where
  "hdr_load m a =
     \<lparr>hdr_src = le_dec (load m a 4), hdr_dst = le_dec (load m (a + 4) 4),
      hdr_reserved = le_dec (load m (a + 8) 4), hdr_len = le_dec (load m (a + 12) 2),
      hdr_flags = le_dec (load m (a + 14) 2)\<rparr>"

definition nsm_enc :: "rpmsg_ns_msg \<Rightarrow> u8 list" where
  "nsm_enc n = nsm_name n @ le_enc 4 (nsm_addr n) @ le_enc 4 (nsm_flags n)"

definition nsm_load :: "bytes \<Rightarrow> addr \<Rightarrow> rpmsg_ns_msg" where
  "nsm_load m a =
     \<lparr>nsm_name = load m a 32, nsm_addr = le_dec (load m (a + 32) 4),
      nsm_flags = le_dec (load m (a + 36) 4)\<rparr>"

definition nsm_wf :: "rpmsg_ns_msg \<Rightarrow> bool" where
  "nsm_wf n \<longleftrightarrow> length (nsm_name n) = RPMSG_NAME_SIZE"

section \<open>The interface of a packed structure\<close>

locale wire_format =
  fixes enc :: "'a \<Rightarrow> u8 list"
    and ld :: "bytes \<Rightarrow> addr \<Rightarrow> 'a"
    and size :: nat
    and wf :: "'a \<Rightarrow> bool"
  assumes enc_size: "wf x \<Longrightarrow> length (enc x) = size"
    and ld_local: "load m a size = load m' b size \<Longrightarrow> ld m a = ld m' b"
    and ld_enc: "wf x \<Longrightarrow> load m a size = enc x \<Longrightarrow> ld m a = x"
begin

lemma ld_store: "wf x \<Longrightarrow> ld (store m a (enc x)) a = x"
  by (rule ld_enc) (simp_all add: load_store_same' enc_size)

lemma ld_store_prefix:
  assumes "wf x"
  shows "ld (store m a (enc x @ ys)) a = x"
proof (rule ld_enc [OF assms])
  have "load (store m a (enc x @ ys)) a (length (enc x) + length ys) = enc x @ ys"
    by (rule load_store_same') simp
  then show "load (store m a (enc x @ ys)) a size = enc x"
    by (simp add: load_split enc_size [OF assms])
qed

lemma ld_store_apart:
  assumes "a + size \<le> b \<or> b + length bs \<le> a"
  shows "ld (store m b bs) a = ld m a"
  by (rule ld_local) (use assms in \<open>auto intro: load_store_apart\<close>)

lemma enc_inj:
  assumes "wf x" and "wf y" and "enc x = enc y"
  shows "x = y"
proof -
  have "x = ld (store (\<lambda>_. 0) 0 (enc x)) 0"
    by (rule ld_store [OF assms(1), symmetric])
  also have "\<dots> = y"
    unfolding assms(3) by (rule ld_store [OF assms(2)])
  finally show ?thesis .
qed

end

lemma load_part:
  assumes "load m a n = xs @ ys @ zs" and "length xs = k" and "length ys = l" and "k + l \<le> n"
  shows "load m (a + k) l = ys"
proof -
  have len: "n = length (xs @ ys @ zs)" using assms(1) length_load by metis
  show ?thesis
  proof (rule nth_equalityI)
    fix i assume "i < length (load m (a + k) l)"
    then have i: "i < l" by simp
    then have "load m (a + k) l ! i = load m a n ! (k + i)"
      using assms(4) by (simp add: add.assoc)
    also have "\<dots> = ys ! i"
      unfolding assms(1) using i assms(2,3) by (simp add: nth_append)
    finally show "load m (a + k) l ! i = ys ! i" .
  qed (simp add: assms(3))
qed

lemma load_part_eq:
  assumes "load m a n = load m' b n" and "k + l \<le> n"
  shows "load m (a + k) l = load m' (b + k) l"
proof (rule nth_equalityI)
  fix i assume "i < length (load m (a + k) l)"
  then have i: "i < l" by simp
  have "load m a n ! (k + i) = load m' b n ! (k + i)" using assms(1) by simp
  then show "load m (a + k) l ! i = load m' (b + k) l ! i"
    using i assms(2) by (simp add: add.assoc)
qed simp

interpretation hdr: wire_format hdr_enc hdr_load sizeof_rpmsg_hdr "\<lambda>_. True"
proof
  show "length (hdr_enc x) = sizeof_rpmsg_hdr" for x
    by (simp add: hdr_enc_def sizeofs)
next
  fix m m' a b assume eq: "load m a sizeof_rpmsg_hdr = load m' b sizeof_rpmsg_hdr"
  show "hdr_load m a = hdr_load m' b"
    using load_part_eq [OF eq, of 0 4] load_part_eq [OF eq, of 4 4] load_part_eq [OF eq, of 8 4]
      load_part_eq [OF eq, of 12 2] load_part_eq [OF eq, of 14 2]
    by (simp add: hdr_load_def sizeofs)
next
  fix m a x assume "load m a sizeof_rpmsg_hdr = hdr_enc x"
  note ld = this [unfolded hdr_enc_def sizeofs]
  have "load m (a + 0) 4 = le_enc 4 (hdr_src x)"
    by (rule load_part [where xs = "[]", OF trans [OF ld]]) simp_all
  moreover have "load m (a + 4) 4 = le_enc 4 (hdr_dst x)"
    by (rule load_part [where xs = "le_enc 4 (hdr_src x)", OF ld]) simp_all
  moreover have "load m (a + 8) 4 = le_enc 4 (hdr_reserved x)"
    by (rule load_part [where xs = "le_enc 4 (hdr_src x) @ le_enc 4 (hdr_dst x)", OF trans [OF ld]])
      simp_all
  moreover have "load m (a + 12) 2 = le_enc 2 (hdr_len x)"
    by (rule load_part [where xs = "le_enc 4 (hdr_src x) @ le_enc 4 (hdr_dst x) @
      le_enc 4 (hdr_reserved x)", OF trans [OF ld]]) simp_all
  moreover have "load m (a + 14) 2 = le_enc 2 (hdr_flags x)"
    by (rule load_part [where xs = "le_enc 4 (hdr_src x) @ le_enc 4 (hdr_dst x) @
      le_enc 4 (hdr_reserved x) @ le_enc 2 (hdr_len x)" and zs = "[]", OF trans [OF ld]]) simp_all
  ultimately show "hdr_load m a = x"
    by (simp add: hdr_load_def)
qed

interpretation nsm: wire_format nsm_enc nsm_load sizeof_rpmsg_ns_msg nsm_wf
proof
  show "nsm_wf x \<Longrightarrow> length (nsm_enc x) = sizeof_rpmsg_ns_msg" for x
    by (simp add: nsm_enc_def nsm_wf_def sizeofs RPMSG_NAME_SIZE_def)
next
  fix m m' a b assume eq: "load m a sizeof_rpmsg_ns_msg = load m' b sizeof_rpmsg_ns_msg"
  show "nsm_load m a = nsm_load m' b"
    using load_part_eq [OF eq, of 0 32] load_part_eq [OF eq, of 32 4] load_part_eq [OF eq, of 36 4]
    by (simp add: nsm_load_def sizeofs)
next
  fix m a x assume wf: "nsm_wf x" and "load m a sizeof_rpmsg_ns_msg = nsm_enc x"
  note ld = this(2) [unfolded nsm_enc_def sizeofs] and len = wf [unfolded nsm_wf_def RPMSG_NAME_SIZE_def]
  have "load m (a + 0) 32 = nsm_name x"
    by (rule load_part [where xs = "[]", OF trans [OF ld]]) (simp_all add: len)
  moreover have "load m (a + 32) 4 = le_enc 4 (nsm_addr x)"
    by (rule load_part [where xs = "nsm_name x", OF ld]) (simp_all add: len)
  moreover have "load m (a + 36) 4 = le_enc 4 (nsm_flags x)"
    by (rule load_part [where xs = "nsm_name x @ le_enc 4 (nsm_addr x)" and zs = "[]",
      OF trans [OF ld]]) (simp_all add: len)
  ultimately show "nsm_load m a = x"
    by (simp add: nsm_load_def)
qed

end
