(* ===== verification/Virtproc.thy ===== *)
theory Virtproc
  imports KernelApi RpmsgWire
begin

text \<open>
  The data of the rpmsg stack: endpoints and devices (the fields of
  \<open>struct rpmsg_endpoint\<close> and \<open>struct rpmsg_device\<close> the sources use), the state of a
  remote processor (\<open>struct virtproc_info\<close> of virtio_rpmsg_bus.c), and the state the
  bus code reads and writes, with the endpoints and the devices in stores indexed by
  their addresses. The mutexes and the wait queue of the C structure have no field: a
  locked region is one step of the model.
\<close>

section \<open>Endpoints and devices\<close>

text \<open>The receive callbacks: the two of the sources, and those of other drivers.\<close>

datatype rx_cb = Rpmsg_ns_cb | Rpmsg_ept_cb | Driver_cb nat

datatype priv = Priv_null | Priv_vrp | Priv_eptdev addr

record rpmsg_endpoint =
  ep_rpdev :: "addr option"
  ep_cb :: "rx_cb option"
  ep_priv :: priv
  ep_addr :: u32
  ep_refcount :: nat

text \<open>
  The object a device is embedded in: \<open>struct virtio_rpmsg_channel\<close>, which has the
  field \<open>vrp\<close> after the device, or \<open>struct virtio_rpmsg_device\<close> of the test code, which
  holds the device and nothing else.
\<close>

datatype container = Virtio_rpmsg_channel | Virtio_rpmsg_device

text \<open>A \<open>char *\<close> that is a string literal or was allocated with \<open>kmalloc\<close>.\<close>

datatype c_string = Literal "u8 list" | Allocated "u8 list"

primrec c_chars :: "c_string \<Rightarrow> u8 list" where
  "c_chars (Literal s) = s"
| "c_chars (Allocated s) = s"

record rpmsg_device =
  rp_container :: container
  rp_name :: "u8 list"
  rp_driver_override :: "c_string option"
  rp_src :: u32
  rp_dst :: u32
  rp_ept :: "addr option"
  rp_announce :: bool
  rp_drvdata :: "addr option"

text \<open>
  Reading \<open>to_virtio_rpmsg_channel(rpdev)->vrp\<close>: the channel links to the one remote
  processor of the state; in the test object the field lies past the allocation.
\<close>

definition vch_vrp :: "rpmsg_device \<Rightarrow> unit outcome" where
  "vch_vrp r = (case rp_container r of Virtio_rpmsg_channel \<Rightarrow> Returns ()
     | Virtio_rpmsg_device \<Rightarrow> Faults)"

lemma vch_vrp_Returns [simp]: "vch_vrp r = Returns u \<longleftrightarrow> rp_container r = Virtio_rpmsg_channel"
  by (simp add: vch_vrp_def split: container.splits)

lemma vch_vrp_container [simp]:
  "rp_container r = Virtio_rpmsg_channel \<Longrightarrow> vch_vrp r = Returns ()"
  "rp_container r = Virtio_rpmsg_device \<Longrightarrow> vch_vrp r = Faults"
  by (simp_all add: vch_vrp_def)

section \<open>The remote processor\<close>

text \<open>
  \<open>has_feature\<close> stands for what \<open>virtio_has_feature\<close> answers for \<open>vdev\<close>.
\<close>

record ('q, 'i) virtproc_info =
  has_feature :: "nat \<Rightarrow> bool"
  rvq :: 'q
  svq :: 'q
  rbufs :: addr
  sbufs :: addr
  num_bufs :: u32
  buf_size :: u32
  last_sbuf :: int
  bufs_dma :: nat
  endpoints :: 'i
  sleepers :: int
  ns_ept :: "addr option"

record ('q, 'i) rpmsg_bus =
  vrp :: "('q, 'i) virtproc_info"
  mem :: bytes
  epts :: "addr \<rightharpoonup> rpmsg_endpoint"
  rpdevs :: "addr \<rightharpoonup> rpmsg_device"

section \<open>Scatterlists\<close>

definition rpmsg_sg_init :: "('q, 'i, 'z) kernel_scheme \<Rightarrow> addr \<Rightarrow> u32 \<Rightarrow> scatterlist" where
  "rpmsg_sg_init K cpu_addr len =
     (if is_vmalloc_addr K cpu_addr
      then \<lparr>sg_page = vmalloc_to_page K cpu_addr, sg_offset = offset_in_page cpu_addr, sg_len = len\<rparr>
      else \<lparr>sg_page = virt_to_page K cpu_addr, sg_offset = offset_in_page cpu_addr, sg_len = len\<rparr>)"

lemma sg_len_init [simp]: "sg_len (rpmsg_sg_init K a n) = n"
  by (simp add: rpmsg_sg_init_def)

section \<open>A small remote processor\<close>

text \<open>
  The state the witnesses start from: eight buffers of 512 bytes, the receive half at
  4096 and the transmit half at 6144, empty queues of the kernel of KernelApi, one
  channel at address 1 and the endpoint of that channel at address 2.
\<close>

definition sim_queue :: sim_vq where
  "sim_queue = \<lparr>sv_avail = [], sv_used = [], sv_cb = False, sv_size = 4\<rparr>"

definition sim_vrp :: "(sim_vq, (u32 \<times> addr) list) virtproc_info" where
  "sim_vrp = \<lparr>has_feature = (\<lambda>f. f = 0), rvq = sim_queue, svq = sim_queue, rbufs = 4096, sbufs = 6144,
     num_bufs = 8, buf_size = 512, last_sbuf = 0, bufs_dma = 0, endpoints = [(1024, 2)],
     sleepers = 0, ns_ept = None\<rparr>"

definition sim_ept :: rpmsg_endpoint where
  "sim_ept = \<lparr>ep_rpdev = Some 1, ep_cb = Some (Driver_cb 0), ep_priv = Priv_null, ep_addr = 1024,
     ep_refcount = 1\<rparr>"

definition sim_rpdev :: rpmsg_device where
  "sim_rpdev = \<lparr>rp_container = Virtio_rpmsg_channel, rp_name = strncpy (lit ''echo'') 32,
     rp_driver_override = None, rp_src = 1024, rp_dst = 7, rp_ept = Some 2, rp_announce = True,
     rp_drvdata = None\<rparr>"

definition sim_bus :: "(sim_vq, (u32 \<times> addr) list) rpmsg_bus" where
  "sim_bus = \<lparr>vrp = sim_vrp, mem = (\<lambda>_. 0), epts = [2 \<mapsto> sim_ept], rpdevs = [1 \<mapsto> sim_rpdev]\<rparr>"

lemmas sim_state = sim_queue_def sim_vrp_def sim_ept_def sim_rpdev_def sim_bus_def

end
