(* ===== verification/TxPath.thy ===== *)
theory TxPath
  imports Virtproc
begin

text \<open>
  The transmit path of virtio_rpmsg_bus.c: the buffer allocator \<open>get_a_tx_buf\<close>, the
  count of sleeping senders, and \<open>rpmsg_send_offchannel_raw\<close> with the six operations of
  \<open>virtio_endpoint_ops\<close> that call it. A sleep is described by a script: the changes
  other contexts make to the remote processor's state between two evaluations of the wait
  condition, and how the sleep ends when the condition never becomes true.
\<close>

section \<open>The buffer allocator\<close>

definition get_a_tx_buf ::
  "('q, 'i, 'z) kernel_scheme \<Rightarrow> ('q, 'i) virtproc_info \<Rightarrow> addr option \<times> ('q, 'i) virtproc_info" where
  "get_a_tx_buf K v =
     (if u32_of_int (last_sbuf v) < num_bufs v div 2
      then (Some (sbufs v + unat (buf_size v * u32_of_int (last_sbuf v))),
            v\<lparr>last_sbuf := last_sbuf v + 1\<rparr>)
      else case virtqueue_get_buf K (svq v) of
             (r, q) \<Rightarrow> (map_option fst r, v\<lparr>svq := q\<rparr>))"

definition rpmsg_upref_sleepers ::
  "('q, 'i, 'z) kernel_scheme \<Rightarrow> ('q, 'i) virtproc_info \<Rightarrow> ('q, 'i) virtproc_info" where
  "rpmsg_upref_sleepers K v =
     (let n = sleepers v + 1; v1 = v\<lparr>sleepers := n\<rparr>
      in if n = 1 then v1\<lparr>svq := virtqueue_enable_cb K (svq v1)\<rparr> else v1)"

definition rpmsg_downref_sleepers ::
  "('q, 'i, 'z) kernel_scheme \<Rightarrow> ('q, 'i) virtproc_info \<Rightarrow> ('q, 'i) virtproc_info" where
  "rpmsg_downref_sleepers K v =
     (let n = sleepers v - 1; v1 = v\<lparr>sleepers := n\<rparr>
      in if n = 0 then v1\<lparr>svq := virtqueue_disable_cb K (svq v1)\<rparr> else v1)"

section \<open>Waiting for a buffer\<close>

datatype wait_verdict = Timed_out | Signal_pending

type_synonym ('q, 'i) wait_script =
  "(('q, 'i) virtproc_info \<Rightarrow> ('q, 'i) virtproc_info) list \<times> wait_verdict"

text \<open>
  \<open>wait_event_interruptible_timeout(vrp->sendq, (msg = get_a_tx_buf(vrp)), \<dots>)\<close>: the
  condition is evaluated before the first sleep and after every wake-up. The result is
  positive when it became true, 0 when the time ran out and \<open>-ERESTARTSYS\<close> on a signal.
\<close>

fun wait_tx_buf_event ::
  "('q, 'i, 'z) kernel_scheme \<Rightarrow> (('q, 'i) virtproc_info \<Rightarrow> ('q, 'i) virtproc_info) list \<Rightarrow>
   wait_verdict \<Rightarrow> ('q, 'i) virtproc_info \<Rightarrow> int \<times> addr option \<times> ('q, 'i) virtproc_info" where
  "wait_tx_buf_event K [] e v =
     (case get_a_tx_buf K v of
        (Some a, v') \<Rightarrow> (1, Some a, v')
      | (None, v') \<Rightarrow> (case e of Timed_out \<Rightarrow> 0 | Signal_pending \<Rightarrow> - ERESTARTSYS, None, v'))"
| "wait_tx_buf_event K (f # fs) e v =
     (case get_a_tx_buf K v of
        (Some a, v') \<Rightarrow> (1, Some a, v')
      | (None, v') \<Rightarrow> wait_tx_buf_event K fs e (f v'))"

text \<open>
  The loop \<open>while (!msg)\<close>. The script of its i-th iteration is \<open>waits i\<close>; the result
  \<open>None\<close> is a loop that never ends.
\<close>

partial_function (option) wait_for_tx_buf ::
  "('q, 'i, 'z) kernel_scheme \<Rightarrow> (nat \<Rightarrow> ('q, 'i) wait_script) \<Rightarrow> nat \<Rightarrow>
   ('q, 'i) virtproc_info \<Rightarrow> (addr option \<times> ('q, 'i) virtproc_info) option" where
  "wait_for_tx_buf K waits i v =
     (case wait_tx_buf_event K (fst (waits i)) (snd (waits i)) (rpmsg_upref_sleepers K v) of
        (err, m, v2) \<Rightarrow>
          if err = 0 then Some (None, rpmsg_downref_sleepers K v2)
          else if m \<noteq> None then Some (m, rpmsg_downref_sleepers K v2)
          else wait_for_tx_buf K waits (Suc i) (rpmsg_downref_sleepers K v2))"

section \<open>Sending\<close>

text \<open>The message the sender writes into its buffer, header first.\<close>

definition write_tx_msg :: "u32 \<Rightarrow> u32 \<Rightarrow> bytes \<Rightarrow> int \<Rightarrow> addr \<Rightarrow> bytes \<Rightarrow> bytes" where
  "write_tx_msg src dst data len a m =
     store (store m a (hdr_enc \<lparr>hdr_src = src, hdr_dst = dst, hdr_reserved = 0,
                                hdr_len = word_of_int len, hdr_flags = 0\<rparr>))
       (a + sizeof_rpmsg_hdr) (load data 0 (unat (size_t_of_int len)))"

definition send_tx_buf ::
  "('q, 'i, 'z) kernel_scheme \<Rightarrow> u32 \<Rightarrow> u32 \<Rightarrow> bytes \<Rightarrow> int \<Rightarrow> addr \<Rightarrow>
   ('q, 'i, 'y) rpmsg_bus_scheme \<Rightarrow> int \<times> ('q, 'i, 'y) rpmsg_bus_scheme" where
  "send_tx_buf K src dst data len a s =
     (let s1 = s\<lparr>mem := write_tx_msg src dst data len a (mem s)\<rparr>;
          sg = rpmsg_sg_init K a (ucast (of_nat sizeof_rpmsg_hdr + size_t_of_int len));
          (err, q) = virtqueue_add_outbuf K (svq (vrp s1)) sg a
      in if err \<noteq> 0 then (err, s1\<lparr>vrp := (vrp s1)\<lparr>svq := q\<rparr>\<rparr>)
         else (err, s1\<lparr>vrp := (vrp s1)\<lparr>svq := virtqueue_kick K q\<rparr>\<rparr>))"

definition rpmsg_send_offchannel_raw ::
  "('q, 'i, 'z) kernel_scheme \<Rightarrow> (nat \<Rightarrow> ('q, 'i) wait_script) \<Rightarrow> rpmsg_device \<Rightarrow> u32 \<Rightarrow> u32 \<Rightarrow>
   bytes \<Rightarrow> int \<Rightarrow> bool \<Rightarrow> ('q, 'i, 'y) rpmsg_bus_scheme \<Rightarrow>
   (int \<times> ('q, 'i, 'y) rpmsg_bus_scheme) outcome" where
  "rpmsg_send_offchannel_raw K waits rpdev src dst data len wait s =
     bind_outcome (vch_vrp rpdev) (\<lambda>_.
       if src = RPMSG_ADDR_ANY \<or> dst = RPMSG_ADDR_ANY then Returns (- EINVAL, s)
       else if ucast (buf_size (vrp s)) - of_nat sizeof_rpmsg_hdr < size_t_of_int len
         then Returns (- EMSGSIZE, s)
       else case get_a_tx_buf K (vrp s) of
         (Some a, v) \<Rightarrow> Returns (send_tx_buf K src dst data len a (s\<lparr>vrp := v\<rparr>))
       | (None, v) \<Rightarrow>
           if \<not> wait then Returns (- ENOMEM, s\<lparr>vrp := v\<rparr>)
           else case wait_for_tx_buf K waits 0 v of
             None \<Rightarrow> Hangs
           | Some (None, v') \<Rightarrow> Returns (- ERESTARTSYS, s\<lparr>vrp := v'\<rparr>)
           | Some (Some a, v') \<Rightarrow> Returns (send_tx_buf K src dst data len a (s\<lparr>vrp := v'\<rparr>)))"

section \<open>The endpoint operations\<close>

text \<open>The endpoint behind a pointer and the device it belongs to.\<close>

definition ept_and_rpdev ::
  "('q, 'i, 'y) rpmsg_bus_scheme \<Rightarrow> addr \<Rightarrow> (rpmsg_endpoint \<times> rpmsg_device) outcome" where
  "ept_and_rpdev s p =
     bind_outcome (deref (epts s) p) (\<lambda>e.
       case ep_rpdev e of None \<Rightarrow> Faults
       | Some d \<Rightarrow> bind_outcome (deref (rpdevs s) d) (\<lambda>r. Returns (e, r)))"

definition virtio_rpmsg_send ::
  "('q, 'i, 'z) kernel_scheme \<Rightarrow> (nat \<Rightarrow> ('q, 'i) wait_script) \<Rightarrow> addr \<Rightarrow> bytes \<Rightarrow> int \<Rightarrow>
   ('q, 'i, 'y) rpmsg_bus_scheme \<Rightarrow> (int \<times> ('q, 'i, 'y) rpmsg_bus_scheme) outcome" where
  "virtio_rpmsg_send K waits p data len s =
     bind_outcome (ept_and_rpdev s p) (\<lambda>(e, r).
       rpmsg_send_offchannel_raw K waits r (ep_addr e) (rp_dst r) data len True s)"

definition virtio_rpmsg_sendto ::
  "('q, 'i, 'z) kernel_scheme \<Rightarrow> (nat \<Rightarrow> ('q, 'i) wait_script) \<Rightarrow> addr \<Rightarrow> bytes \<Rightarrow> int \<Rightarrow> u32 \<Rightarrow>
   ('q, 'i, 'y) rpmsg_bus_scheme \<Rightarrow> (int \<times> ('q, 'i, 'y) rpmsg_bus_scheme) outcome" where
  "virtio_rpmsg_sendto K waits p data len dst s =
     bind_outcome (ept_and_rpdev s p) (\<lambda>(e, r).
       rpmsg_send_offchannel_raw K waits r (ep_addr e) dst data len True s)"

definition virtio_rpmsg_send_offchannel ::
  "('q, 'i, 'z) kernel_scheme \<Rightarrow> (nat \<Rightarrow> ('q, 'i) wait_script) \<Rightarrow> addr \<Rightarrow> u32 \<Rightarrow> u32 \<Rightarrow> bytes \<Rightarrow> int \<Rightarrow>
   ('q, 'i, 'y) rpmsg_bus_scheme \<Rightarrow> (int \<times> ('q, 'i, 'y) rpmsg_bus_scheme) outcome" where
  "virtio_rpmsg_send_offchannel K waits p src dst data len s =
     bind_outcome (ept_and_rpdev s p) (\<lambda>(e, r).
       rpmsg_send_offchannel_raw K waits r src dst data len True s)"

definition virtio_rpmsg_trysend ::
  "('q, 'i, 'z) kernel_scheme \<Rightarrow> (nat \<Rightarrow> ('q, 'i) wait_script) \<Rightarrow> addr \<Rightarrow> bytes \<Rightarrow> int \<Rightarrow>
   ('q, 'i, 'y) rpmsg_bus_scheme \<Rightarrow> (int \<times> ('q, 'i, 'y) rpmsg_bus_scheme) outcome" where
  "virtio_rpmsg_trysend K waits p data len s =
     bind_outcome (ept_and_rpdev s p) (\<lambda>(e, r).
       rpmsg_send_offchannel_raw K waits r (ep_addr e) (rp_dst r) data len False s)"

definition virtio_rpmsg_trysendto ::
  "('q, 'i, 'z) kernel_scheme \<Rightarrow> (nat \<Rightarrow> ('q, 'i) wait_script) \<Rightarrow> addr \<Rightarrow> bytes \<Rightarrow> int \<Rightarrow> u32 \<Rightarrow>
   ('q, 'i, 'y) rpmsg_bus_scheme \<Rightarrow> (int \<times> ('q, 'i, 'y) rpmsg_bus_scheme) outcome" where
  "virtio_rpmsg_trysendto K waits p data len dst s =
     bind_outcome (ept_and_rpdev s p) (\<lambda>(e, r).
       rpmsg_send_offchannel_raw K waits r (ep_addr e) dst data len False s)"

definition virtio_rpmsg_trysend_offchannel ::
  "('q, 'i, 'z) kernel_scheme \<Rightarrow> (nat \<Rightarrow> ('q, 'i) wait_script) \<Rightarrow> addr \<Rightarrow> u32 \<Rightarrow> u32 \<Rightarrow> bytes \<Rightarrow> int \<Rightarrow>
   ('q, 'i, 'y) rpmsg_bus_scheme \<Rightarrow> (int \<times> ('q, 'i, 'y) rpmsg_bus_scheme) outcome" where
  "virtio_rpmsg_trysend_offchannel K waits p src dst data len s =
     bind_outcome (ept_and_rpdev s p) (\<lambda>(e, r).
       rpmsg_send_offchannel_raw K waits r src dst data len False s)"

section \<open>The pool of transmit buffers\<close>

text \<open>
  Slot \<open>k\<close> of the transmit half of the buffers, and what the code keeps true of the pool:
  the buffers handed out so far are the first \<open>last_sbuf\<close> slots, and the transmit queue
  holds none but those.
\<close>

definition tx_slot :: "('q, 'i) virtproc_info \<Rightarrow> nat \<Rightarrow> addr" where
  "tx_slot v k = sbufs v + 512 * k"

definition tx_issued :: "('q, 'i) virtproc_info \<Rightarrow> addr set" where
  "tx_issued v = tx_slot v ` {..<nat (last_sbuf v)}"

definition tx_wf :: "('q \<Rightarrow> addr multiset) \<Rightarrow> ('q, 'i) virtproc_info \<Rightarrow> bool" where
  "tx_wf queued v \<longleftrightarrow>
     buf_size v = MAX_RPMSG_BUF_SIZE \<and> num_bufs v \<le> MAX_RPMSG_NUM_BUFS \<and>
     0 \<le> last_sbuf v \<and> last_sbuf v \<le> int (unat (num_bufs v) div 2) \<and>
     set_mset (queued (svq v)) \<subseteq> tx_issued v"

lemma tx_slot_inj: "tx_slot v k = tx_slot v l \<longleftrightarrow> k = l"
  by (simp add: tx_slot_def)

lemma tx_slot_upd [simp]:
  "tx_slot (v\<lparr>svq := q\<rparr>) = tx_slot v" "tx_slot (v\<lparr>last_sbuf := n\<rparr>) = tx_slot v"
  "tx_slot (v\<lparr>sleepers := m\<rparr>) = tx_slot v"
  by (simp_all add: tx_slot_def fun_eq_iff)

lemma tx_issued_upd [simp]:
  "tx_issued (v\<lparr>svq := q\<rparr>) = tx_issued v" "tx_issued (v\<lparr>sleepers := m\<rparr>) = tx_issued v"
  by (simp_all add: tx_issued_def)

lemma tx_issued_next:
  "0 \<le> last_sbuf v \<Longrightarrow>
   tx_issued (v\<lparr>last_sbuf := last_sbuf v + 1\<rparr>) = insert (tx_slot v (nat (last_sbuf v))) (tx_issued v)"
  by (simp add: tx_issued_def nat_add_distrib lessThan_Suc)

lemma tx_slot_next_fresh: "tx_slot v (nat (last_sbuf v)) \<notin> tx_issued v"
  by (auto simp: tx_issued_def tx_slot_inj)

lemma unat_num_bufs_le: "tx_wf queued v \<Longrightarrow> unat (num_bufs v) \<le> 512"
  by (simp add: tx_wf_def MAX_RPMSG_NUM_BUFS_def word_le_nat_alt)

lemma unat_last_sbuf:
  assumes "tx_wf queued v"
  shows "unat (u32_of_int (last_sbuf v)) = nat (last_sbuf v)"
proof -
  have "last_sbuf v < 2 ^ 32" and "0 \<le> last_sbuf v"
    using assms unat_num_bufs_le [OF assms] by (auto simp: tx_wf_def)
  then show ?thesis
    by (simp add: u32_of_int_def unsigned_of_int take_bit_int_eq_self)
qed

lemma fresh_slot_test:
  assumes "tx_wf queued v"
  shows "u32_of_int (last_sbuf v) < num_bufs v div 2 \<longleftrightarrow> last_sbuf v < int (unat (num_bufs v) div 2)"
proof -
  have "u32_of_int (last_sbuf v) < num_bufs v div 2 \<longleftrightarrow> nat (last_sbuf v) < unat (num_bufs v) div 2"
    using unat_last_sbuf [OF assms] by (simp add: word_less_nat_alt unat_div)
  then show ?thesis
    using assms by (auto simp: tx_wf_def zless_nat_eq_int_zless nat_less_iff)
qed

lemma fresh_slot_addr:
  assumes "tx_wf queued v" and "last_sbuf v < int (unat (num_bufs v) div 2)"
  shows "sbufs v + unat (buf_size v * u32_of_int (last_sbuf v)) = tx_slot v (nat (last_sbuf v))"
proof -
  have "nat (last_sbuf v) < 256"
    using assms unat_num_bufs_le [OF assms(1)] by (auto simp: tx_wf_def nat_less_iff)
  then have "unat (buf_size v * u32_of_int (last_sbuf v)) = 512 * nat (last_sbuf v)"
    using assms(1) unat_last_sbuf [OF assms(1)]
    by (simp add: tx_wf_def MAX_RPMSG_BUF_SIZE_def unat_word_ariths)
  then show ?thesis by (simp add: tx_slot_def)
qed

text \<open>What one call of the allocator does, in the terms of the pool.\<close>

lemma get_a_tx_buf_Some:
  assumes laws: "virtqueue_laws K queued cb_on" and wf: "tx_wf queued v"
    and get: "get_a_tx_buf K v = (Some a, v')"
  obtains (fresh) "a = tx_slot v (nat (last_sbuf v))" and "last_sbuf v < int (unat (num_bufs v) div 2)"
    and "v' = v\<lparr>last_sbuf := last_sbuf v + 1\<rparr>"
  | (recycled) q where "queued (svq v) = add_mset a (queued q)" and "v' = v\<lparr>svq := q\<rparr>"
    and "last_sbuf v = int (unat (num_bufs v) div 2)" and "cb_on q = cb_on (svq v)"
proof (cases "last_sbuf v < int (unat (num_bufs v) div 2)")
  case True
  then show thesis
    using fresh get fresh_slot_addr [OF wf True] fresh_slot_test [OF wf]
    by (auto simp: get_a_tx_buf_def)
next
  case False
  then have eq: "last_sbuf v = int (unat (num_bufs v) div 2)"
    using wf by (simp add: tx_wf_def)
  obtain r q where vq: "virtqueue_get_buf K (svq v) = (r, q)" by fastforce
  with False get obtain n where "r = Some (a, n)" and v': "v' = v\<lparr>svq := q\<rparr>"
    by (auto simp: get_a_tx_buf_def fresh_slot_test [OF wf])
  with vq have "virtqueue_get_buf K (svq v) = (Some (a, n), q)" by simp
  then show thesis
    using recycled v' eq virtqueue_get_buf_SomeD [OF laws] by metis
qed

lemma get_a_tx_buf_None:
  assumes laws: "virtqueue_laws K queued cb_on" and wf: "tx_wf queued v"
    and get: "get_a_tx_buf K v = (None, v')"
  obtains q where "v' = v\<lparr>svq := q\<rparr>" and "queued q = queued (svq v)" and "cb_on q = cb_on (svq v)"
    and "last_sbuf v = int (unat (num_bufs v) div 2)"
proof -
  have ge: "\<not> last_sbuf v < int (unat (num_bufs v) div 2)"
    using get by (auto simp: get_a_tx_buf_def fresh_slot_test [OF wf])
  then have eq: "last_sbuf v = int (unat (num_bufs v) div 2)"
    using wf by (simp add: tx_wf_def)
  obtain r q where vq: "virtqueue_get_buf K (svq v) = (r, q)" by fastforce
  with ge get have "r = None" and "v' = v\<lparr>svq := q\<rparr>"
    by (auto simp: get_a_tx_buf_def fresh_slot_test [OF wf])
  with vq show thesis
    using that eq virtqueue_get_buf_NoneD [OF laws] by metis
qed

lemma get_a_tx_buf_wf:
  assumes laws: "virtqueue_laws K queued cb_on" and wf: "tx_wf queued v"
    and get: "get_a_tx_buf K v = (r, v')"
  shows "tx_wf queued v'"
proof (cases r)
  case None
  with get have "get_a_tx_buf K v = (None, v')" by simp
  then show ?thesis
    by (rule get_a_tx_buf_None [OF laws wf]) (use wf in \<open>simp add: tx_wf_def\<close>)
next
  case (Some a)
  with get have got: "get_a_tx_buf K v = (Some a, v')" by simp
  show ?thesis
  proof (cases rule: get_a_tx_buf_Some [OF laws wf got])
    case 1
    with wf show ?thesis by (auto simp: tx_wf_def tx_issued_next)
  next
    case (2 q)
    with wf show ?thesis by (auto simp: tx_wf_def)
  qed
qed

lemma get_a_tx_buf_issued:
  assumes "virtqueue_laws K queued cb_on" and "tx_wf queued v"
    and "get_a_tx_buf K v = (Some a, v')"
  shows "a \<in> tx_issued v'"
  by (cases rule: get_a_tx_buf_Some [OF assms])
     (use assms(2) in \<open>auto simp: tx_wf_def tx_issued_next\<close>)

lemma get_a_tx_buf_frame:
  assumes "get_a_tx_buf K v = (r, v')"
  shows "sbufs v' = sbufs v" and "buf_size v' = buf_size v" and "num_bufs v' = num_bufs v"
    and "sleepers v' = sleepers v" and "rvq v' = rvq v" and "endpoints v' = endpoints v"
    and "rbufs v' = rbufs v" and "ns_ept v' = ns_ept v" and "has_feature v' = has_feature v"
    and "bufs_dma v' = bufs_dma v"
  using assms by (auto simp: get_a_tx_buf_def split: if_splits prod.splits)

lemma sleepers_upref [simp]:
  "sleepers (rpmsg_upref_sleepers K v) = sleepers v + 1"
  "sleepers (rpmsg_downref_sleepers K v) = sleepers v - 1"
  by (simp_all add: rpmsg_upref_sleepers_def rpmsg_downref_sleepers_def Let_def)

lemma sleepers_frame [simp]:
  "sbufs (rpmsg_upref_sleepers K v) = sbufs v" "sbufs (rpmsg_downref_sleepers K v) = sbufs v"
  "buf_size (rpmsg_upref_sleepers K v) = buf_size v" "buf_size (rpmsg_downref_sleepers K v) = buf_size v"
  "num_bufs (rpmsg_upref_sleepers K v) = num_bufs v" "num_bufs (rpmsg_downref_sleepers K v) = num_bufs v"
  "last_sbuf (rpmsg_upref_sleepers K v) = last_sbuf v" "last_sbuf (rpmsg_downref_sleepers K v) = last_sbuf v"
  "tx_issued (rpmsg_upref_sleepers K v) = tx_issued v" "tx_issued (rpmsg_downref_sleepers K v) = tx_issued v"
  by (simp_all add: rpmsg_upref_sleepers_def rpmsg_downref_sleepers_def Let_def)

lemma sleepers_queued:
  assumes "virtqueue_laws K queued cb_on"
  shows "queued (svq (rpmsg_upref_sleepers K v)) = queued (svq v)"
    and "queued (svq (rpmsg_downref_sleepers K v)) = queued (svq v)"
  using virtqueue_signals [OF assms]
  by (simp_all add: rpmsg_upref_sleepers_def rpmsg_downref_sleepers_def Let_def)

lemma sleepers_cb_on:
  assumes "virtqueue_laws K queued cb_on"
  shows "cb_on (svq (rpmsg_upref_sleepers K v)) = (sleepers v = 0 \<or> cb_on (svq v))"
    and "cb_on (svq (rpmsg_downref_sleepers K v)) = (sleepers v \<noteq> 1 \<and> cb_on (svq v))"
  using virtqueue_signals [OF assms]
  by (simp_all add: rpmsg_upref_sleepers_def rpmsg_downref_sleepers_def Let_def)

lemma sleepers_wf:
  assumes "virtqueue_laws K queued cb_on"
  shows "tx_wf queued (rpmsg_upref_sleepers K v) = tx_wf queued v"
    and "tx_wf queued (rpmsg_downref_sleepers K v) = tx_wf queued v"
  by (simp_all add: tx_wf_def sleepers_queued [OF assms])

section \<open>What a send does\<close>

lemma msg_too_big_iff:
  assumes "is_c_int len" and "buf_size v = MAX_RPMSG_BUF_SIZE"
  shows "ucast (buf_size v) - of_nat sizeof_rpmsg_hdr < size_t_of_int len \<longleftrightarrow> len < 0 \<or> 496 < len"
proof -
  have lhs: "ucast (buf_size v) - of_nat sizeof_rpmsg_hdr = (496 :: u64)"
    using assms(2) by (simp add: MAX_RPMSG_BUF_SIZE_def sizeofs)
  have "uint (size_t_of_int len) = (if len < 0 then len + 2 ^ 64 else len)"
    using assms(1) uint_size_t_negative [OF assms(1)]
    by (auto simp: uint_size_t_of_int is_c_int_def)
  then show ?thesis
    unfolding lhs using assms(1) by (auto simp: word_less_def is_c_int_def)
qed

text \<open>Everything a send writes lies in the buffer it was given.\<close>

lemma write_tx_msg_apart:
  assumes "x < a \<or> a + 512 \<le> x" and "0 \<le> len" and "len \<le> 496"
  shows "write_tx_msg src dst data len a m x = m x"
  using assms unfolding write_tx_msg_def
  by (subst store_apart; (subst store_apart)?)
     (auto simp: sizeofs unat_size_t_of_int hdr.enc_size)

lemma write_tx_msg_hdr:
  "hdr_load (write_tx_msg src dst data len a m) a =
     \<lparr>hdr_src = src, hdr_dst = dst, hdr_reserved = 0, hdr_len = word_of_int len, hdr_flags = 0\<rparr>"
  unfolding write_tx_msg_def by (subst hdr.ld_store_apart) (simp_all add: hdr.ld_store)

lemma write_tx_msg_payload:
  "0 \<le> len \<Longrightarrow> len < 2 ^ 64 \<Longrightarrow>
   load (write_tx_msg src dst data len a m) (a + sizeof_rpmsg_hdr) (nat len) = load data 0 (nat len)"
  by (simp add: write_tx_msg_def unat_size_t_of_int load_store_same')

lemma send_tx_buf_mem:
  "send_tx_buf K src dst data len a s = (err, s') \<Longrightarrow>
   mem s' = write_tx_msg src dst data len a (mem s)"
  by (auto simp: send_tx_buf_def Let_def split: prod.splits if_splits)

lemma send_tx_buf_vrp:
  assumes laws: "virtqueue_laws K queued cb_on"
    and send: "send_tx_buf K src dst data len a s = (err, s')" and v: "vrp s = v"
  obtains q where "vrp s' = v\<lparr>svq := q\<rparr>" and "cb_on q = cb_on (svq v)" and "err \<le> 0"
    and "queued q = (if err = 0 then add_mset a (queued (svq v)) else queued (svq v))"
proof -
  obtain e q where add: "virtqueue_add_outbuf K (svq v)
      (rpmsg_sg_init K a (ucast (of_nat sizeof_rpmsg_hdr + size_t_of_int len))) a = (e, q)"
    by fastforce
  note add' = virtqueue_add_outbufD [OF laws add]
  show thesis
    using send add add' virtqueue_signals [OF laws, of q]
    by (intro that [of "if e = 0 then virtqueue_kick K q else q"])
       (auto simp: send_tx_buf_def Let_def v split: if_splits)
qed

lemma send_tx_buf_frame:
  "epts (snd (send_tx_buf K src dst data len a s)) = epts s"
  "rpdevs (snd (send_tx_buf K src dst data len a s)) = rpdevs s"
  "rpmsg_bus.more (snd (send_tx_buf K src dst data len a s)) = rpmsg_bus.more s"
  by (auto simp: send_tx_buf_def Let_def split: prod.splits)

subsection \<open>The wait\<close>

text \<open>What the other contexts do while a sender sleeps keeps the pool in order.\<close>

definition pool_change :: "('q \<Rightarrow> addr multiset) \<Rightarrow>
    (('q, 'i) virtproc_info \<Rightarrow> ('q, 'i) virtproc_info) \<Rightarrow> bool" where
  "pool_change queued f \<longleftrightarrow> (\<forall>v. tx_wf queued v \<longrightarrow> tx_wf queued (f v) \<and>
     sbufs (f v) = sbufs v \<and> num_bufs (f v) = num_bufs v \<and> sleepers (f v) = sleepers v)"

definition waits_ok :: "('q \<Rightarrow> addr multiset) \<Rightarrow> (nat \<Rightarrow> ('q, 'i) wait_script) \<Rightarrow> bool" where
  "waits_ok queued waits \<longleftrightarrow> (\<forall>i. \<forall>f \<in> set (fst (waits i)). pool_change queued f)"

definition same_pool :: "('q, 'i) virtproc_info \<Rightarrow> ('q, 'i) virtproc_info \<Rightarrow> bool" where
  "same_pool v v' \<longleftrightarrow> sbufs v' = sbufs v \<and> num_bufs v' = num_bufs v"

lemma same_pool_refl [simp]: "same_pool v v"
  by (simp add: same_pool_def)

lemma same_pool_trans: "same_pool u v \<Longrightarrow> same_pool v w \<Longrightarrow> same_pool u w"
  by (simp add: same_pool_def)

lemma same_pool_slot: "same_pool v v' \<Longrightarrow> tx_slot v' = tx_slot v"
  by (simp add: same_pool_def tx_slot_def fun_eq_iff)

lemma wait_event_pool:
  assumes laws: "virtqueue_laws K queued cb_on" and "tx_wf queued v"
    and "\<forall>f \<in> set fs. pool_change queued f" and "wait_tx_buf_event K fs e v = (err, m, v')"
  shows "tx_wf queued v' \<and> same_pool v v' \<and> sleepers v' = sleepers v \<and>
    (\<forall>a. m = Some a \<longrightarrow> a \<in> tx_issued v') \<and> (m \<noteq> None \<longrightarrow> err \<noteq> 0) \<and>
    (m = None \<longrightarrow> err = (case e of Timed_out \<Rightarrow> 0 | Signal_pending \<Rightarrow> - ERESTARTSYS))"
  using assms(2-4)
proof (induction fs arbitrary: v)
  case Nil
  then show ?case
    using get_a_tx_buf_wf [OF laws] get_a_tx_buf_issued [OF laws] get_a_tx_buf_frame
    by (auto simp: same_pool_def split: prod.splits option.splits)
next
  case (Cons f fs)
  obtain r u where get: "get_a_tx_buf K v = (r, u)" by fastforce
  have wf: "tx_wf queued u" by (rule get_a_tx_buf_wf [OF laws Cons.prems(1) get])
  have frame: "same_pool v u" "sleepers u = sleepers v"
    using get_a_tx_buf_frame [OF get] by (simp_all add: same_pool_def)
  show ?case
  proof (cases r)
    case None
    with get Cons.prems(3) have ev: "wait_tx_buf_event K fs e (f u) = (err, m, v')" by simp
    have f: "tx_wf queued (f u)" "same_pool u (f u)" "sleepers (f u) = sleepers u"
      using Cons.prems(2) wf by (auto simp: pool_change_def same_pool_def)
    show ?thesis
      using Cons.IH [OF f(1) _ ev] Cons.prems(2) f frame by (auto intro: same_pool_trans)
  next
    case (Some a)
    then show ?thesis
      using get Cons.prems(3) wf frame get_a_tx_buf_issued [OF laws Cons.prems(1), of a u] by auto
  qed
qed

lemma wait_for_tx_buf_pool:
  assumes laws: "virtqueue_laws K queued cb_on" and wf: "tx_wf queued v"
    and waits: "waits_ok queued waits" and ret: "wait_for_tx_buf K waits i v = Some (m, v')"
  shows "tx_wf queued v' \<and> same_pool v v' \<and> sleepers v' = sleepers v \<and>
    (\<forall>a. m = Some a \<longrightarrow> a \<in> tx_issued v')"
proof -
  let ?P = "\<lambda>K waits i v r. virtqueue_laws K queued cb_on \<longrightarrow> tx_wf queued v \<longrightarrow> waits_ok queued waits \<longrightarrow>
    tx_wf queued (snd r) \<and> same_pool v (snd r) \<and> sleepers (snd r) = sleepers v \<and>
    (\<forall>a. fst r = Some a \<longrightarrow> a \<in> tx_issued (snd r))"
  have "?P K waits i v (m, v')"
  proof (rule wait_for_tx_buf.raw_induct [where P = ?P, OF _ ret])
    fix f K waits i v r
    assume IH: "\<And>K waits i v r. f K waits i v = Some r \<Longrightarrow> ?P K waits i v r"
      and eq: "(case wait_tx_buf_event K (fst (waits i)) (snd (waits i)) (rpmsg_upref_sleepers K v) of
        (err, m, v2) \<Rightarrow>
          if err = 0 then Some (None, rpmsg_downref_sleepers K v2)
          else if m \<noteq> None then Some (m, rpmsg_downref_sleepers K v2)
          else f K waits (Suc i) (rpmsg_downref_sleepers K v2)) = Some r"
    show "?P K waits i v r"
    proof (intro impI)
      assume laws: "virtqueue_laws K queued cb_on" and wf: "tx_wf queued v" and waits: "waits_ok queued waits"
      obtain err m v2 where ev: "wait_tx_buf_event K (fst (waits i)) (snd (waits i))
          (rpmsg_upref_sleepers K v) = (err, m, v2)" by (metis prod_cases3)
      have wf1: "tx_wf queued (rpmsg_upref_sleepers K v)"
        using wf by (simp add: sleepers_wf [OF laws])
      have fs: "\<forall>f \<in> set (fst (waits i)). pool_change queued f"
        using waits by (simp add: waits_ok_def)
      let ?w = "rpmsg_downref_sleepers K v2"
      have w: "tx_wf queued ?w" "same_pool v ?w" "sleepers ?w = sleepers v"
        "\<forall>a. m = Some a \<longrightarrow> a \<in> tx_issued ?w" "m \<noteq> None \<longrightarrow> err \<noteq> 0"
        using wait_event_pool [OF laws wf1 fs ev] sleepers_wf [OF laws, of v2]
        by (auto simp: same_pool_def)
      show "tx_wf queued (snd r) \<and> same_pool v (snd r) \<and> sleepers (snd r) = sleepers v \<and>
        (\<forall>a. fst r = Some a \<longrightarrow> a \<in> tx_issued (snd r))"
      proof (cases "err = 0 \<or> m \<noteq> None")
        case True
        with eq ev w show ?thesis by (auto split: if_splits)
      next
        case False
        with eq ev have "f K waits (Suc i) ?w = Some r" by simp
        from IH [OF this] laws waits w show ?thesis by (auto intro: same_pool_trans)
      qed
    qed
  qed
  with assms show ?thesis by simp
qed

text \<open>A sleep that is allowed to time out ends the loop, with or without a buffer.\<close>

lemma wait_event_timeout:
  "wait_tx_buf_event K fs Timed_out v = (err, m, v') \<Longrightarrow> err = 0 \<or> m \<noteq> None"
  by (induction fs arbitrary: v) (auto split: prod.splits option.splits)

lemma wait_for_tx_buf_returns:
  assumes "snd (waits k) = Timed_out" and "i \<le> k"
  shows "\<exists>r. wait_for_tx_buf K waits i v = Some r"
  using assms(2)
proof (induction "k - i" arbitrary: i v)
  case 0
  then have "i = k" by simp
  then show ?case
    using assms(1) by (subst wait_for_tx_buf.simps)
      (auto dest: wait_event_timeout split: prod.splits)
next
  case (Suc n)
  then have "n = k - Suc i" and "Suc i \<le> k" by arith+
  then have "\<exists>r. wait_for_tx_buf K waits (Suc i) w = Some r" for w
    by (rule Suc.hyps(1))
  then show ?case
    by (subst wait_for_tx_buf.simps) (auto split: prod.splits)
qed

text \<open>
  With a signal pending every sleep returns at once, the condition still false; the loop
  tests only for the timeout, so it goes round for as long as no buffer comes back.
\<close>

lemma wait_for_tx_buf_spins:
  assumes "\<And>q. virtqueue_get_buf K q = (None, q)" and "\<And>i. waits i = ([], Signal_pending)"
    and "\<not> u32_of_int (last_sbuf v) < num_bufs v div 2"
  shows "wait_for_tx_buf K waits i v = None"
proof (rule ccontr)
  let ?P = "\<lambda>K waits i v r. \<not> ((\<forall>q. virtqueue_get_buf K q = (None, q)) \<and>
    (\<forall>i. waits i = ([], Signal_pending)) \<and> \<not> u32_of_int (last_sbuf v) < num_bufs v div 2)"
  assume "wait_for_tx_buf K waits i v \<noteq> None"
  then obtain r where ret: "wait_for_tx_buf K waits i v = Some r" by blast
  have "?P K waits i v r"
  proof (rule wait_for_tx_buf.raw_induct [where P = ?P, OF _ ret], rule notI)
    fix f K waits i v r
    assume IH: "\<And>K waits i v r. f K waits i v = Some r \<Longrightarrow> ?P K waits i v r"
      and eq: "(case wait_tx_buf_event K (fst (waits i)) (snd (waits i)) (rpmsg_upref_sleepers K v) of
        (err, m, v2) \<Rightarrow>
          if err = 0 then Some (None, rpmsg_downref_sleepers K v2)
          else if m \<noteq> None then Some (m, rpmsg_downref_sleepers K v2)
          else f K waits (Suc i) (rpmsg_downref_sleepers K v2)) = Some r"
      and stuck: "(\<forall>q. virtqueue_get_buf K q = (None, q)) \<and>
        (\<forall>i. waits i = ([], Signal_pending)) \<and> \<not> u32_of_int (last_sbuf v) < num_bufs v div 2"
    let ?u = "rpmsg_upref_sleepers K v"
    have "get_a_tx_buf K ?u = (None, ?u)"
      using stuck by (simp add: get_a_tx_buf_def)
    then have "f K waits (Suc i) (rpmsg_downref_sleepers K ?u) = Some r"
      using eq stuck by simp
    from IH [OF this] stuck show False by simp
  qed
  with assms show False by blast
qed

lemma send_raw_cases:
  assumes laws: "virtqueue_laws K queued cb_on" and wf: "tx_wf queued (vrp s)"
    and waits: "waits_ok queued waits" and len: "is_c_int len"
    and ret: "rpmsg_send_offchannel_raw K waits r src dst data len w s = Returns (err, s')"
  obtains (rejected) "s' = s" and "err = - EINVAL \<or> err = - EMSGSIZE"
  | (no_buffer) v where "s' = s\<lparr>vrp := v\<rparr>" and "err = (if w then - ERESTARTSYS else - ENOMEM)"
      and "tx_wf queued v" and "same_pool (vrp s) v" and "sleepers v = sleepers (vrp s)"
  | (sent) v a where "(err, s') = send_tx_buf K src dst data len a (s\<lparr>vrp := v\<rparr>)"
      and "a \<in> tx_issued v" and "tx_wf queued v" and "same_pool (vrp s) v"
      and "sleepers v = sleepers (vrp s)" and "0 \<le> len" and "len \<le> 496"
      and "src \<noteq> RPMSG_ADDR_ANY" and "dst \<noteq> RPMSG_ADDR_ANY"
proof (cases "src = RPMSG_ADDR_ANY \<or> dst = RPMSG_ADDR_ANY \<or> len < 0 \<or> 496 < len")
  case True
  then show thesis
    using ret rejected wf msg_too_big_iff [OF len, of "vrp s"]
    by (auto simp: rpmsg_send_offchannel_raw_def tx_wf_def split: if_splits)
next
  case False
  have fits: "\<not> ucast (buf_size (vrp s)) - of_nat sizeof_rpmsg_hdr < size_t_of_int len"
    using False wf msg_too_big_iff [OF len, of "vrp s"] by (simp add: tx_wf_def)
  obtain m v where get: "get_a_tx_buf K (vrp s) = (m, v)" by fastforce
  note v = get_a_tx_buf_wf [OF laws wf get] get_a_tx_buf_frame [OF get]
  show thesis
  proof (cases m)
    case (Some a)
    with ret get fits False have "send_tx_buf K src dst data len a (s\<lparr>vrp := v\<rparr>) = (err, s')"
      by (simp add: rpmsg_send_offchannel_raw_def)
    then show thesis
      using sent [of a v] get_a_tx_buf_issued [OF laws wf, of a v] get Some v False
      by (simp add: same_pool_def)
  next
    case None
    show thesis
    proof (cases w)
      case False
      with ret get fits None \<open>\<not> (src = _ \<or> _)\<close> show thesis
        using no_buffer [of v] v by (simp add: rpmsg_send_offchannel_raw_def same_pool_def)
    next
      case True
      with ret get fits None \<open>\<not> (src = _ \<or> _)\<close> obtain m' v'
        where wt: "wait_for_tx_buf K waits 0 v = Some (m', v')"
        by (auto simp: rpmsg_send_offchannel_raw_def split: option.splits)
      note v' = wait_for_tx_buf_pool [OF laws v(1) waits wt]
      have pool: "same_pool (vrp s) v'" "sleepers v' = sleepers (vrp s)"
        using v v' by (auto simp: same_pool_def)
      show thesis
      proof (cases m')
        case None
        with wt get fits \<open>m = None\<close> True ret \<open>\<not> (src = _ \<or> _)\<close> show thesis
          using no_buffer [of v'] v' pool by (simp add: rpmsg_send_offchannel_raw_def)
      next
        case (Some a)
        with wt get fits \<open>m = None\<close> True ret \<open>\<not> (src = _ \<or> _)\<close>
        have "send_tx_buf K src dst data len a (s\<lparr>vrp := v'\<rparr>) = (err, s')"
          by (simp add: rpmsg_send_offchannel_raw_def)
        then show thesis
          using sent [of a v'] v' pool Some \<open>\<not> (src = _ \<or> _)\<close> by simp
      qed
    qed
  qed
qed

text \<open>
  A send touches no endpoint and no device, and when nobody else runs while it sleeps not
  the address table either.
\<close>

lemma send_raw_objects:
  assumes "rpmsg_send_offchannel_raw K waits r src dst data len w s = Returns (err, s')"
  shows "epts s' = epts s" and "rpdevs s' = rpdevs s" and "rpmsg_bus.more s' = rpmsg_bus.more s"
proof -
  have s: "epts t = epts s \<and> rpdevs t = rpdevs s \<and> rpmsg_bus.more t = rpmsg_bus.more s"
    if "send_tx_buf K src dst data len a (s\<lparr>vrp := v\<rparr>) = (e, t)" for a v e t
    using send_tx_buf_frame [of K src dst data len a "s\<lparr>vrp := v\<rparr>"] that by simp
  have "epts s' = epts s \<and> rpdevs s' = rpdevs s \<and> rpmsg_bus.more s' = rpmsg_bus.more s"
    using assms s by (auto simp: rpmsg_send_offchannel_raw_def split: if_splits prod.splits option.splits)
  then show "epts s' = epts s" and "rpdevs s' = rpdevs s" and "rpmsg_bus.more s' = rpmsg_bus.more s"
    by simp_all
qed

definition waits_alone :: "(nat \<Rightarrow> ('q, 'i) wait_script) \<Rightarrow> bool" where
  "waits_alone waits \<longleftrightarrow> (\<forall>i. fst (waits i) = [])"

lemma endpoints_sleepers [simp]:
  "endpoints (rpmsg_upref_sleepers K v) = endpoints v" "endpoints (rpmsg_downref_sleepers K v) = endpoints v"
  by (simp_all add: rpmsg_upref_sleepers_def rpmsg_downref_sleepers_def Let_def)

lemma wait_for_tx_buf_endpoints:
  assumes "waits_alone waits" and "wait_for_tx_buf K waits i v = Some r"
  shows "endpoints (snd r) = endpoints v"
proof -
  have "waits_alone waits \<longrightarrow> endpoints (snd r) = endpoints v"
  proof (rule wait_for_tx_buf.raw_induct
      [where P = "\<lambda>K waits i v r. waits_alone waits \<longrightarrow> endpoints (snd r) = endpoints v", OF _ assms(2)], rule impI)
    fix f K waits i v r
    assume IH: "\<And>K waits i v r. f K waits i v = Some r \<Longrightarrow> waits_alone waits \<longrightarrow> endpoints (snd r) = endpoints v"
      and eq: "(case wait_tx_buf_event K (fst (waits i)) (snd (waits i)) (rpmsg_upref_sleepers K v) of
        (err, m, v2) \<Rightarrow>
          if err = 0 then Some (None, rpmsg_downref_sleepers K v2)
          else if m \<noteq> None then Some (m, rpmsg_downref_sleepers K v2)
          else f K waits (Suc i) (rpmsg_downref_sleepers K v2)) = Some r"
      and alone: "waits_alone waits"
    obtain err m v2 where ev: "wait_tx_buf_event K [] (snd (waits i)) (rpmsg_upref_sleepers K v) = (err, m, v2)"
      by (metis prod_cases3)
    obtain m' v1 where get: "get_a_tx_buf K (rpmsg_upref_sleepers K v) = (m', v1)" by fastforce
    from ev get have "v2 = v1" by (simp split: option.splits)
    with get_a_tx_buf_frame(6) [OF get] have e: "endpoints v2 = endpoints v" by simp
    have fst: "fst (waits i) = []" using alone by (simp add: waits_alone_def)
    show "endpoints (snd r) = endpoints v"
    proof (cases "err = 0 \<or> m \<noteq> None")
      case True
      with eq ev e show ?thesis unfolding fst by (auto split: if_splits)
    next
      case False
      with eq ev have "f K waits (Suc i) (rpmsg_downref_sleepers K v2) = Some r" unfolding fst by simp
      from IH [OF this] alone e show ?thesis by simp
    qed
  qed
  with assms(1) show ?thesis by simp
qed

lemma send_tx_buf_endpoints: "endpoints (vrp (snd (send_tx_buf K src dst data len a s))) = endpoints (vrp s)"
  by (auto simp: send_tx_buf_def Let_def split: prod.splits)

lemma send_raw_endpoints:
  assumes "waits_alone waits" and "rpmsg_send_offchannel_raw K waits r src dst data len w s = Returns (err, s')"
  shows "endpoints (vrp s') = endpoints (vrp s)"
proof -
  obtain m v where get: "get_a_tx_buf K (vrp s) = (m, v)" by fastforce
  note e = get_a_tx_buf_frame(6) [OF get]
  have s: "endpoints (vrp t) = endpoints u"
    if "send_tx_buf K src dst data len a (s\<lparr>vrp := u\<rparr>) = (x, t)" for a u x t
    using send_tx_buf_endpoints [of K src dst data len a "s\<lparr>vrp := u\<rparr>"] that by simp
  have wt: "endpoints u = endpoints v" if "wait_for_tx_buf K waits 0 v = Some (m', u)" for m' u
    using wait_for_tx_buf_endpoints [OF assms(1) that] by simp
  show ?thesis
    using assms(2) get e s wt
    by (auto simp: rpmsg_send_offchannel_raw_def split: if_splits option.splits)
qed

section \<open>Properties\<close>

text \<open>
  C6. A send never writes outside one transmit slot: whatever the outcome, the pool is
  in order afterwards, the number of sleepers is what it was, and some slot of the
  transmit half holds every byte of memory that changed.
\<close>

theorem send_confined:
  assumes "virtqueue_laws K queued cb_on" and "tx_wf queued (vrp s)"
    and "waits_ok queued waits" and "is_c_int len"
    and "rpmsg_send_offchannel_raw K waits r src dst data len w s = Returns (err, s')"
  shows "tx_wf queued (vrp s') \<and> sleepers (vrp s') = sleepers (vrp s) \<and>
    (mem s' = mem s \<or> (\<exists>k < unat (num_bufs (vrp s)) div 2.
      \<forall>x. x < tx_slot (vrp s) k \<or> tx_slot (vrp s) k + 512 \<le> x \<longrightarrow> mem s' x = mem s x))"
proof (cases rule: send_raw_cases [OF assms])
  case 1
  with assms(2) show ?thesis by simp
next
  case (2 v)
  then show ?thesis by simp
next
  case (3 v a)
  let ?s = "s\<lparr>vrp := v\<rparr>"
  obtain q where q: "vrp s' = v\<lparr>svq := q\<rparr>"
    "queued q = (if err = 0 then add_mset a (queued (svq v)) else queued (svq v))"
    by (rule send_tx_buf_vrp [OF assms(1) 3(1) [symmetric], of v], simp, rule that)
  obtain k where k: "a = tx_slot (vrp s) k" "k < nat (last_sbuf v)"
    using 3(2) same_pool_slot [OF 3(4)] by (auto simp: tx_issued_def)
  have "k < unat (num_bufs (vrp s)) div 2"
    using k(2) 3(3,4) by (auto simp: tx_wf_def same_pool_def zless_nat_eq_int_zless)
  moreover have "mem s' = write_tx_msg src dst data len a (mem s)"
    using send_tx_buf_mem [OF 3(1) [symmetric]] by simp
  then have "\<forall>x. x < a \<or> a + 512 \<le> x \<longrightarrow> mem s' x = mem s x"
    using write_tx_msg_apart [OF _ 3(6,7)] by simp
  moreover have "tx_wf queued (vrp s')"
    using q 3(2,3) by (simp add: tx_wf_def)
  moreover have "sleepers (vrp s') = sleepers (vrp s)"
    using q(1) 3(5) by simp
  ultimately show ?thesis
    unfolding k(1) by blast
qed

lemma sim_first_tx_buf: "get_a_tx_buf sim_kernel sim_vrp = (Some 6144, sim_vrp\<lparr>last_sbuf := 1\<rparr>)"
  by (simp add: get_a_tx_buf_def sim_state u32_of_int_def)

lemma sim_tx_wf: "tx_wf sim_queued sim_vrp"
  by (simp add: tx_wf_def sim_state sim_queued_def rpmsg_consts)

lemma sim_waits_ok: "waits_ok sim_queued (\<lambda>i. ([], Timed_out))"
  by (simp add: waits_ok_def)

lemma sim_send:
  "rpmsg_send_offchannel_raw sim_kernel waits sim_rpdev 1024 53 data 4 w sim_bus =
     Returns (send_tx_buf sim_kernel 1024 53 data 4 6144 (sim_bus\<lparr>vrp := sim_vrp\<lparr>last_sbuf := 1\<rparr>\<rparr>))"
proof -
  have "rp_container sim_rpdev = Virtio_rpmsg_channel" by (simp add: sim_state)
  then show ?thesis
    using sim_first_tx_buf msg_too_big_iff [of 4 sim_vrp]
    by (simp add: rpmsg_send_offchannel_raw_def sim_bus_def is_c_int_def rpmsg_consts)
      (simp add: sim_vrp_def)
qed

theorem send_confined_witness:
  "\<exists>err s'. rpmsg_send_offchannel_raw sim_kernel (\<lambda>i. ([], Timed_out)) sim_rpdev 1024 53
      (bytes_of [1, 2, 3, 4]) 4 True sim_bus = Returns (err, s') \<and>
    tx_wf sim_queued (vrp s') \<and> sleepers (vrp s') = 0"
proof -
  obtain err s' where ret: "rpmsg_send_offchannel_raw sim_kernel (\<lambda>i. ([], Timed_out)) sim_rpdev 1024 53
      (bytes_of [1, 2, 3, 4]) 4 True sim_bus = Returns (err, s')"
    unfolding sim_send by fastforce
  have "tx_wf sim_queued (vrp sim_bus)" by (simp add: sim_bus_def sim_tx_wf)
  from send_confined [OF sim_virtqueue_laws this sim_waits_ok _ ret] ret show ?thesis
    by (auto simp: is_c_int_def sim_bus_def sim_vrp_def)
qed

lemma send_raw_queues:
  assumes "virtqueue_laws K queued cb_on" and "tx_wf queued (vrp s)"
    and "waits_ok queued waits" and "is_c_int len"
    and "rpmsg_send_offchannel_raw K waits r src dst data len w s = Returns (0, s')"
  shows "0 \<le> len \<and> len \<le> 496 \<and>
    (\<exists>a \<in> tx_issued (vrp s'). a \<in># queued (svq (vrp s')) \<and>
       hdr_src (hdr_load (mem s') a) = src \<and> hdr_dst (hdr_load (mem s') a) = dst \<and>
       hdr_flags (hdr_load (mem s') a) = 0 \<and> unat (hdr_len (hdr_load (mem s') a)) = nat len \<and>
       load (mem s') (a + sizeof_rpmsg_hdr) (nat len) = load data 0 (nat len))"
proof (cases rule: send_raw_cases [OF assms])
  case 1
  then show ?thesis by auto
next
  case (2 v)
  then show ?thesis by (simp split: if_splits)
next
  case (3 v a)
  note mem = send_tx_buf_mem [OF 3(1) [symmetric]]
  obtain q where q: "vrp s' = v\<lparr>svq := q\<rparr>" "queued q = add_mset a (queued (svq v))"
    by (rule send_tx_buf_vrp [OF assms(1) 3(1) [symmetric], of v], simp, rule that) simp_all
  have "unat (word_of_int len :: u16) = nat len"
    using 3(6,7) by (simp add: unat_eq_nat_uint uint_word_of_int)
  moreover have "load (mem s') (a + sizeof_rpmsg_hdr) (nat len) = load data 0 (nat len)"
    unfolding mem by (rule write_tx_msg_payload) (use 3(6,7) in simp_all)
  moreover have "hdr_load (mem s') a =
      \<lparr>hdr_src = src, hdr_dst = dst, hdr_reserved = 0, hdr_len = word_of_int len, hdr_flags = 0\<rparr>"
    unfolding mem by (rule write_tx_msg_hdr)
  moreover have "a \<in> tx_issued (vrp s')" and "a \<in># queued (svq (vrp s'))"
    using q 3(2) by simp_all
  ultimately show ?thesis
    using 3(6,7) by (intro conjI bexI [of _ a]) simp_all
qed

text \<open>
  C1. A send that returns 0 has put one transmit slot on the queue of the remote
  processor, and that slot holds the message: a header with the given addresses, no flags
  and the length of the payload, and behind it the payload.
\<close>

theorem send_delivers:
  assumes "virtqueue_laws K queued cb_on" and "tx_wf queued (vrp s)"
    and "waits_ok queued waits" and "is_c_int len"
    and "rpmsg_send_offchannel_raw K waits r src dst data len w s = Returns (0, s')"
  shows "0 \<le> len \<and> len \<le> 496 \<and>
    (\<exists>a \<in> tx_issued (vrp s'). a \<in># queued (svq (vrp s')) \<and>
       hdr_src (hdr_load (mem s') a) = src \<and> hdr_dst (hdr_load (mem s') a) = dst \<and>
       hdr_flags (hdr_load (mem s') a) = 0 \<and> unat (hdr_len (hdr_load (mem s') a)) = nat len \<and>
       load (mem s') (a + sizeof_rpmsg_hdr) (nat len) = load data 0 (nat len))"
  by (rule send_raw_queues [OF assms])

lemma sim_send_ok:
  "\<exists>s'. rpmsg_send_offchannel_raw sim_kernel waits sim_rpdev 1024 53 data 4 w sim_bus = Returns (0, s')"
  unfolding sim_send
  by (simp add: send_tx_buf_def sim_bus_def sim_vrp_def sim_kernel_def sim_add_buf_def sim_queue_def Let_def)

theorem send_delivers_witness:
  "\<exists>s' a. rpmsg_send_offchannel_raw sim_kernel (\<lambda>i. ([], Timed_out)) sim_rpdev 1024 53
      (bytes_of [1, 2, 3, 4]) 4 True sim_bus = Returns (0, s') \<and>
    a \<in># sim_queued (svq (vrp s')) \<and> load (mem s') (a + 16) 4 = [1, 2, 3, 4]"
proof -
  obtain s' where ret: "rpmsg_send_offchannel_raw sim_kernel (\<lambda>i. ([], Timed_out)) sim_rpdev 1024 53
      (bytes_of [1, 2, 3, 4]) 4 True sim_bus = Returns (0, s')"
    using sim_send_ok by blast
  have wf: "tx_wf sim_queued (vrp sim_bus)" by (simp add: sim_bus_def sim_tx_wf)
  have "load (bytes_of [1, 2, 3, 4]) 0 4 = [1, 2, 3, 4]"
    by (simp add: load_def bytes_of_def upt_rec)
  with send_delivers [OF sim_virtqueue_laws wf sim_waits_ok _ ret] ret show ?thesis
    by (auto simp: is_c_int_def sizeofs)
qed

text \<open>
  The refusals, in the order of the code: a broadcast address is \<open>-EINVAL\<close> whatever
  the length; then a length outside 0 to 496, negative lengths included, is
  \<open>-EMSGSIZE\<close>; in both cases nothing has changed. A sender that does not want to wait and
  finds no buffer gets \<open>-ENOMEM\<close>.
\<close>

lemma send_refusals:
  assumes "rp_container r = Virtio_rpmsg_channel" and "buf_size (vrp s) = MAX_RPMSG_BUF_SIZE"
    and "is_c_int len"
  shows "(src = RPMSG_ADDR_ANY \<or> dst = RPMSG_ADDR_ANY \<longrightarrow>
      rpmsg_send_offchannel_raw K waits r src dst data len w s = Returns (- EINVAL, s)) \<and>
    (src \<noteq> RPMSG_ADDR_ANY \<and> dst \<noteq> RPMSG_ADDR_ANY \<and> (len < 0 \<or> 496 < len) \<longrightarrow>
      rpmsg_send_offchannel_raw K waits r src dst data len w s = Returns (- EMSGSIZE, s)) \<and>
    (src \<noteq> RPMSG_ADDR_ANY \<and> dst \<noteq> RPMSG_ADDR_ANY \<and> 0 \<le> len \<and> len \<le> 496 \<and>
       fst (get_a_tx_buf K (vrp s)) = None \<longrightarrow>
      rpmsg_send_offchannel_raw K waits r src dst data len False s =
        Returns (- ENOMEM, s\<lparr>vrp := snd (get_a_tx_buf K (vrp s))\<rparr>))"
proof -
  show ?thesis
    using msg_too_big_iff [OF assms(3,2)] assms(1)
    by (auto simp: rpmsg_send_offchannel_raw_def split: prod.splits option.splits)
qed

lemma send_refusals_witness:
  "rpmsg_send_offchannel_raw sim_kernel (\<lambda>i. ([], Timed_out)) sim_rpdev 1024 53 (bytes_of []) (- 1) True sim_bus =
     Returns (- EMSGSIZE, sim_bus)"
  using send_refusals [of sim_rpdev sim_bus "- 1" 1024 53 sim_kernel "\<lambda>i. ([], Timed_out)" "bytes_of []" True]
  by (simp add: sim_state rpmsg_consts is_c_int_def)

text \<open>
  C21. A send on a channel always returns when some sleep of its wait loop is allowed to
  time out: it never touches foreign memory and does not wait for ever.
\<close>

theorem send_returns:
  assumes "rp_container r = Virtio_rpmsg_channel" and "snd (waits k) = Timed_out"
  shows "\<exists>err s'. rpmsg_send_offchannel_raw K waits r src dst data len w s = Returns (err, s')"
proof -
  have pair: "\<exists>err s'. Returns x = Returns (err, s')" for x :: "'e \<times> 't"
    by (cases x) simp
  obtain m v where "get_a_tx_buf K (vrp s) = (m, v)" by fastforce
  moreover obtain m' v' where "wait_for_tx_buf K waits 0 v = Some (m', v')"
    using wait_for_tx_buf_returns [of waits k 0 K v] assms(2) by auto
  ultimately show ?thesis
    using assms(1) by (cases m; cases m') (simp_all add: rpmsg_send_offchannel_raw_def pair)
qed

theorem send_returns_witness:
  "\<exists>err s'. rpmsg_send_offchannel_raw sim_kernel
      (\<lambda>i. ([], if i < 3 then Signal_pending else Timed_out)) sim_rpdev 1024 53 (bytes_of []) 0 True
      (sim_bus\<lparr>vrp := sim_vrp\<lparr>last_sbuf := 4\<rparr>\<rparr>) = Returns (err, s')"
  by (rule send_returns [where k = 3]) (simp_all add: sim_state)

text \<open>
  C32. The bound of 15 seconds does not hold for a sender with a signal pending: when the
  remote processor gives no buffer back, every sleep ends at once with the signal and the
  loop, which only tests for the timeout, never ends.
\<close>

theorem send_spins_on_signal:
  assumes "rp_container r = Virtio_rpmsg_channel" and "buf_size (vrp s) = MAX_RPMSG_BUF_SIZE"
    and "src \<noteq> RPMSG_ADDR_ANY" and "dst \<noteq> RPMSG_ADDR_ANY" and "0 \<le> len" and "len \<le> 496"
    and "\<And>q. virtqueue_get_buf K q = (None, q)"
    and "\<not> u32_of_int (last_sbuf (vrp s)) < num_bufs (vrp s) div 2"
  shows "rpmsg_send_offchannel_raw K (\<lambda>i. ([], Signal_pending)) r src dst data len True s = Hangs"
proof -
  have "get_a_tx_buf K (vrp s) = (None, vrp s)"
    using assms(7,8) by (simp add: get_a_tx_buf_def)
  moreover have "\<not> ucast (buf_size (vrp s)) - of_nat sizeof_rpmsg_hdr < size_t_of_int len"
    using msg_too_big_iff [OF _ assms(2), of len] assms(5,6) by (simp add: is_c_int_def)
  moreover have "wait_for_tx_buf K (\<lambda>i. ([], Signal_pending)) 0 (vrp s) = None"
    using assms(7,8) by (intro wait_for_tx_buf_spins) simp_all
  ultimately show ?thesis
    using assms(1,3,4) by (simp add: rpmsg_send_offchannel_raw_def)
qed

theorem send_spins_on_signal_witness:
  "rpmsg_send_offchannel_raw (sim_kernel\<lparr>virtqueue_get_buf := \<lambda>q. (None, q)\<rparr>) (\<lambda>i. ([], Signal_pending))
     sim_rpdev 1024 53 (bytes_of []) 0 True (sim_bus\<lparr>vrp := sim_vrp\<lparr>last_sbuf := 4\<rparr>\<rparr>) = Hangs"
  by (rule send_spins_on_signal) (simp_all add: sim_state rpmsg_consts u32_of_int_def)

end
