(* ===== verification/Endpoints.thy ===== *)
theory Endpoints
  imports Virtproc
begin

text \<open>
  Endpoints of virtio_rpmsg_bus.c: allocation of an address, binding, unbinding, and the
  reference count that keeps an endpoint alive while a receiver uses it. A function that
  allocates takes the answer of \<open>kzalloc\<close> as its argument: an address, or \<open>None\<close> for NULL.
  The locale \<open>rpmsg_backend\<close> is what the rpmsg core and the character device rely on.
\<close>

section \<open>Reference counts\<close>

definition ept_release :: "addr \<Rightarrow> ('q, 'i, 'y) rpmsg_bus_scheme \<Rightarrow> ('q, 'i, 'y) rpmsg_bus_scheme" where
  "ept_release p s = s\<lparr>epts := (epts s)(p := None)\<rparr>"

definition ept_kref_get ::
  "addr \<Rightarrow> ('q, 'i, 'y) rpmsg_bus_scheme \<Rightarrow> ('q, 'i, 'y) rpmsg_bus_scheme outcome" where
  "ept_kref_get p s =
     bind_outcome (deref (epts s) p) (\<lambda>e.
       Returns (s\<lparr>epts := (epts s)(p \<mapsto> e\<lparr>ep_refcount := ep_refcount e + 1\<rparr>)\<rparr>))"

definition ept_kref_put ::
  "addr \<Rightarrow> ('q, 'i, 'y) rpmsg_bus_scheme \<Rightarrow> ('q, 'i, 'y) rpmsg_bus_scheme outcome" where
  "ept_kref_put p s =
     bind_outcome (deref (epts s) p) (\<lambda>e.
       if ep_refcount e - 1 = 0 then Returns (ept_release p s)
       else Returns (s\<lparr>epts := (epts s)(p \<mapsto> e\<lparr>ep_refcount := ep_refcount e - 1\<rparr>)\<rparr>))"

section \<open>Creating\<close>

definition id_range :: "u32 \<Rightarrow> int \<times> int" where
  "id_range a = (if a = RPMSG_ADDR_ANY then (RPMSG_RESERVED_ADDRESSES, 0)
                 else (int_of_u32 a, int_of_u32 (a + 1)))"

definition do_rpmsg_create_ept ::
  "('q, 'i, 'z) kernel_scheme \<Rightarrow> addr option \<Rightarrow> addr option \<Rightarrow> rx_cb \<Rightarrow> priv \<Rightarrow> u32 \<Rightarrow>
   ('q, 'i, 'y) rpmsg_bus_scheme \<Rightarrow> (addr option \<times> ('q, 'i, 'y) rpmsg_bus_scheme) outcome" where
  "do_rpmsg_create_ept K kzalloc rpdev cb pr a s =
     (case kzalloc of None \<Rightarrow> Returns (None, s)
      | Some p \<Rightarrow>
          let e = \<lparr>ep_rpdev = rpdev, ep_cb = Some cb, ep_priv = pr, ep_addr = 0, ep_refcount = 1\<rparr>;
              (n, i) = idr_alloc K (endpoints (vrp s)) p (fst (id_range a)) (snd (id_range a));
              s1 = s\<lparr>vrp := (vrp s)\<lparr>endpoints := i\<rparr>, epts := (epts s)(p \<mapsto> e)\<rparr>
          in if n < 0 then bind_outcome (ept_kref_put p s1) (\<lambda>s2. Returns (None, s2))
             else Returns (Some p, s1\<lparr>epts := (epts s)(p \<mapsto> e\<lparr>ep_addr := word_of_int n\<rparr>)\<rparr>))"

definition virtio_rpmsg_create_ept ::
  "('q, 'i, 'z) kernel_scheme \<Rightarrow> addr option \<Rightarrow> addr \<Rightarrow> rx_cb \<Rightarrow> priv \<Rightarrow> rpmsg_channel_info \<Rightarrow>
   ('q, 'i, 'y) rpmsg_bus_scheme \<Rightarrow> (addr option \<times> ('q, 'i, 'y) rpmsg_bus_scheme) outcome" where
  "virtio_rpmsg_create_ept K kzalloc d cb pr chinfo s =
     bind_outcome (deref (rpdevs s) d) (\<lambda>r.
     bind_outcome (vch_vrp r) (\<lambda>_.
       do_rpmsg_create_ept K kzalloc (Some d) cb pr (ch_src chinfo) s))"

section \<open>Destroying\<close>

text \<open>The three locked regions of \<open>__rpmsg_destroy_ept\<close>: unbind, clear the callback, drop.\<close>

definition ept_unbind ::
  "('q, 'i, 'z) kernel_scheme \<Rightarrow> addr \<Rightarrow> ('q, 'i, 'y) rpmsg_bus_scheme \<Rightarrow>
   ('q, 'i, 'y) rpmsg_bus_scheme outcome" where
  "ept_unbind K p s =
     bind_outcome (deref (epts s) p) (\<lambda>e.
       Returns (s\<lparr>vrp := (vrp s)\<lparr>endpoints := idr_remove K (endpoints (vrp s)) (ep_addr e)\<rparr>\<rparr>))"

definition ept_clear_cb ::
  "addr \<Rightarrow> ('q, 'i, 'y) rpmsg_bus_scheme \<Rightarrow> ('q, 'i, 'y) rpmsg_bus_scheme outcome" where
  "ept_clear_cb p s =
     bind_outcome (deref (epts s) p) (\<lambda>e. Returns (s\<lparr>epts := (epts s)(p \<mapsto> e\<lparr>ep_cb := None\<rparr>)\<rparr>))"

definition do_rpmsg_destroy_ept ::
  "('q, 'i, 'z) kernel_scheme \<Rightarrow> addr \<Rightarrow> ('q, 'i, 'y) rpmsg_bus_scheme \<Rightarrow>
   ('q, 'i, 'y) rpmsg_bus_scheme outcome" where
  "do_rpmsg_destroy_ept K p s =
     bind_outcome (ept_unbind K p s) (\<lambda>s1. bind_outcome (ept_clear_cb p s1) (\<lambda>s2. ept_kref_put p s2))"

definition virtio_rpmsg_destroy_ept ::
  "('q, 'i, 'z) kernel_scheme \<Rightarrow> addr \<Rightarrow> ('q, 'i, 'y) rpmsg_bus_scheme \<Rightarrow>
   ('q, 'i, 'y) rpmsg_bus_scheme outcome" where
  "virtio_rpmsg_destroy_ept K p s =
     bind_outcome (deref (epts s) p) (\<lambda>e.
       case ep_rpdev e of None \<Rightarrow> Faults
       | Some d \<Rightarrow>
           bind_outcome (deref (rpdevs s) d) (\<lambda>r.
           bind_outcome (vch_vrp r) (\<lambda>_. do_rpmsg_destroy_ept K p s)))"

section \<open>Finding\<close>

text \<open>The lookup of a receiver, with the reference it takes under the same lock.\<close>

definition ept_find_get ::
  "('q, 'i, 'z) kernel_scheme \<Rightarrow> u32 \<Rightarrow> ('q, 'i, 'y) rpmsg_bus_scheme \<Rightarrow>
   (addr option \<times> ('q, 'i, 'y) rpmsg_bus_scheme) outcome" where
  "ept_find_get K a s =
     (case idr_find K (endpoints (vrp s)) a of None \<Rightarrow> Returns (None, s)
      | Some p \<Rightarrow> bind_outcome (ept_kref_get p s) (\<lambda>s1. Returns (Some p, s1)))"

section \<open>The endpoint table\<close>

definition bound_at :: "('q, 'i, 'z) kernel_scheme \<Rightarrow> ('q, 'i, 'y) rpmsg_bus_scheme \<Rightarrow> u32 \<Rightarrow> addr option" where
  "bound_at K s = idr_find K (endpoints (vrp s))"

definition epts_wf :: "('q, 'i, 'z) kernel_scheme \<Rightarrow> ('q, 'i, 'y) rpmsg_bus_scheme \<Rightarrow> bool" where
  "epts_wf K s \<longleftrightarrow> idr_laws K \<and>
     (\<forall>a p. bound_at K s a = Some p \<longrightarrow> (\<exists>e. epts s p = Some e \<and> ep_addr e = a \<and> 0 < ep_refcount e))"

lemma epts_wf_laws: "epts_wf K s \<Longrightarrow> idr_laws K"
  by (simp add: epts_wf_def)

lemma epts_wf_bound:
  "epts_wf K s \<Longrightarrow> bound_at K s a = Some p \<Longrightarrow> \<exists>e. epts s p = Some e \<and> ep_addr e = a \<and> 0 < ep_refcount e"
  by (simp add: epts_wf_def)

lemma bound_at_more [simp]:
  "bound_at K (s\<lparr>epts := h\<rparr>) = bound_at K s" "bound_at K (s\<lparr>rpdevs := r\<rparr>) = bound_at K s"
  "bound_at K (s\<lparr>mem := m\<rparr>) = bound_at K s"
  by (simp_all add: bound_at_def)

lemma int_of_u32_uint: "int_of_u32 a = (uint a + 2 ^ 31) mod 2 ^ 32 - 2 ^ 31"
  by (simp add: int_of_u32_def sint_uint signed_take_bit_eq_take_bit_shift take_bit_eq_mod)

lemma int_of_u32_cases: "int_of_u32 a = (if uint a < 2 ^ 31 then uint a else uint a - 2 ^ 32)"
proof -
  have b: "0 \<le> uint a" "uint a < 4294967296"
    using uint_lt2p [of a] by simp_all
  show ?thesis
  proof (cases "uint a < 2 ^ 31")
    case True
    then have "(uint a + 2 ^ 31) mod 2 ^ 32 = uint a + 2 ^ 31"
      using b by (intro mod_pos_pos_trivial) simp_all
    with True show ?thesis by (simp add: int_of_u32_uint)
  next
    case False
    have "(uint a + 2 ^ 31) mod 2 ^ 32 = (uint a + 2 ^ 31 - 2 ^ 32) mod 2 ^ 32"
      by (simp only: minus_mod_self2)
    also have "\<dots> = uint a + 2 ^ 31 - 2 ^ 32"
      using b False by (intro mod_pos_pos_trivial) simp_all
    finally show ?thesis using False by (simp add: int_of_u32_uint)
  qed
qed

text \<open>
  The range of an allocation holds exactly the requested address, or every address from
  1024 on; a requested address with its top bit set gives a range that starts below 0.
\<close>

lemma id_range_hit:
  assumes "a \<noteq> RPMSG_ADDR_ANY" and "fst (id_range a) \<le> k" and "0 \<le> fst (id_range a)"
    and "0 < snd (id_range a) \<Longrightarrow> k < snd (id_range a)" and "k < 2 ^ 31"
  shows "word_of_int k = a"
proof -
  have lt: "uint a < 2 ^ 31" and ge: "uint a \<le> k"
    using assms(1-3) uint_lt2p [of a] by (auto simp: id_range_def int_of_u32_cases split: if_splits)
  have "k = uint a"
  proof (cases "uint a = 2 ^ 31 - 1")
    case True with ge assms(5) show ?thesis by simp
  next
    case False
    have "(uint a + 1) mod 4294967296 = uint a + 1"
      using lt by (intro mod_pos_pos_trivial) simp_all
    then have "uint (a + 1) = uint a + 1" by (simp add: uint_word_ariths)
    moreover have "uint a + 1 < 2 ^ 31" using False lt by simp
    ultimately have "k < uint a + 1"
      using assms(1,4) by (simp add: id_range_def int_of_u32_cases split: if_splits)
    with ge show ?thesis by simp
  qed
  then show ?thesis by simp
qed

lemma id_range_any: "id_range RPMSG_ADDR_ANY = (1024, 0)"
  by (simp add: id_range_def RPMSG_RESERVED_ADDRESSES_def)

lemma id_range_high: "a \<noteq> RPMSG_ADDR_ANY \<Longrightarrow> 2 ^ 31 \<le> uint a \<Longrightarrow> fst (id_range a) < 0"
  using uint_lt2p [of a] by (simp add: id_range_def int_of_u32_cases)

section \<open>What creating and destroying do\<close>

lemma epts_wf_upd:
  assumes "epts_wf K s" and "\<And>a q. bound_at K s' a = Some q \<Longrightarrow> bound_at K s a = Some q \<and> epts s' q = epts s q"
  shows "epts_wf K s'"
  using assms unfolding epts_wf_def by metis

lemma ept_kref_put_drop:
  "epts s p = Some e \<Longrightarrow> ep_refcount e = 1 \<Longrightarrow> ept_kref_put p s = Returns (ept_release p s)"
  by (simp add: ept_kref_put_def)

lemma ept_release_fields [simp]:
  "vrp (ept_release p s) = vrp s" "rpdevs (ept_release p s) = rpdevs s" "mem (ept_release p s) = mem s"
  "epts (ept_release p s) = (epts s)(p := None)" "bound_at K (ept_release p s) = bound_at K s"
  by (simp_all add: ept_release_def)

lemma do_create_fail_release:
  "ept_kref_put p (s\<lparr>vrp := v, epts := (epts s)(p \<mapsto> \<lparr>ep_rpdev = d, ep_cb = c, ep_priv = r, ep_addr = a, ep_refcount = Suc 0\<rparr>)\<rparr>) =
   Returns (s\<lparr>vrp := v, epts := (epts s)(p := None)\<rparr>)"
  by (simp add: ept_kref_put_def ept_release_def)

lemma do_create_Some:
  assumes "idr_laws K" and "do_rpmsg_create_ept K kz d cb pr a s = Returns (Some q, s')"
  obtains b where "kz = Some q" and "bound_at K s b = None" and "bound_at K s' = (bound_at K s)(b \<mapsto> q)"
    and "epts s' = (epts s)(q \<mapsto> \<lparr>ep_rpdev = d, ep_cb = Some cb, ep_priv = pr, ep_addr = b, ep_refcount = 1\<rparr>)"
    and "if a = RPMSG_ADDR_ANY then 1024 \<le> uint b \<and> uint b < 2 ^ 31 else b = a"
    and "rpdevs s' = rpdevs s" and "mem s' = mem s"
    and "svq (vrp s') = svq (vrp s)" and "rvq (vrp s') = rvq (vrp s)"
proof -
  obtain k i where al: "idr_alloc K (endpoints (vrp s)) q (fst (id_range a)) (snd (id_range a)) = (k, i)"
    by fastforce
  have kz: "kz = Some q" and ge: "0 \<le> k"
    and s': "s' = s\<lparr>vrp := (vrp s)\<lparr>endpoints := i\<rparr>,
      epts := (epts s)(q \<mapsto> \<lparr>ep_rpdev = d, ep_cb = Some cb, ep_priv = pr, ep_addr = word_of_int k,
                          ep_refcount = 1\<rparr>)\<rparr>"
    using assms(2) al
    by (auto simp: do_rpmsg_create_ept_def Let_def split: option.splits if_splits prod.splits)
  note ok = idr_alloc_okD [OF assms(1) al ge]
  have "fst (id_range a) \<ge> 0"
  proof (rule ccontr)
    assume "\<not> 0 \<le> fst (id_range a)"
    then have "fst (idr_alloc K (endpoints (vrp s)) q (fst (id_range a)) (snd (id_range a))) < 0"
      using idr_alloc_negative [OF assms(1)] by simp
    with al ge show False by simp
  qed
  then have hit: "a \<noteq> RPMSG_ADDR_ANY \<Longrightarrow> word_of_int k = a"
    using id_range_hit ok(2-4) by blast
  have "uint (word_of_int k :: u32) = k"
    using ge ok(4) by (simp add: uint_word_of_int)
  then have any: "a = RPMSG_ADDR_ANY \<Longrightarrow> 1024 \<le> uint (word_of_int k :: u32) \<and> uint (word_of_int k :: u32) < 2 ^ 31"
    using ok(2,4) by (simp add: id_range_any)
  show thesis
  proof (rule that [OF kz])
    show "bound_at K s (word_of_int k) = None" using ok(1) by (simp add: bound_at_def)
    show "bound_at K s' = (bound_at K s)(word_of_int k \<mapsto> q)" using ok(5) by (simp add: s' bound_at_def)
    show "if a = RPMSG_ADDR_ANY then 1024 \<le> uint (word_of_int k :: u32) \<and> uint (word_of_int k :: u32) < 2 ^ 31
      else word_of_int k = a" using hit any by simp
  qed (simp_all add: s')
qed

lemma do_create_None:
  assumes "idr_laws K" and "do_rpmsg_create_ept K kz d cb pr a s = Returns (None, s')"
    and "\<And>p. kz = Some p \<Longrightarrow> epts s p = None"
  shows "bound_at K s' = bound_at K s" and "epts s' = epts s" and "rpdevs s' = rpdevs s"
    and "mem s' = mem s" and "\<exists>i. vrp s' = (vrp s)\<lparr>endpoints := i\<rparr>"
proof -
  have "bound_at K s' = bound_at K s \<and> epts s' = epts s \<and> rpdevs s' = rpdevs s \<and> mem s' = mem s \<and>
    (\<exists>i. vrp s' = (vrp s)\<lparr>endpoints := i\<rparr>)"
  proof (cases kz)
    case None
    have "\<exists>i. vrp s = (vrp s)\<lparr>endpoints := i\<rparr>" by (rule exI [of _ "endpoints (vrp s)"]) simp
    with None assms(2) show ?thesis by (simp add: do_rpmsg_create_ept_def)
  next
    case (Some p)
    obtain k i where al: "idr_alloc K (endpoints (vrp s)) p (fst (id_range a)) (snd (id_range a)) = (k, i)"
      by fastforce
    with Some assms(2) have k: "k < 0" and s': "s' = s\<lparr>vrp := (vrp s)\<lparr>endpoints := i\<rparr>, epts := (epts s)(p := None)\<rparr>"
      by (auto simp: do_rpmsg_create_ept_def Let_def do_create_fail_release split: if_splits)
    have "(epts s)(p := None) = epts s" using assms(3) [OF Some] by (simp add: fun_upd_idem)
    then show ?thesis
      using idr_alloc_failD [OF assms(1) al k] by (auto simp: s' bound_at_def)
  qed
  then show "bound_at K s' = bound_at K s" and "epts s' = epts s" and "rpdevs s' = rpdevs s"
    and "mem s' = mem s" and "\<exists>i. vrp s' = (vrp s)\<lparr>endpoints := i\<rparr>" by blast+
qed

lemma do_create_returns: "\<exists>r s'. do_rpmsg_create_ept K kz d cb pr a s = Returns (r, s')"
  by (auto simp: do_rpmsg_create_ept_def Let_def do_create_fail_release split: option.splits prod.splits)

lemma do_create_negative:
  assumes "idr_laws K" and "fst (id_range a) < 0" and "do_rpmsg_create_ept K kz d cb pr a s = Returns (r, s')"
  shows "r = None"
proof (cases kz)
  case (Some p)
  obtain k i where al: "idr_alloc K (endpoints (vrp s)) p (fst (id_range a)) (snd (id_range a)) = (k, i)"
    by fastforce
  have "k < 0"
    using idr_alloc_negative [OF assms(1,2), of "endpoints (vrp s)" p "snd (id_range a)"] al by simp
  with Some al assms(3) show ?thesis
    by (auto simp: do_rpmsg_create_ept_def Let_def do_create_fail_release)
qed (use assms(3) in \<open>simp add: do_rpmsg_create_ept_def\<close>)

lemma do_destroy_drop:
  assumes "epts s p = Some e" and "ep_refcount e = 1"
  shows "do_rpmsg_destroy_ept K p s =
    Returns (s\<lparr>vrp := (vrp s)\<lparr>endpoints := idr_remove K (endpoints (vrp s)) (ep_addr e)\<rparr>, epts := (epts s)(p := None)\<rparr>)"
  using assms
  by (simp add: do_rpmsg_destroy_ept_def ept_unbind_def ept_clear_cb_def ept_kref_put_def ept_release_def)

lemma do_destroy_busy:
  assumes "epts s p = Some e" and "1 < ep_refcount e"
  shows "do_rpmsg_destroy_ept K p s =
    Returns (s\<lparr>vrp := (vrp s)\<lparr>endpoints := idr_remove K (endpoints (vrp s)) (ep_addr e)\<rparr>,
      epts := (epts s)(p \<mapsto> e\<lparr>ep_cb := None, ep_refcount := ep_refcount e - 1\<rparr>)\<rparr>)"
  using assms
  by (simp add: do_rpmsg_destroy_ept_def ept_unbind_def ept_clear_cb_def ept_kref_put_def)

section \<open>The contract of a backend\<close>

text \<open>
  What the rpmsg core and the character device rely on when they create and destroy
  endpoints through the operations of a device: \<open>bound\<close> is the address table, \<open>ept_at\<close> the
  heap of endpoints, \<open>dev_ok\<close> a device of that backend.
\<close>

locale rpmsg_backend =
  fixes create :: "addr option \<Rightarrow> addr \<Rightarrow> rx_cb \<Rightarrow> priv \<Rightarrow> rpmsg_channel_info \<Rightarrow> 's \<Rightarrow> (addr option \<times> 's) outcome"
    and destroy :: "addr \<Rightarrow> 's \<Rightarrow> 's outcome"
    and bound :: "'s \<Rightarrow> u32 \<Rightarrow> addr option"
    and ept_at :: "'s \<Rightarrow> addr \<Rightarrow> rpmsg_endpoint option"
    and inv :: "'s \<Rightarrow> bool"
    and dev_ok :: "addr \<Rightarrow> 's \<Rightarrow> bool"
  assumes create_returns: "inv s \<Longrightarrow> dev_ok d s \<Longrightarrow> \<exists>r s'. create kz d cb pr ch s = Returns (r, s')"
    and create_Some: "inv s \<Longrightarrow> dev_ok d s \<Longrightarrow> (\<And>p. kz = Some p \<Longrightarrow> ept_at s p = None) \<Longrightarrow>
      create kz d cb pr ch s = Returns (Some q, s') \<Longrightarrow>
      kz = Some q \<and> inv s' \<and>
      (\<exists>a. bound s a = None \<and> bound s' = (bound s)(a \<mapsto> q) \<and>
        ept_at s' = (ept_at s)(q \<mapsto> \<lparr>ep_rpdev = Some d, ep_cb = Some cb, ep_priv = pr, ep_addr = a, ep_refcount = 1\<rparr>) \<and>
        (if ch_src ch = RPMSG_ADDR_ANY then 1024 \<le> uint a \<and> uint a < 2 ^ 31 else a = ch_src ch))"
    and create_None: "inv s \<Longrightarrow> dev_ok d s \<Longrightarrow> (\<And>p. kz = Some p \<Longrightarrow> ept_at s p = None) \<Longrightarrow>
      create kz d cb pr ch s = Returns (None, s') \<Longrightarrow> inv s' \<and> bound s' = bound s \<and> ept_at s' = ept_at s"
    and create_dev: "inv s \<Longrightarrow> dev_ok d s \<Longrightarrow> create kz d cb pr ch s = Returns (r, s') \<Longrightarrow> dev_ok d' s' = dev_ok d' s"
    and destroy_drop: "inv s \<Longrightarrow> ept_at s p = Some e \<Longrightarrow> ep_rpdev e = Some d \<Longrightarrow> dev_ok d s \<Longrightarrow>
      ep_refcount e = 1 \<Longrightarrow>
      \<exists>s'. destroy p s = Returns s' \<and> inv s' \<and> bound s' = (bound s)(ep_addr e := None) \<and>
        ept_at s' = (ept_at s)(p := None) \<and> (\<forall>d'. dev_ok d' s' = dev_ok d' s)"
begin

lemma create_destroy:
  assumes "inv s" and "dev_ok d s" and fresh: "\<And>p. kz = Some p \<Longrightarrow> ept_at s p = None"
    and mk: "create kz d cb pr ch s = Returns (Some q, s')"
  shows "\<exists>s''. destroy q s' = Returns s'' \<and> inv s'' \<and> bound s'' = bound s \<and> ept_at s'' = ept_at s"
proof -
  from create_Some [OF assms] obtain a where kz: "kz = Some q" and inv: "inv s'" and free: "bound s a = None"
    and tab: "bound s' = (bound s)(a \<mapsto> q)"
    and heap: "ept_at s' = (ept_at s)(q \<mapsto> \<lparr>ep_rpdev = Some d, ep_cb = Some cb, ep_priv = pr, ep_addr = a, ep_refcount = 1\<rparr>)"
    by blast
  have dev: "dev_ok d s'" using create_dev [OF assms(1,2) mk] assms(2) by simp
  have same: "(bound s)(a := None) = bound s" "(ept_at s)(q := None) = ept_at s"
    using free fresh [OF kz] by (simp_all add: fun_upd_idem)
  show ?thesis
    using destroy_drop [OF inv _ _ dev, of q] by (auto simp: heap tab same)
qed

lemma create_taken:
  assumes "inv s" and "dev_ok d s" and "\<And>p. kz = Some p \<Longrightarrow> ept_at s p = None"
    and "ch_src ch \<noteq> RPMSG_ADDR_ANY" and "bound s (ch_src ch) = Some q"
  shows "\<exists>s'. create kz d cb pr ch s = Returns (None, s') \<and> inv s' \<and> bound s' = bound s \<and> ept_at s' = ept_at s"
proof -
  obtain r s' where ret: "create kz d cb pr ch s = Returns (r, s')"
    using create_returns [OF assms(1,2)] by blast
  show ?thesis
  proof (cases r)
    case None
    with ret create_None [OF assms(1-3)] show ?thesis by blast
  next
    case (Some p)
    with ret create_Some [OF assms(1-3)] assms(4,5) show ?thesis by fastforce
  qed
qed

end

text \<open>The virtio backend meets the contract, on the kernel \<open>K\<close> its state invariant names.\<close>

definition channel_ok :: "addr \<Rightarrow> ('q, 'i, 'y) rpmsg_bus_scheme \<Rightarrow> bool" where
  "channel_ok d s \<longleftrightarrow> (\<exists>r. rpdevs s d = Some r \<and> rp_container r = Virtio_rpmsg_channel)"

lemma virtio_create_eq:
  "channel_ok d s \<Longrightarrow> virtio_rpmsg_create_ept K kz d cb pr ch s = do_rpmsg_create_ept K kz (Some d) cb pr (ch_src ch) s"
  by (auto simp: channel_ok_def virtio_rpmsg_create_ept_def)

lemma virtio_destroy_eq:
  "epts s p = Some e \<Longrightarrow> ep_rpdev e = Some d \<Longrightarrow> channel_ok d s \<Longrightarrow>
   virtio_rpmsg_destroy_ept K p s = do_rpmsg_destroy_ept K p s"
  by (auto simp: channel_ok_def virtio_rpmsg_destroy_ept_def)

lemma do_create_rpdevs:
  "do_rpmsg_create_ept K kz d cb pr a s = Returns (r, s') \<Longrightarrow> rpdevs s' = rpdevs s"
  by (auto simp: do_rpmsg_create_ept_def Let_def do_create_fail_release split: option.splits prod.splits if_splits)

lemma create_keeps_wf:
  assumes "epts_wf K s" and "kz = Some q" and "epts s q = None"
    and "bound_at K s' = (bound_at K s)(b \<mapsto> q)" and "epts s' = (epts s)(q \<mapsto> e)"
    and "ep_addr e = b" and "ep_refcount e = 1"
  shows "epts_wf K s'"
  using assms unfolding epts_wf_def by (metis fun_upd_apply option.inject option.simps(3) zero_less_one)

lemma destroy_keeps_wf:
  assumes wf: "epts_wf K s" and p: "epts s p = Some e"
    and tab: "bound_at K s' = (bound_at K s)(ep_addr e := None)" and heap: "epts s' = (epts s)(p := None)"
  shows "epts_wf K s'"
proof (rule epts_wf_upd [OF wf])
  fix a q assume "bound_at K s' a = Some q"
  then have b: "bound_at K s a = Some q" "a \<noteq> ep_addr e" by (auto simp: tab split: if_splits)
  then have "q \<noteq> p" using epts_wf_bound [OF wf b(1)] p by auto
  with b(1) show "bound_at K s a = Some q \<and> epts s' q = epts s q" by (simp add: heap)
qed

interpretation vb: rpmsg_backend "virtio_rpmsg_create_ept K" "virtio_rpmsg_destroy_ept K" "bound_at K" epts
  "epts_wf K" channel_ok for K :: "('q, 'i, 'z) kernel_scheme"
proof
  fix s :: "('q, 'i, 'y) rpmsg_bus_scheme" and d :: addr and kz cb pr ch
  assume "epts_wf K s" and ok: "channel_ok d s"
  show "\<exists>r s'. virtio_rpmsg_create_ept K kz d cb pr ch s = Returns (r, s')"
    by (simp only: virtio_create_eq [OF ok] do_create_returns)
next
  fix s s' :: "('q, 'i, 'y) rpmsg_bus_scheme" and d q :: addr and kz cb pr ch
  assume wf: "epts_wf K s" and ok: "channel_ok d s" and fresh: "\<And>p. kz = Some p \<Longrightarrow> epts s p = None"
    and mk: "virtio_rpmsg_create_ept K kz d cb pr ch s = Returns (Some q, s')"
  show "kz = Some q \<and> epts_wf K s' \<and>
      (\<exists>a. bound_at K s a = None \<and> bound_at K s' = (bound_at K s)(a \<mapsto> q) \<and>
        epts s' = (epts s)(q \<mapsto> \<lparr>ep_rpdev = Some d, ep_cb = Some cb, ep_priv = pr, ep_addr = a, ep_refcount = 1\<rparr>) \<and>
        (if ch_src ch = RPMSG_ADDR_ANY then 1024 \<le> uint a \<and> uint a < 2 ^ 31 else a = ch_src ch))"
  proof (rule do_create_Some [OF epts_wf_laws [OF wf] mk [unfolded virtio_create_eq [OF ok]]])
    fix b
    assume b: "kz = Some q" "bound_at K s b = None" "bound_at K s' = (bound_at K s)(b \<mapsto> q)"
      "epts s' = (epts s)(q \<mapsto> \<lparr>ep_rpdev = Some d, ep_cb = Some cb, ep_priv = pr, ep_addr = b, ep_refcount = 1\<rparr>)"
      "if ch_src ch = RPMSG_ADDR_ANY then 1024 \<le> uint b \<and> uint b < 2 ^ 31 else b = ch_src ch"
    have "epts_wf K s'" by (rule create_keeps_wf [OF wf b(1) fresh [OF b(1)] b(3,4)]) simp_all
    with b show ?thesis by blast
  qed
next
  fix s s' :: "('q, 'i, 'y) rpmsg_bus_scheme" and d :: addr and kz cb pr ch
  assume wf: "epts_wf K s" and ok: "channel_ok d s" and fresh: "\<And>p. kz = Some p \<Longrightarrow> epts s p = None"
    and mk: "virtio_rpmsg_create_ept K kz d cb pr ch s = Returns (None, s')"
  note n = do_create_None [OF epts_wf_laws [OF wf] mk [unfolded virtio_create_eq [OF ok]] fresh]
  have "epts_wf K s'" by (rule epts_wf_upd [OF wf]) (simp add: n)
  with n show "epts_wf K s' \<and> bound_at K s' = bound_at K s \<and> epts s' = epts s" by simp
next
  fix s s' :: "('q, 'i, 'y) rpmsg_bus_scheme" and d d' :: addr and kz cb pr ch r
  assume "epts_wf K s" and ok: "channel_ok d s" and mk: "virtio_rpmsg_create_ept K kz d cb pr ch s = Returns (r, s')"
  from do_create_rpdevs [OF mk [unfolded virtio_create_eq [OF ok]]]
  show "channel_ok d' s' = channel_ok d' s" by (simp add: channel_ok_def)
next
  fix s :: "('q, 'i, 'y) rpmsg_bus_scheme" and p d :: addr and e
  assume wf: "epts_wf K s" and e: "epts s p = Some e" "ep_rpdev e = Some d" and ok: "channel_ok d s"
    and one: "ep_refcount e = 1"
  let ?s = "s\<lparr>vrp := (vrp s)\<lparr>endpoints := idr_remove K (endpoints (vrp s)) (ep_addr e)\<rparr>, epts := (epts s)(p := None)\<rparr>"
  have ret: "virtio_rpmsg_destroy_ept K p s = Returns ?s"
    by (simp only: virtio_destroy_eq [OF e ok] do_destroy_drop [OF e(1) one])
  have tab: "bound_at K ?s = (bound_at K s)(ep_addr e := None)"
    using idr_find_remove [OF epts_wf_laws [OF wf]] by (simp add: bound_at_def)
  have "epts_wf K ?s" by (rule destroy_keeps_wf [OF wf e(1) tab]) simp
  moreover have "\<forall>d'. channel_ok d' ?s = channel_ok d' s" by (simp add: channel_ok_def)
  ultimately show "\<exists>s'. virtio_rpmsg_destroy_ept K p s = Returns s' \<and> epts_wf K s' \<and>
      bound_at K s' = (bound_at K s)(ep_addr e := None) \<and> epts s' = (epts s)(p := None) \<and>
      (\<forall>d'. channel_ok d' s' = channel_ok d' s)"
    using ret tab by (intro exI [of _ ?s]) simp
qed

section \<open>The properties of the endpoint table\<close>

lemma sim_epts_wf: "epts_wf sim_kernel sim_bus"
  unfolding epts_wf_def using sim_idr_laws
  by (auto simp: bound_at_def sim_kernel_def sim_state split: if_splits)

lemma sim_channel_ok: "channel_ok 1 sim_bus"
  by (simp add: channel_ok_def sim_state)

text \<open>
  C11. Creating an endpoint on a channel always returns. A new endpoint is bound at one
  address that was free: the requested one, or one from 1024 on when any will do; it has
  one reference, and nothing else in the table or the heap changes. Without an endpoint
  the table and the heap are as they were, the allocated structure freed.
\<close>

theorem create_ept_binds:
  assumes "epts_wf K s" and "channel_ok d s" and "\<And>p. kz = Some p \<Longrightarrow> epts s p = None"
  shows "\<exists>r s'. virtio_rpmsg_create_ept K kz d cb pr ch s = Returns (r, s') \<and> epts_wf K s' \<and>
    (case r of None \<Rightarrow> bound_at K s' = bound_at K s \<and> epts s' = epts s
     | Some q \<Rightarrow> kz = Some q \<and>
         (\<exists>a. bound_at K s a = None \<and> bound_at K s' = (bound_at K s)(a \<mapsto> q) \<and>
           epts s' = (epts s)(q \<mapsto> \<lparr>ep_rpdev = Some d, ep_cb = Some cb, ep_priv = pr, ep_addr = a, ep_refcount = 1\<rparr>) \<and>
           (if ch_src ch = RPMSG_ADDR_ANY then 1024 \<le> uint a \<and> uint a < 2 ^ 31 else a = ch_src ch)))"
proof -
  obtain r s' where ret: "virtio_rpmsg_create_ept K kz d cb pr ch s = Returns (r, s')"
    using vb.create_returns [OF assms(1,2)] by blast
  show ?thesis
  proof (cases r)
    case None
    with ret vb.create_None [OF assms] show ?thesis by fastforce
  next
    case (Some q)
    with ret vb.create_Some [OF assms] show ?thesis by fastforce
  qed
qed

theorem create_ept_binds_witness:
  "\<exists>r s'. virtio_rpmsg_create_ept sim_kernel (Some 3) 1 Rpmsg_ept_cb (Priv_eptdev 9)
       \<lparr>ch_name = [], ch_src = RPMSG_ADDR_ANY, ch_dst = 5\<rparr> sim_bus = Returns (r, s') \<and> epts_wf sim_kernel s'"
  using create_ept_binds [OF sim_epts_wf sim_channel_ok, of "Some 3" Rpmsg_ept_cb "Priv_eptdev 9"
      "\<lparr>ch_name = [], ch_src = RPMSG_ADDR_ANY, ch_dst = 5\<rparr>"]
  by (fastforce simp: sim_state)

text \<open>
  Destroying an endpoint nobody else uses, right after creating it, succeeds and
  restores the address table and the heap.
\<close>

lemma create_destroy_ept:
  assumes "epts_wf K s" and "channel_ok d s" and "\<And>p. kz = Some p \<Longrightarrow> epts s p = None"
    and "virtio_rpmsg_create_ept K kz d cb pr ch s = Returns (Some q, s')"
  shows "\<exists>s''. virtio_rpmsg_destroy_ept K q s' = Returns s'' \<and> epts_wf K s'' \<and>
    bound_at K s'' = bound_at K s \<and> epts s'' = epts s"
  by (rule vb.create_destroy [OF assms])

lemma sim_create_ept:
  "\<exists>s'. virtio_rpmsg_create_ept sim_kernel (Some 3) 1 Rpmsg_ept_cb (Priv_eptdev 9)
       \<lparr>ch_name = [], ch_src = 53, ch_dst = 5\<rparr> sim_bus = Returns (Some 3, s')"
  unfolding virtio_create_eq [OF sim_channel_ok]
  by (simp add: do_rpmsg_create_ept_def id_range_def rpmsg_consts
      int_of_u32_def sim_kernel_def sim_idr_alloc_def sim_state upto_rec1 Let_def)

lemma create_destroy_ept_witness:
  "\<exists>s' s''. virtio_rpmsg_create_ept sim_kernel (Some 3) 1 Rpmsg_ept_cb (Priv_eptdev 9)
       \<lparr>ch_name = [], ch_src = 53, ch_dst = 5\<rparr> sim_bus = Returns (Some 3, s') \<and>
     virtio_rpmsg_destroy_ept sim_kernel 3 s' = Returns s'' \<and> epts s'' = epts sim_bus"
proof -
  obtain s' where mk: "virtio_rpmsg_create_ept sim_kernel (Some 3) 1 Rpmsg_ept_cb (Priv_eptdev 9)
       \<lparr>ch_name = [], ch_src = 53, ch_dst = 5\<rparr> sim_bus = Returns (Some 3, s')"
    using sim_create_ept by blast
  with create_destroy_ept [OF sim_epts_wf sim_channel_ok _ mk] show ?thesis
    by (auto simp: sim_state)
qed

text \<open>
  The address is passed to \<open>idr_alloc\<close> as an \<open>int\<close>: an address from 2 to the 31 on
  other than the wildcard, or one that is taken, cannot be bound, and the attempt leaves
  the table and the heap alone.
\<close>

lemma create_ept_refuses:
  assumes "epts_wf K s" and "channel_ok d s" and "\<And>p. kz = Some p \<Longrightarrow> epts s p = None"
    and "ch_src ch \<noteq> RPMSG_ADDR_ANY" and "2 ^ 31 \<le> uint (ch_src ch) \<or> bound_at K s (ch_src ch) \<noteq> None"
  shows "\<exists>s'. virtio_rpmsg_create_ept K kz d cb pr ch s = Returns (None, s') \<and>
    bound_at K s' = bound_at K s \<and> epts s' = epts s"
proof (cases "bound_at K s (ch_src ch)")
  case (Some q)
  from vb.create_taken [OF assms(1-4) Some] show ?thesis by blast
next
  case None
  with assms(5) have low: "fst (id_range (ch_src ch)) < 0" using id_range_high [OF assms(4)] by simp
  obtain r s' where ret: "virtio_rpmsg_create_ept K kz d cb pr ch s = Returns (r, s')"
    using vb.create_returns [OF assms(1,2)] by blast
  have "r = None"
    using do_create_negative [OF epts_wf_laws [OF assms(1)] low] ret
    unfolding virtio_create_eq [OF assms(2)] by blast
  with ret vb.create_None [OF assms(1-3)] show ?thesis by blast
qed

lemma create_ept_refuses_witness:
  "\<exists>s'. virtio_rpmsg_create_ept sim_kernel (Some 3) 1 Rpmsg_ept_cb Priv_null
       \<lparr>ch_name = [], ch_src = 0x80000000, ch_dst = 5\<rparr> sim_bus = Returns (None, s') \<and> epts s' = epts sim_bus"
  using create_ept_refuses [OF sim_epts_wf sim_channel_ok, of "Some 3"
      "\<lparr>ch_name = [], ch_src = 0x80000000, ch_dst = 5\<rparr>" Rpmsg_ept_cb Priv_null]
  by (fastforce simp: sim_state RPMSG_ADDR_ANY_def)

end
