(* ===== verification/RpmsgCore.thy ===== *)
theory RpmsgCore
  imports TxPath Endpoints
begin

text \<open>
  The rpmsg core, rpmsg_core.c: the operation tables of rpmsg_internal.h and the functions
  that dispatch through them, the matching of channels, devices and drivers, the sysfs
  attributes, and the probe and remove callbacks of the bus. The tables of a backend are
  arguments (\<open>DO\<close> of a device, \<open>EO\<close> of an endpoint); the last sections put the virtio
  backend in. What the driver core, the device tree code and a driver answer is an argument
  too.
\<close>

section \<open>The operation tables\<close>

record 's rpmsg_device_ops =
  op_create_ept :: "addr option \<Rightarrow> addr \<Rightarrow> rx_cb \<Rightarrow> priv \<Rightarrow> rpmsg_channel_info \<Rightarrow> 's \<Rightarrow> (addr option \<times> 's) outcome"
  op_announce_create :: "(addr \<Rightarrow> 's \<Rightarrow> (int \<times> 's) outcome) option"
  op_announce_destroy :: "(addr \<Rightarrow> 's \<Rightarrow> (int \<times> 's) outcome) option"

record 's rpmsg_endpoint_ops =
  op_destroy_ept :: "addr \<Rightarrow> 's \<Rightarrow> 's outcome"
  op_send :: "(addr \<Rightarrow> bytes \<Rightarrow> int \<Rightarrow> 's \<Rightarrow> (int \<times> 's) outcome) option"
  op_sendto :: "(addr \<Rightarrow> bytes \<Rightarrow> int \<Rightarrow> u32 \<Rightarrow> 's \<Rightarrow> (int \<times> 's) outcome) option"
  op_send_offchannel :: "(addr \<Rightarrow> u32 \<Rightarrow> u32 \<Rightarrow> bytes \<Rightarrow> int \<Rightarrow> 's \<Rightarrow> (int \<times> 's) outcome) option"
  op_trysend :: "(addr \<Rightarrow> bytes \<Rightarrow> int \<Rightarrow> 's \<Rightarrow> (int \<times> 's) outcome) option"
  op_trysendto :: "(addr \<Rightarrow> bytes \<Rightarrow> int \<Rightarrow> u32 \<Rightarrow> 's \<Rightarrow> (int \<times> 's) outcome) option"
  op_trysend_offchannel :: "(addr \<Rightarrow> u32 \<Rightarrow> u32 \<Rightarrow> bytes \<Rightarrow> int \<Rightarrow> 's \<Rightarrow> (int \<times> 's) outcome) option"
  op_poll :: "(addr \<Rightarrow> 's \<Rightarrow> u32 outcome) option"

section \<open>Dispatch\<close>

text \<open>
  The pattern of every call through an endpoint: NULL is \<open>-EINVAL\<close>, a table without the
  operation \<open>-ENXIO\<close>; reading \<open>ept->ops\<close> dereferences the endpoint.
\<close>

definition ept_dispatch ::
  "addr option \<Rightarrow> 'op option \<Rightarrow> ('op \<Rightarrow> addr \<Rightarrow> (int \<times> ('q, 'i, 'y) rpmsg_bus_scheme) outcome) \<Rightarrow>
   ('q, 'i, 'y) rpmsg_bus_scheme \<Rightarrow> (int \<times> ('q, 'i, 'y) rpmsg_bus_scheme) outcome" where
  "ept_dispatch ept sel run s =
     (case ept of None \<Rightarrow> Returns (- EINVAL, s)
      | Some p \<Rightarrow> bind_outcome (deref (epts s) p) (\<lambda>_.
          case sel of None \<Rightarrow> Returns (- ENXIO, s) | Some f \<Rightarrow> run f p))"

definition rpmsg_create_ept ::
  "'s rpmsg_device_ops \<Rightarrow> addr option \<Rightarrow> addr option \<Rightarrow> rx_cb \<Rightarrow> priv \<Rightarrow> rpmsg_channel_info \<Rightarrow> 's \<Rightarrow>
   (addr option \<times> 's) outcome" where
  "rpmsg_create_ept DO kz rpdev cb pr chinfo s =
     (case rpdev of None \<Rightarrow> Returns (None, s) | Some d \<Rightarrow> op_create_ept DO kz d cb pr chinfo s)"

definition rpmsg_destroy_ept ::
  "('q, 'i, 'y) rpmsg_bus_scheme rpmsg_endpoint_ops \<Rightarrow> addr option \<Rightarrow> ('q, 'i, 'y) rpmsg_bus_scheme \<Rightarrow>
   ('q, 'i, 'y) rpmsg_bus_scheme outcome" where
  "rpmsg_destroy_ept EO ept s =
     (case ept of None \<Rightarrow> Returns s
      | Some p \<Rightarrow> bind_outcome (deref (epts s) p) (\<lambda>_. op_destroy_ept EO p s))"

definition rpmsg_send where
  "rpmsg_send EO ept data len s =
     ept_dispatch ept (op_send EO) (\<lambda>f p. f p data len s) s"

definition rpmsg_sendto where
  "rpmsg_sendto EO ept data len dst s =
     ept_dispatch ept (op_sendto EO) (\<lambda>f p. f p data len dst s) s"

definition rpmsg_send_offchannel where
  "rpmsg_send_offchannel EO ept src dst data len s =
     ept_dispatch ept (op_send_offchannel EO) (\<lambda>f p. f p src dst data len s) s"

definition rpmsg_trysend where
  "rpmsg_trysend EO ept data len s =
     ept_dispatch ept (op_trysend EO) (\<lambda>f p. f p data len s) s"

definition rpmsg_trysendto where
  "rpmsg_trysendto EO ept data len dst s =
     ept_dispatch ept (op_trysendto EO) (\<lambda>f p. f p data len dst s) s"

definition rpmsg_trysend_offchannel where
  "rpmsg_trysend_offchannel EO ept src dst data len s =
     ept_dispatch ept (op_trysend_offchannel EO) (\<lambda>f p. f p src dst data len s) s"

definition rpmsg_poll ::
  "('q, 'i, 'y) rpmsg_bus_scheme rpmsg_endpoint_ops \<Rightarrow> addr option \<Rightarrow> ('q, 'i, 'y) rpmsg_bus_scheme \<Rightarrow>
   u32 outcome" where
  "rpmsg_poll EO ept s =
     (case ept of None \<Rightarrow> Returns 0
      | Some p \<Rightarrow> bind_outcome (deref (epts s) p) (\<lambda>_.
          case op_poll EO of None \<Rightarrow> Returns 0 | Some f \<Rightarrow> f p s))"

text \<open>The table of the virtio backend has every operation but \<open>poll\<close>.\<close>

definition virtio_endpoint_ops ::
  "('q, 'i, 'z) kernel_scheme \<Rightarrow> (nat \<Rightarrow> ('q, 'i) wait_script) \<Rightarrow>
   ('q, 'i, 'y) rpmsg_bus_scheme rpmsg_endpoint_ops" where
  "virtio_endpoint_ops K waits =
     \<lparr>op_destroy_ept = virtio_rpmsg_destroy_ept K,
      op_send = Some (virtio_rpmsg_send K waits),
      op_sendto = Some (virtio_rpmsg_sendto K waits),
      op_send_offchannel = Some (virtio_rpmsg_send_offchannel K waits),
      op_trysend = Some (virtio_rpmsg_trysend K waits),
      op_trysendto = Some (virtio_rpmsg_trysendto K waits),
      op_trysend_offchannel = Some (virtio_rpmsg_trysend_offchannel K waits),
      op_poll = None\<rparr>"

section \<open>Matching\<close>

definition rpmsg_device_match :: "rpmsg_channel_info \<Rightarrow> rpmsg_device \<Rightarrow> bool" where
  "rpmsg_device_match chinfo rpdev =
     (if ch_src chinfo \<noteq> RPMSG_ADDR_ANY \<and> ch_src chinfo \<noteq> rp_src rpdev then False
      else if ch_dst chinfo \<noteq> RPMSG_ADDR_ANY \<and> ch_dst chinfo \<noteq> rp_dst rpdev then False
      else if strncmp RPMSG_NAME_SIZE (ch_name chinfo) (rp_name rpdev) \<noteq> 0 then False
      else True)"

definition rpmsg_id_match :: "rpmsg_device \<Rightarrow> u8 list \<Rightarrow> bool" where
  "rpmsg_id_match rpdev id_name = (strncmp RPMSG_NAME_SIZE id_name (rp_name rpdev) = 0)"

text \<open>The loop over an id table; the end of the list is the end of the array.\<close>

fun id_table_match :: "rpmsg_device \<Rightarrow> u8 list list \<Rightarrow> bool outcome" where
  "id_table_match rpdev [] = Faults"
| "id_table_match rpdev (i # ids) =
     (if cstr i = [] then Returns False
      else if rpmsg_id_match rpdev i then Returns True
      else id_table_match rpdev ids)"

text \<open>\<open>of_match\<close> is the answer of \<open>of_driver_match_device\<close>.\<close>

definition rpmsg_dev_match ::
  "rpmsg_device \<Rightarrow> u8 list \<Rightarrow> u8 list list option \<Rightarrow> bool \<Rightarrow> bool outcome" where
  "rpmsg_dev_match rpdev drv_name id_table of_match =
     (case rp_driver_override rpdev of
        Some ov \<Rightarrow> Returns (strcmp (c_chars ov) drv_name = 0)
      | None \<Rightarrow>
          (case id_table of None \<Rightarrow> Returns of_match
           | Some ids \<Rightarrow> bind_outcome (id_table_match rpdev ids) (\<lambda>m. Returns (m \<or> of_match))))"

section \<open>sysfs\<close>

definition name_show :: "rpmsg_device \<Rightarrow> u8 list" where
  "name_show r = cstr (rp_name r) @ [10]"

definition src_show :: "rpmsg_device \<Rightarrow> u8 list" where
  "src_show r = lit ''0x'' @ show_x (rp_src r) @ [10]"

definition dst_show :: "rpmsg_device \<Rightarrow> u8 list" where
  "dst_show r = lit ''0x'' @ show_x (rp_dst r) @ [10]"

definition announce_show :: "rpmsg_device \<Rightarrow> u8 list" where
  "announce_show r = (if rp_announce r then lit ''true'' else lit ''false'') @ [10]"

definition driver_override_show :: "rpmsg_device \<Rightarrow> u8 list" where
  "driver_override_show r =
     (case rp_driver_override r of None \<Rightarrow> lit ''(null)'' | Some c \<Rightarrow> cstr (c_chars c)) @ [10]"

text \<open>\<open>kfree\<close>: NULL is fine, a string that was not allocated is not.\<close>

fun kfree_string :: "c_string option \<Rightarrow> unit outcome" where
  "kfree_string None = Returns ()"
| "kfree_string (Some (Allocated _)) = Returns ()"
| "kfree_string (Some (Literal _)) = Faults"

text \<open>The flag \<open>mem_ok\<close> is whether \<open>kstrndup\<close> finds memory.\<close>

definition driver_override_store ::
  "bool \<Rightarrow> u8 list \<Rightarrow> nat \<Rightarrow> rpmsg_device \<Rightarrow> (int \<times> rpmsg_device) outcome" where
  "driver_override_store mem_ok buf sz r =
     (if \<not> mem_ok then Returns (- ENOMEM, r)
      else let dup = cstr (take sz buf);
               new = dup[strcspn dup 10 := 0];
               r1 = r\<lparr>rp_driver_override := (if strlen new \<noteq> 0 then Some (Allocated new) else None)\<rparr>
           in bind_outcome (kfree_string (rp_driver_override r)) (\<lambda>_. Returns (int sz, r1)))"

definition modalias :: "rpmsg_device \<Rightarrow> u8 list" where
  "modalias r = lit ''rpmsg:'' @ cstr (rp_name r)"

text \<open>\<open>of_ret\<close> is what \<open>of_device_modalias\<close> returned, with the text it left in the buffer.\<close>

definition modalias_show :: "int \<times> u8 list \<Rightarrow> rpmsg_device \<Rightarrow> int \<times> u8 list" where
  "modalias_show of_ret r =
     (if fst of_ret \<noteq> - ENODEV then of_ret
      else (int (length (modalias r @ [10])), modalias r @ [10]))"

text \<open>The environment is the list of the variables added to it; \<open>add_ret\<close> the result of adding.\<close>

definition rpmsg_uevent ::
  "int \<times> u8 list list \<Rightarrow> (u8 list \<Rightarrow> int) \<Rightarrow> rpmsg_device \<Rightarrow> u8 list list \<Rightarrow> int \<times> u8 list list" where
  "rpmsg_uevent of_ret add_ret r env =
     (if fst of_ret \<noteq> - ENODEV then of_ret
      else let v = lit ''MODALIAS='' @ modalias r
           in (add_ret v, if add_ret v = 0 then env @ [v] else env))"

section \<open>The driver core\<close>

text \<open>
  The functions of the driver core the rpmsg code calls on the children of one virtio
  device. \<open>device_register\<close> and \<open>device_unregister\<close> may run drivers. The observers of the
  laws are the list of registered children and the reference counts.
\<close>

record 's driver_core =
  device_find_child :: "(rpmsg_device \<Rightarrow> bool) \<Rightarrow> 's \<Rightarrow> addr option \<times> 's"
  device_register :: "addr \<Rightarrow> u8 list \<Rightarrow> 's \<Rightarrow> (int \<times> 's) outcome"
  device_unregister :: "addr \<Rightarrow> 's \<Rightarrow> 's outcome"
  put_device :: "addr \<Rightarrow> 's \<Rightarrow> 's outcome"

definition rpmsg_find_device ::
  "'s driver_core \<Rightarrow> rpmsg_channel_info \<Rightarrow> 's \<Rightarrow> addr option \<times> 's" where
  "rpmsg_find_device D chinfo s = device_find_child D (rpmsg_device_match chinfo) s"

definition rpmsg_dev_name :: "rpmsg_device \<Rightarrow> u8 list" where
  "rpmsg_dev_name r = cstr (rp_name r) @ 46 # show_d (int_of_u32 (rp_src r)) @ 46 # show_d (int_of_u32 (rp_dst r))"

definition rpmsg_register_device ::
  "('q, 'i, 'y) rpmsg_bus_scheme driver_core \<Rightarrow> addr \<Rightarrow> ('q, 'i, 'y) rpmsg_bus_scheme \<Rightarrow>
   (int \<times> ('q, 'i, 'y) rpmsg_bus_scheme) outcome" where
  "rpmsg_register_device D d s =
     bind_outcome (deref (rpdevs s) d) (\<lambda>r.
     bind_outcome (device_register D d (rpmsg_dev_name r) s) (\<lambda>(ret, s1).
       if ret \<noteq> 0 then bind_outcome (put_device D d s1) (\<lambda>s2. Returns (ret, s2))
       else Returns (ret, s1)))"

definition rpmsg_unregister_device ::
  "'s driver_core \<Rightarrow> rpmsg_channel_info \<Rightarrow> 's \<Rightarrow> (int \<times> 's) outcome" where
  "rpmsg_unregister_device D chinfo s =
     (case rpmsg_find_device D chinfo s of
        (None, s1) \<Rightarrow> Returns (- EINVAL, s1)
      | (Some d, s1) \<Rightarrow>
          bind_outcome (device_unregister D d s1) (\<lambda>s2.
          bind_outcome (put_device D d s2) (\<lambda>s3. Returns (0, s3))))"

text \<open>The helper of rpmsg_internal.h that prepares the device of the character driver.\<close>

definition rpmsg_chrdev_register_device ::
  "('q, 'i, 'y) rpmsg_bus_scheme driver_core \<Rightarrow> addr \<Rightarrow> ('q, 'i, 'y) rpmsg_bus_scheme \<Rightarrow>
   (int \<times> ('q, 'i, 'y) rpmsg_bus_scheme) outcome" where
  "rpmsg_chrdev_register_device D d s =
     bind_outcome (deref (rpdevs s) d) (\<lambda>r.
       rpmsg_register_device D d (s\<lparr>rpdevs := (rpdevs s)(d \<mapsto>
         r\<lparr>rp_name := lit ''rpmsg_chrdev'' @ 0 # drop 13 (rp_name r),
           rp_driver_override := Some (Literal (lit ''rpmsg_chrdev''))\<rparr>)\<rparr>))"

section \<open>Probe and remove\<close>

text \<open>A driver: the callback it registered, its probe and its remove.\<close>

record 's rpmsg_driver =
  drv_callback :: "rx_cb option"
  drv_probe :: "addr \<Rightarrow> 's \<Rightarrow> (int \<times> 's) outcome"
  drv_remove :: "(addr \<Rightarrow> 's \<Rightarrow> 's outcome) option"

definition dev_probe_create ::
  "('q, 'i, 'y) rpmsg_bus_scheme rpmsg_device_ops \<Rightarrow> addr option \<Rightarrow> rx_cb option \<Rightarrow> addr \<Rightarrow>
   ('q, 'i, 'y) rpmsg_bus_scheme \<Rightarrow> (int \<times> addr option \<times> ('q, 'i, 'y) rpmsg_bus_scheme) outcome" where
  "dev_probe_create DO kz callback d s =
     (case callback of None \<Rightarrow> Returns (0, None, s)
      | Some cb \<Rightarrow>
          bind_outcome (deref (rpdevs s) d) (\<lambda>r.
          bind_outcome (rpmsg_create_ept DO kz (Some d) cb Priv_null
              \<lparr>ch_name = strncpy (rp_name r) RPMSG_NAME_SIZE, ch_src = rp_src r, ch_dst = RPMSG_ADDR_ANY\<rparr> s)
            (\<lambda>(ept, s1).
              case ept of None \<Rightarrow> Returns (- ENOMEM, None, s1)
              | Some p \<Rightarrow>
                  bind_outcome (deref (rpdevs s1) d) (\<lambda>r1.
                  bind_outcome (deref (epts s1) p) (\<lambda>e.
                    Returns (0, Some p, s1\<lparr>rpdevs := (rpdevs s1)(d \<mapsto> r1\<lparr>rp_ept := Some p, rp_src := ep_addr e\<rparr>)\<rparr>))))))"

text \<open>\<open>pm\<close> is what \<open>dev_pm_domain_attach\<close> returned.\<close>

definition rpmsg_dev_probe ::
  "('q, 'i, 'y) rpmsg_bus_scheme rpmsg_device_ops \<Rightarrow> ('q, 'i, 'y) rpmsg_bus_scheme rpmsg_endpoint_ops \<Rightarrow>
   ('q, 'i, 'y) rpmsg_bus_scheme rpmsg_driver \<Rightarrow> int \<Rightarrow> addr option \<Rightarrow> addr \<Rightarrow>
   ('q, 'i, 'y) rpmsg_bus_scheme \<Rightarrow> (int \<times> ('q, 'i, 'y) rpmsg_bus_scheme) outcome" where
  "rpmsg_dev_probe DO EO drv pm kz d s =
     (if pm \<noteq> 0 then Returns (pm, s)
      else bind_outcome (dev_probe_create DO kz (drv_callback drv) d s) (\<lambda>(err, ept, s1).
        if err \<noteq> 0 then Returns (err, s1)
        else bind_outcome (drv_probe drv d s1) (\<lambda>(err2, s2).
          if err2 \<noteq> 0 then
            (case ept of None \<Rightarrow> Returns (err2, s2)
             | Some p \<Rightarrow> bind_outcome (rpmsg_destroy_ept EO (Some p) s2) (\<lambda>s3. Returns (err2, s3)))
          else (case (ept, op_announce_create DO) of
                  (Some p, Some announce) \<Rightarrow> announce d s2
                | _ \<Rightarrow> Returns (err2, s2)))))"

definition rpmsg_dev_remove ::
  "('q, 'i, 'y) rpmsg_bus_scheme rpmsg_device_ops \<Rightarrow> ('q, 'i, 'y) rpmsg_bus_scheme rpmsg_endpoint_ops \<Rightarrow>
   ('q, 'i, 'y) rpmsg_bus_scheme rpmsg_driver \<Rightarrow> addr \<Rightarrow>
   ('q, 'i, 'y) rpmsg_bus_scheme \<Rightarrow> (int \<times> ('q, 'i, 'y) rpmsg_bus_scheme) outcome" where
  "rpmsg_dev_remove DO EO drv d s =
     bind_outcome (case op_announce_destroy DO of None \<Rightarrow> Returns (0, s) | Some f \<Rightarrow> f d s) (\<lambda>(err, s1).
     bind_outcome (case drv_remove drv of None \<Rightarrow> Returns s1 | Some f \<Rightarrow> f d s1) (\<lambda>s2.
     bind_outcome (deref (rpdevs s2) d) (\<lambda>r.
     bind_outcome (case rp_ept r of None \<Rightarrow> Returns s2 | Some p \<Rightarrow> rpmsg_destroy_ept EO (Some p) s2) (\<lambda>s3.
       Returns (err, s3)))))"

section \<open>Matching and names\<close>

lemma device_match_iff:
  "rpmsg_device_match ch r \<longleftrightarrow>
     (ch_src ch = RPMSG_ADDR_ANY \<or> ch_src ch = rp_src r) \<and> (ch_dst ch = RPMSG_ADDR_ANY \<or> ch_dst ch = rp_dst r) \<and>
     cstr (take 32 (ch_name ch)) = cstr (take 32 (rp_name r))"
  by (auto simp: rpmsg_device_match_def strncmp_eq_0 RPMSG_NAME_SIZE_def)

lemma id_table_match_ends:
  "\<exists>i \<in> set ids. cstr i = [] \<Longrightarrow>
   id_table_match r ids = Returns (\<exists>i \<in> set (takeWhile (\<lambda>i. cstr i \<noteq> []) ids). rpmsg_id_match r i)"
proof (induction ids)
  case (Cons i ids)
  then show ?case by (cases "cstr i = []"; cases "rpmsg_id_match r i") simp_all
qed simp

lemma show_d_no_dot: "46 \<notin> set (show_d i)"
proof
  assume "46 \<in> set (show_d i)"
  then have "46 \<in> set (show_nat 10 (nat i)) \<or> 46 \<in> set (show_nat 10 (nat (- i)))"
    by (auto simp: show_d_def split: if_splits)
  then show False
    using show_nat_chars [of 10 46] by fastforce
qed

lemma last_dot_unique:
  assumes "xs @ c # ys = xs' @ c # ys'" and "c \<notin> set ys" and "c \<notin> set ys'"
  shows "xs = xs' \<and> ys = ys'"
proof -
  have split: "takeWhile (\<lambda>x. x \<noteq> c) (rev (us @ c # vs)) = rev vs" if "c \<notin> set vs" for us vs :: "'a list"
    using that by (auto simp: takeWhile_tail takeWhile_append1 intro!: trans [OF takeWhile_append2])
  from assms(1) have "rev ys = rev ys'"
    using split [OF assms(2), of xs] split [OF assms(3), of xs'] by simp
  with assms(1) show ?thesis by simp
qed

lemma int_of_u32_inj: "int_of_u32 a = int_of_u32 b \<longleftrightarrow> a = b"
  by (metis int_of_u32_def signed_word_eqI)

section \<open>A backend the core can probe on\<close>

text \<open>
  \<open>keeps_tables\<close> is a function that leaves the endpoints, the address table and the devices
  as they are (a driver's probe that creates nothing, an announcement). On top of the
  contract of a backend, the core uses that it keeps its endpoints in the state of the bus,
  leaves the devices alone, and does not look at the fields of a device that probing writes.
\<close>

definition keeps_tables where
  "keeps_tables bnd good dev f \<longleftrightarrow>
     (\<forall>s err s'. f s = Returns (err, s') \<longrightarrow>
        bnd s' = bnd s \<and> epts s' = epts s \<and> rpdevs s' = rpdevs s \<and> (good s \<longrightarrow> good s') \<and>
        (\<forall>d. dev d s' = dev d s))"

lemma keeps_tablesD:
  assumes "keeps_tables bnd good dev f" and "f s = Returns (err, s')"
  shows "bnd s' = bnd s" and "epts s' = epts s" and "rpdevs s' = rpdevs s" and "good s \<Longrightarrow> good s'"
    and "dev d s' = dev d s"
  using assms unfolding keeps_tables_def by blast+

locale core_backend = rpmsg_backend create destroy bound epts inv dev_ok
  for create :: "addr option \<Rightarrow> addr \<Rightarrow> rx_cb \<Rightarrow> priv \<Rightarrow> rpmsg_channel_info \<Rightarrow> ('q, 'i, 'y) rpmsg_bus_scheme \<Rightarrow>
        (addr option \<times> ('q, 'i, 'y) rpmsg_bus_scheme) outcome"
    and destroy :: "addr \<Rightarrow> ('q, 'i, 'y) rpmsg_bus_scheme \<Rightarrow> ('q, 'i, 'y) rpmsg_bus_scheme outcome"
    and bound :: "('q, 'i, 'y) rpmsg_bus_scheme \<Rightarrow> u32 \<Rightarrow> addr option"
    and inv :: "('q, 'i, 'y) rpmsg_bus_scheme \<Rightarrow> bool"
    and dev_ok :: "addr \<Rightarrow> ('q, 'i, 'y) rpmsg_bus_scheme \<Rightarrow> bool" +
  assumes dev_ok_dev: "dev_ok d s \<Longrightarrow> \<exists>r. rpdevs s d = Some r"
    and create_rpdevs: "inv s \<Longrightarrow> dev_ok d s \<Longrightarrow> create kz d cb pr ch s = Returns (q, s') \<Longrightarrow> rpdevs s' = rpdevs s"
    and destroy_rpdevs: "destroy p s = Returns s' \<Longrightarrow> rpdevs s' = rpdevs s"
    and dev_write: "rpdevs s d = Some r \<Longrightarrow>
      bound (s\<lparr>rpdevs := (rpdevs s)(d \<mapsto> r\<lparr>rp_ept := x, rp_src := a\<rparr>)\<rparr>) = bound s \<and>
      inv (s\<lparr>rpdevs := (rpdevs s)(d \<mapsto> r\<lparr>rp_ept := x, rp_src := a\<rparr>)\<rparr>) = inv s \<and>
      dev_ok d' (s\<lparr>rpdevs := (rpdevs s)(d \<mapsto> r\<lparr>rp_ept := x, rp_src := a\<rparr>)\<rparr>) = dev_ok d' s"
begin

text \<open>What the first half of a probe does, for a driver with a callback.\<close>

lemma probe_create_cases:
  assumes "inv s" and "dev_ok d s" and "rpdevs s d = Some r" and DO: "op_create_ept DO = create"
    and fresh: "\<And>p. kz = Some p \<Longrightarrow> epts s p = None"
  obtains (none) s1 where "dev_probe_create DO kz (Some cb) d s = Returns (- ENOMEM, None, s1)"
    and "inv s1" and "bound s1 = bound s" and "epts s1 = epts s" and "rpdevs s1 = rpdevs s"
  | (some) p a s1 where "dev_probe_create DO kz (Some cb) d s = Returns (0, Some p, s1)"
    and "inv s1" and "dev_ok d s1" and "bound s a = None" and "bound s1 = (bound s)(a \<mapsto> p)"
    and "epts s p = None"
    and "epts s1 = (epts s)(p \<mapsto> \<lparr>ep_rpdev = Some d, ep_cb = Some cb, ep_priv = Priv_null, ep_addr = a, ep_refcount = 1\<rparr>)"
    and "rpdevs s1 = (rpdevs s)(d \<mapsto> r\<lparr>rp_ept := Some p, rp_src := a\<rparr>)"
    and "rp_src r \<noteq> RPMSG_ADDR_ANY \<Longrightarrow> a = rp_src r"
proof -
  let ?ch = "\<lparr>ch_name = strncpy (rp_name r) RPMSG_NAME_SIZE, ch_src = rp_src r, ch_dst = RPMSG_ADDR_ANY\<rparr>"
  obtain q s' where mk: "create kz d cb Priv_null ?ch s = Returns (q, s')"
    using create_returns [OF assms(1,2)] by blast
  note devs = create_rpdevs [OF assms(1,2) mk] and dev = create_dev [OF assms(1,2) mk]
  show thesis
  proof (cases q)
    case None
    with mk have "inv s' \<and> bound s' = bound s \<and> epts s' = epts s"
      using create_None [OF assms(1,2) fresh] by blast
    moreover have "dev_probe_create DO kz (Some cb) d s = Returns (- ENOMEM, None, s')"
      using mk None assms(3) by (simp add: dev_probe_create_def rpmsg_create_ept_def DO)
    ultimately show thesis using none devs by blast
  next
    case (Some p)
    with mk have "create kz d cb Priv_null ?ch s = Returns (Some p, s')" by simp
    from create_Some [OF assms(1,2) fresh this] obtain a where kz: "kz = Some p" and i: "inv s'"
      and a: "bound s a = None" "bound s' = (bound s)(a \<mapsto> p)"
        "epts s' = (epts s)(p \<mapsto> \<lparr>ep_rpdev = Some d, ep_cb = Some cb, ep_priv = Priv_null, ep_addr = a, ep_refcount = 1\<rparr>)"
        "rp_src r \<noteq> RPMSG_ADDR_ANY \<Longrightarrow> a = rp_src r"
      by (auto split: if_splits)
    let ?s1 = "s'\<lparr>rpdevs := (rpdevs s')(d \<mapsto> r\<lparr>rp_ept := Some p, rp_src := a\<rparr>)\<rparr>"
    have r: "rpdevs s' d = Some r" using devs assms(3) by simp
    have "dev_probe_create DO kz (Some cb) d s = Returns (0, Some p, ?s1)"
      using mk Some assms(3) r a(3) by (simp add: dev_probe_create_def rpmsg_create_ept_def DO)
    then show thesis
      by (rule some [where a = a])
        (use dev_write [where x = "Some p" and a = a and d' = d, OF r] i a dev assms(2) devs fresh [OF kz] in simp_all)
  qed
qed

lemma destroy_bound:
  assumes "inv s" and "epts s p = Some e" and "ep_rpdev e = Some d" and "dev_ok d s" and "ep_refcount e = 1"
    and "op_destroy_ept EO = destroy"
  shows "\<exists>s'. rpmsg_destroy_ept EO (Some p) s = Returns s' \<and> inv s' \<and> bound s' = (bound s)(ep_addr e := None) \<and>
    epts s' = (epts s)(p := None) \<and> rpdevs s' = rpdevs s"
  using destroy_drop [OF assms(1-5)] destroy_rpdevs assms(2,6) by (fastforce simp: rpmsg_destroy_ept_def)

text \<open>A driver that refuses the device: the endpoint is gone again, the device still points to it.\<close>

lemma probe_failure:
  assumes "inv s" and "dev_ok d s" and "rpdevs s d = Some r"
    and ops: "op_create_ept DO = create" "op_destroy_ept EO = destroy"
    and fresh: "\<And>p. kz = Some p \<Longrightarrow> epts s p = None"
    and cb: "drv_callback drv = Some cb" and keeps: "keeps_tables bound inv dev_ok (drv_probe drv d)"
    and refuses: "\<And>s. \<exists>s'. drv_probe drv d s = Returns (err, s')" and "err \<noteq> 0"
  shows "\<exists>err' s'. rpmsg_dev_probe DO EO drv 0 kz d s = Returns (err', s') \<and> inv s' \<and>
    bound s' = bound s \<and> epts s' = epts s \<and>
    (err' = - ENOMEM \<and> rpdevs s' = rpdevs s \<or>
     err' = err \<and> (\<exists>r' p. rpdevs s' d = Some r' \<and> rp_ept r' = Some p \<and> epts s' p = None))"
proof (rule probe_create_cases [where cb = cb, OF assms(1-3) ops(1) fresh])
  fix s1 assume n: "dev_probe_create DO kz (Some cb) d s = Returns (- ENOMEM, None, s1)"
    "inv s1" "bound s1 = bound s" "epts s1 = epts s" "rpdevs s1 = rpdevs s"
  then have "rpmsg_dev_probe DO EO drv 0 kz d s = Returns (- ENOMEM, s1)"
    using cb by (simp add: rpmsg_dev_probe_def)
  with n show ?thesis by auto
next
  fix p a s1
  assume n: "dev_probe_create DO kz (Some cb) d s = Returns (0, Some p, s1)"
    "inv s1" "dev_ok d s1" "bound s a = None" "bound s1 = (bound s)(a \<mapsto> p)" "epts s p = None"
    "epts s1 = (epts s)(p \<mapsto> \<lparr>ep_rpdev = Some d, ep_cb = Some cb, ep_priv = Priv_null, ep_addr = a, ep_refcount = 1\<rparr>)"
    "rpdevs s1 = (rpdevs s)(d \<mapsto> r\<lparr>rp_ept := Some p, rp_src := a\<rparr>)"
  obtain s2 where pr: "drv_probe drv d s1 = Returns (err, s2)" using refuses by blast
  note k = keeps_tablesD [OF keeps pr]
  have i2: "inv s2" and d2: "dev_ok d s2"
    and e2: "epts s2 p = Some \<lparr>ep_rpdev = Some d, ep_cb = Some cb, ep_priv = Priv_null, ep_addr = a, ep_refcount = 1\<rparr>"
    using k n(2,3,7) by simp_all
  obtain s3 where d: "rpmsg_destroy_ept EO (Some p) s2 = Returns s3" "inv s3" "bound s3 = (bound s2)(a := None)"
    "epts s3 = (epts s2)(p := None)" "rpdevs s3 = rpdevs s2"
    using destroy_bound [OF i2 e2 _ d2 _ ops(2)] by auto
  have "rpmsg_dev_probe DO EO drv 0 kz d s = Returns (err, s3)"
    using n(1) pr d(1) cb assms(10) by (simp add: rpmsg_dev_probe_def)
  moreover have "bound s3 = bound s" "epts s3 = epts s"
    using d n k by (simp_all add: fun_upd_idem)
  ultimately show ?thesis using d(2,5) n(6,8) k(3) by simp
qed

text \<open>A driver that accepts it.\<close>

lemma probe_success:
  assumes "inv s" and "dev_ok d s" and "rpdevs s d = Some r"
    and ops: "op_create_ept DO = create"
    and fresh: "\<And>p. kz = Some p \<Longrightarrow> epts s p = None"
    and cb: "drv_callback drv = Some cb" and keeps: "keeps_tables bound inv dev_ok (drv_probe drv d)"
    and announce: "op_announce_create DO = Some f" and quiet: "keeps_tables bound inv dev_ok (f d)"
    and ret: "rpmsg_dev_probe DO EO drv 0 kz d s = Returns (0, s')"
  shows "\<exists>p r'. rpdevs s' d = Some r' \<and> rp_ept r' = Some p \<and> bound s (rp_src r') = None \<and>
    bound s' = (bound s)(rp_src r' \<mapsto> p) \<and> inv s' \<and> dev_ok d s' \<and> epts s p = None \<and>
    epts s' = (epts s)(p \<mapsto> \<lparr>ep_rpdev = Some d, ep_cb = Some cb, ep_priv = Priv_null, ep_addr = rp_src r', ep_refcount = 1\<rparr>)"
proof (rule probe_create_cases [where cb = cb, OF assms(1-3) ops(1) fresh])
  fix s1 assume "dev_probe_create DO kz (Some cb) d s = Returns (- ENOMEM, None, s1)"
  with ret cb show ?thesis by (simp add: rpmsg_dev_probe_def)
next
  fix p a s1
  assume n: "dev_probe_create DO kz (Some cb) d s = Returns (0, Some p, s1)"
    "inv s1" "dev_ok d s1" "bound s a = None" "bound s1 = (bound s)(a \<mapsto> p)" "epts s p = None"
    "epts s1 = (epts s)(p \<mapsto> \<lparr>ep_rpdev = Some d, ep_cb = Some cb, ep_priv = Priv_null, ep_addr = a, ep_refcount = 1\<rparr>)"
    "rpdevs s1 = (rpdevs s)(d \<mapsto> r\<lparr>rp_ept := Some p, rp_src := a\<rparr>)"
  obtain s2 where pr: "drv_probe drv d s1 = Returns (0, s2)" and an: "f d s2 = Returns (0, s')"
    using ret n(1) cb announce by (auto simp: rpmsg_dev_probe_def split: if_splits option.splits)
  note k = keeps_tablesD [OF keeps pr] keeps_tablesD [OF quiet an]
  show ?thesis
    using n k by (intro exI [of _ p] exI [of _ "r\<lparr>rp_ept := Some p, rp_src := a\<rparr>"]) simp
qed

text \<open>Removing after probing gives the endpoint and its address back.\<close>

lemma remove_probed:
  assumes "inv s" and "dev_ok d s" and "rpdevs s d = Some r" and "rp_ept r = Some p"
    and e: "epts s p = Some e" "ep_rpdev e = Some d" "ep_refcount e = 1"
    and ops: "op_destroy_ept EO = destroy" "op_announce_destroy DO = Some f" "drv_remove drv = None"
    and quiet: "keeps_tables bound inv dev_ok (f d)" and ret: "f d s = Returns (err, s1)"
  shows "\<exists>s'. rpmsg_dev_remove DO EO drv d s = Returns (err, s') \<and> inv s' \<and>
    bound s' = (bound s)(ep_addr e := None) \<and> epts s' = (epts s)(p := None)"
proof -
  note k = keeps_tablesD [OF quiet ret]
  have i1: "inv s1" and d1: "dev_ok d s1" and e1: "epts s1 p = Some e" "rpdevs s1 d = Some r"
    using k assms(1-3) e(1) by simp_all
  obtain s2 where d: "rpmsg_destroy_ept EO (Some p) s1 = Returns s2" "inv s2"
    "bound s2 = (bound s1)(ep_addr e := None)" "epts s2 = (epts s1)(p := None)"
    using destroy_bound [OF i1 e1(1) e(2) d1 e(3) ops(1)] by blast
  have "rpmsg_dev_remove DO EO drv d s = Returns (err, s2)"
    using d(1) e1(2) assms(4) ops(2,3) ret by (simp add: rpmsg_dev_remove_def)
  with d k show ?thesis by simp
qed

end

lemma virtio_destroy_rpdevs: "virtio_rpmsg_destroy_ept K p s = Returns s' \<Longrightarrow> rpdevs s' = rpdevs s"
  by (auto simp: virtio_rpmsg_destroy_ept_def do_rpmsg_destroy_ept_def ept_unbind_def ept_clear_cb_def
      ept_kref_put_def split: option.splits if_splits)

interpretation vcb: core_backend "virtio_rpmsg_create_ept K" "virtio_rpmsg_destroy_ept K" "bound_at K"
  "epts_wf K" channel_ok for K :: "('q, 'i, 'z) kernel_scheme"
proof
  show "channel_ok d s \<Longrightarrow> \<exists>r. rpdevs s d = Some r" for d and s :: "('q, 'i, 'y) rpmsg_bus_scheme"
    by (auto simp: channel_ok_def)
  show "channel_ok d s \<Longrightarrow> virtio_rpmsg_create_ept K kz d cb pr ch s = Returns (q, s') \<Longrightarrow> rpdevs s' = rpdevs s"
    for d kz cb pr ch q and s s' :: "('q, 'i, 'y) rpmsg_bus_scheme"
    by (simp add: virtio_create_eq do_create_rpdevs)
  show "virtio_rpmsg_destroy_ept K p s = Returns s' \<Longrightarrow> rpdevs s' = rpdevs s"
    for p and s s' :: "('q, 'i, 'y) rpmsg_bus_scheme"
    by (rule virtio_destroy_rpdevs)
  show "rpdevs s d = Some r \<Longrightarrow>
      bound_at K (s\<lparr>rpdevs := (rpdevs s)(d \<mapsto> r\<lparr>rp_ept := x, rp_src := a\<rparr>)\<rparr>) = bound_at K s \<and>
      epts_wf K (s\<lparr>rpdevs := (rpdevs s)(d \<mapsto> r\<lparr>rp_ept := x, rp_src := a\<rparr>)\<rparr>) = epts_wf K s \<and>
      channel_ok d' (s\<lparr>rpdevs := (rpdevs s)(d \<mapsto> r\<lparr>rp_ept := x, rp_src := a\<rparr>)\<rparr>) = channel_ok d' s"
    for d d' r x a and s :: "('q, 'i, 'y) rpmsg_bus_scheme"
    by (auto simp: epts_wf_def channel_ok_def)
qed

section \<open>The properties of the core\<close>

text \<open>
  On a live endpoint of a device, each of the six send calls of the core is one raw
  send of the bus: from the endpoint's address or the given one, to the device's
  destination or the given one, waiting for a buffer unless it is a try. On a NULL endpoint
  each is \<open>-EINVAL\<close>, and nothing changes.
\<close>

lemma sends_reach_bus:
  assumes "epts s p = Some e" and "ep_rpdev e = Some d" and "rpdevs s d = Some r"
  shows "rpmsg_send (virtio_endpoint_ops K w) (Some p) data len s =
       rpmsg_send_offchannel_raw K w r (ep_addr e) (rp_dst r) data len True s \<and>
     rpmsg_sendto (virtio_endpoint_ops K w) (Some p) data len dst s =
       rpmsg_send_offchannel_raw K w r (ep_addr e) dst data len True s \<and>
     rpmsg_send_offchannel (virtio_endpoint_ops K w) (Some p) src dst data len s =
       rpmsg_send_offchannel_raw K w r src dst data len True s \<and>
     rpmsg_trysend (virtio_endpoint_ops K w) (Some p) data len s =
       rpmsg_send_offchannel_raw K w r (ep_addr e) (rp_dst r) data len False s \<and>
     rpmsg_trysendto (virtio_endpoint_ops K w) (Some p) data len dst s =
       rpmsg_send_offchannel_raw K w r (ep_addr e) dst data len False s \<and>
     rpmsg_trysend_offchannel (virtio_endpoint_ops K w) (Some p) src dst data len s =
       rpmsg_send_offchannel_raw K w r src dst data len False s \<and>
     rpmsg_send EO None data len s = Returns (- EINVAL, s) \<and>
     rpmsg_trysend_offchannel EO None src dst data len s = Returns (- EINVAL, s)"
  using assms
  by (simp add: rpmsg_send_def rpmsg_sendto_def rpmsg_send_offchannel_def rpmsg_trysend_def rpmsg_trysendto_def
      rpmsg_trysend_offchannel_def ept_dispatch_def virtio_endpoint_ops_def ept_and_rpdev_def
      virtio_rpmsg_send_def virtio_rpmsg_sendto_def virtio_rpmsg_send_offchannel_def
      virtio_rpmsg_trysend_def virtio_rpmsg_trysendto_def virtio_rpmsg_trysend_offchannel_def)

lemma sends_reach_bus_witness:
  "rpmsg_sendto (virtio_endpoint_ops sim_kernel (\<lambda>i. ([], Timed_out))) (Some 2) (bytes_of []) 0 53 sim_bus =
     rpmsg_send_offchannel_raw sim_kernel (\<lambda>i. ([], Timed_out)) sim_rpdev 1024 53 (bytes_of []) 0 True sim_bus"
proof -
  have "epts sim_bus 2 = Some sim_ept" "ep_rpdev sim_ept = Some 1" "rpdevs sim_bus 1 = Some sim_rpdev"
    and a: "ep_addr sim_ept = 1024"
    by (simp_all add: sim_bus_def sim_ept_def)
  from sends_reach_bus [OF this(1-3), of sim_kernel "(\<lambda>i. ([], Timed_out))" "bytes_of []" 0 53] show ?thesis
    unfolding a by blast
qed

lemma strlen_update_newline:
  assumes "0 \<notin> set buf"
  shows "cstr (buf[strcspn buf 10 := 0]) = takeWhile (\<lambda>c. c \<noteq> 10) buf"
proof -
  have c: "cstr buf = buf" using assms by (induction buf) auto
  have "cstr (buf[length (takeWhile (\<lambda>c. c \<noteq> 10) buf) := 0]) = takeWhile (\<lambda>c. c \<noteq> 10) buf"
    using assms by (induction buf) auto
  then show ?thesis by (simp add: strcspn_def c)
qed

text \<open>
  Writing a line to \<open>driver_override\<close> stores it up to the newline: reading it back
  gives the line, and from then on the device matches exactly the driver of that name,
  whatever the id table says; an empty line takes the override away. The old value must
  have been allocated or NULL.
\<close>

lemma override_store_show:
  assumes "0 \<notin> set buf" and "\<forall>l. rp_driver_override r \<noteq> Some (Literal l)"
  shows "\<exists>r'. driver_override_store True buf (length buf) r = Returns (int (length buf), r') \<and>
    (let line = takeWhile (\<lambda>c. c \<noteq> 10) buf
     in if line = [] then rp_driver_override r' = None
        else driver_override_show r' = line @ [10] \<and>
          (\<forall>drv ids of_match. rpmsg_dev_match r' drv ids of_match = Returns (cstr drv = line)))"
proof -
  let ?new = "buf[strcspn buf 10 := 0]"
  have dup: "cstr (take (length buf) buf) = buf" using assms(1) by simp (induction buf; auto)
  have new: "cstr ?new = takeWhile (\<lambda>c. c \<noteq> 10) buf" by (rule strlen_update_newline [OF assms(1)])
  have free: "kfree_string (rp_driver_override r) = Returns ()"
    using assms(2) by (cases "rp_driver_override r" rule: kfree_string.cases) auto
  have "driver_override_store True buf (length buf) r =
    Returns (int (length buf), r\<lparr>rp_driver_override := (if strlen ?new \<noteq> 0 then Some (Allocated ?new) else None)\<rparr>)"
    unfolding driver_override_store_def Let_def dup free by simp
  then show ?thesis
    by (auto simp: Let_def strlen_def new driver_override_show_def rpmsg_dev_match_def strcmp_eq_0)
qed

lemma override_store_show_witness:
  "\<exists>r'. driver_override_store True (lit ''abc'' @ [10]) (length (lit ''abc'' @ [10])) sim_rpdev = Returns (4, r') \<and>
     driver_override_show r' = lit ''abc'' @ [10]"
proof -
  have "0 \<notin> set (lit ''abc'' @ [10])" and "takeWhile (\<lambda>c. c \<noteq> 10) (lit ''abc'' @ [10]) = lit ''abc''"
    by (simp_all add: lit_def of_char_def)
  moreover have "\<forall>l. rp_driver_override sim_rpdev \<noteq> Some (Literal l)" by (simp add: sim_rpdev_def)
  ultimately show ?thesis
    using override_store_show [of "lit ''abc'' @ [10]" sim_rpdev] by (auto simp: Let_def lit_def)
qed

text \<open>
  Preparing the device of the character driver makes it match that driver and nothing
  else. But the override it stores is a string literal, so the first write to
  \<open>driver_override\<close> that finds memory hands a literal to \<open>kfree\<close>.
\<close>

lemma chrdev_override_literal:
  assumes "rpdevs s d = Some r" and "\<And>n t. device_register D d n t = Returns (0, t)"
  shows "\<exists>s' r'. rpmsg_chrdev_register_device D d s = Returns (0, s') \<and> rpdevs s' d = Some r' \<and>
    name_show r' = lit ''rpmsg_chrdev'' @ [10] \<and>
    (\<forall>drv ids of_match. rpmsg_dev_match r' drv ids of_match = Returns (cstr drv = lit ''rpmsg_chrdev'')) \<and>
    (\<forall>buf sz. driver_override_store True buf sz r' = Faults)"
proof -
  let ?r = "r\<lparr>rp_name := lit ''rpmsg_chrdev'' @ 0 # drop 13 (rp_name r),
      rp_driver_override := Some (Literal (lit ''rpmsg_chrdev''))\<rparr>"
  let ?s = "s\<lparr>rpdevs := (rpdevs s)(d \<mapsto> ?r)\<rparr>"
  have nn: "0 \<notin> set (lit ''rpmsg_chrdev'')" by (simp add: lit_def)
  then have c: "cstr (lit ''rpmsg_chrdev'') = lit ''rpmsg_chrdev''"
    using cstr_append_replicate [OF nn, of 0] by simp
  have "rpmsg_chrdev_register_device D d s = Returns (0, ?s)"
    using assms by (simp add: rpmsg_chrdev_register_device_def rpmsg_register_device_def)
  moreover have "name_show ?r = lit ''rpmsg_chrdev'' @ [10]"
    by (simp add: name_show_def cstr_append_nul [OF nn])
  moreover have "\<forall>drv ids of_match. rpmsg_dev_match ?r drv ids of_match = Returns (cstr drv = lit ''rpmsg_chrdev'')"
    by (auto simp: rpmsg_dev_match_def strcmp_eq_0 c)
  moreover have "\<forall>buf sz. driver_override_store True buf sz ?r = Faults"
    by (simp add: driver_override_store_def Let_def)
  ultimately show ?thesis by (intro exI [of _ ?s] exI [of _ ?r]) simp
qed

definition quiet_driver_core :: "('q, 'i, 'y) rpmsg_bus_scheme driver_core" where
  "quiet_driver_core = \<lparr>device_find_child = (\<lambda>m s. (None, s)), device_register = (\<lambda>d n s. Returns (0, s)),
     device_unregister = (\<lambda>d s. Returns s), put_device = (\<lambda>d s. Returns s)\<rparr>"

lemma chrdev_override_literal_witness:
  "\<exists>s' r'. rpmsg_chrdev_register_device quiet_driver_core 1 sim_bus = Returns (0, s') \<and> rpdevs s' 1 = Some r' \<and>
     driver_override_store True [120, 10] 2 r' = Faults"
proof -
  have "rpdevs sim_bus 1 = Some sim_rpdev" by (simp add: sim_bus_def)
  from chrdev_override_literal [OF this, of quiet_driver_core] show ?thesis
    by (auto simp: quiet_driver_core_def)
qed

text \<open>
  The name a device is registered under determines its service name, source and
  destination, and nothing else enters it: two channels of different remote processors with
  the same service and addresses get the same device name.
\<close>

lemma dev_name_determines:
  "rpmsg_dev_name r = rpmsg_dev_name r' \<longleftrightarrow>
     cstr (rp_name r) = cstr (rp_name r') \<and> rp_src r = rp_src r' \<and> rp_dst r = rp_dst r'"
proof (rule iffI)
  let ?n = "\<lambda>r. cstr (rp_name r)" and ?a = "\<lambda>r. show_d (int_of_u32 (rp_src r))"
    and ?b = "\<lambda>r. show_d (int_of_u32 (rp_dst r))"
  assume "rpmsg_dev_name r = rpmsg_dev_name r'"
  then have eq: "(?n r @ 46 # ?a r) @ 46 # ?b r = (?n r' @ 46 # ?a r') @ 46 # ?b r'"
    by (simp add: rpmsg_dev_name_def)
  from last_dot_unique [OF eq show_d_no_dot show_d_no_dot]
  have 1: "?n r @ 46 # ?a r = ?n r' @ 46 # ?a r'" and b: "?b r = ?b r'" by auto
  from last_dot_unique [OF 1 show_d_no_dot show_d_no_dot]
  have "?n r = ?n r'" and a: "?a r = ?a r'" by auto
  with show_d_inj [OF a] show_d_inj [OF b]
  show "cstr (rp_name r) = cstr (rp_name r') \<and> rp_src r = rp_src r' \<and> rp_dst r = rp_dst r'"
    by (simp add: int_of_u32_inj)
qed (simp add: rpmsg_dev_name_def)

text \<open>
  C31. Without an override, a device matches a driver when an id before the empty one that
  ends the driver's table agrees with the device's name in its first 32 characters, or when
  the device tree says so; the loop over the table ends.
\<close>

theorem dev_match_ids:
  assumes "rp_driver_override r = None" and "\<exists>i \<in> set ids. cstr i = []"
  shows "rpmsg_dev_match r drv (Some ids) of_match =
    Returns ((\<exists>i \<in> set (takeWhile (\<lambda>i. cstr i \<noteq> []) ids). cstr (take 32 i) = cstr (take 32 (rp_name r))) \<or> of_match)"
  using assms(1) id_table_match_ends [OF assms(2), of r]
  by (simp add: rpmsg_dev_match_def rpmsg_id_match_def strncmp_eq_0 RPMSG_NAME_SIZE_def)

theorem dev_match_ids_witness:
  "rpmsg_dev_match sim_rpdev (lit ''x'') (Some [lit ''echo'', []]) False =
     Returns (cstr (take 32 (lit ''echo'')) = cstr (take 32 (rp_name sim_rpdev)))"
proof -
  have n: "cstr (lit ''echo'') \<noteq> []" by (simp add: lit_def)
  have "rp_driver_override sim_rpdev = None" by (simp add: sim_rpdev_def)
  from dev_match_ids [OF this, of "[lit ''echo'', []]" "lit ''x''" False] n show ?thesis by simp
qed

text \<open>
  When a driver with a callback refuses a channel, or no endpoint can be made for it,
  the address table and the heap of endpoints are what they were before the probe. But the
  device keeps the pointer to the endpoint that was just freed.
\<close>

lemma failed_probe_undone:
  assumes "epts_wf K s" and "channel_ok d s" and "rpdevs s d = Some r"
    and "op_create_ept DO = virtio_rpmsg_create_ept K" and "op_destroy_ept EO = virtio_rpmsg_destroy_ept K"
    and "\<And>p. kz = Some p \<Longrightarrow> epts s p = None"
    and "drv_callback drv = Some cb" and "keeps_tables (bound_at K) (epts_wf K) channel_ok (drv_probe drv d)"
    and "\<And>s. \<exists>s'. drv_probe drv d s = Returns (err, s')" and "err \<noteq> 0"
  shows "\<exists>err' s'. rpmsg_dev_probe DO EO drv 0 kz d s = Returns (err', s') \<and> epts_wf K s' \<and>
    bound_at K s' = bound_at K s \<and> epts s' = epts s \<and>
    (err' = - ENOMEM \<and> rpdevs s' = rpdevs s \<or>
     err' = err \<and> (\<exists>r' p. rpdevs s' d = Some r' \<and> rp_ept r' = Some p \<and> epts s' p = None))"
  by (rule vcb.probe_failure [where drv = drv, OF assms])

definition sim_refusing_driver :: "(sim_vq, (u32 \<times> addr) list) rpmsg_bus rpmsg_driver" where
  "sim_refusing_driver = \<lparr>drv_callback = Some (Driver_cb 0), drv_probe = (\<lambda>d s. Returns (- 19, s)), drv_remove = None\<rparr>"

lemma failed_probe_undone_witness:
  "\<exists>err' s'. rpmsg_dev_probe \<lparr>op_create_ept = virtio_rpmsg_create_ept sim_kernel, op_announce_create = None,
        op_announce_destroy = None\<rparr> (virtio_endpoint_ops sim_kernel (\<lambda>i. ([], Timed_out))) sim_refusing_driver 0 (Some 3) 1 sim_bus =
      Returns (err', s') \<and> epts s' = epts sim_bus"
proof -
  have r: "rpdevs sim_bus 1 = Some sim_rpdev" by (simp add: sim_bus_def)
  have "keeps_tables (bound_at sim_kernel) (epts_wf sim_kernel) channel_ok (drv_probe sim_refusing_driver 1)"
    by (simp add: keeps_tables_def sim_refusing_driver_def)
  from failed_probe_undone [OF sim_epts_wf sim_channel_ok r _ _ _ _ this, of
      "\<lparr>op_create_ept = virtio_rpmsg_create_ept sim_kernel, op_announce_create = None, op_announce_destroy = None\<rparr>"
      "virtio_endpoint_ops sim_kernel (\<lambda>i. ([], Timed_out))" "Some 3" "Driver_cb 0" "- 19"]
  show ?thesis
    by (auto simp: sim_refusing_driver_def virtio_endpoint_ops_def sim_bus_def)
qed

end
