(* ===== verification/RxPath.thy ===== *)
theory RxPath
  imports Endpoints
begin

text \<open>
  The receive path of virtio_rpmsg_bus.c: \<open>rpmsg_recv_single\<close> and the loop
  \<open>rpmsg_recv_done\<close>. A callback is reached through a function pointer, so both take the
  meaning of the callbacks as the argument \<open>invoke\<close>; the locale \<open>rx_callbacks\<close> states what
  the receive path expects of them. The callback's return value is ignored by the code.
\<close>

section \<open>One message\<close>

type_synonym 's invoker =
  "rx_cb \<Rightarrow> addr option \<Rightarrow> addr \<Rightarrow> int \<Rightarrow> priv \<Rightarrow> u32 \<Rightarrow> 's \<Rightarrow> 's outcome"

text \<open>
  The test of the length: \<open>len - sizeof(struct rpmsg_hdr)\<close> is a \<open>size_t\<close>.
\<close>

definition rx_too_big :: "u32 \<Rightarrow> u32 \<Rightarrow> u16 \<Rightarrow> bool" where
  "rx_too_big bufsize len msg_len \<longleftrightarrow>
     bufsize < len \<or> (ucast len :: u64) - of_nat sizeof_rpmsg_hdr < ucast msg_len"

text \<open>The region under \<open>cb_lock\<close>.\<close>

definition ept_call ::
  "('q, 'i, 'y) rpmsg_bus_scheme invoker \<Rightarrow> addr \<Rightarrow> addr \<Rightarrow> ('q, 'i, 'y) rpmsg_bus_scheme \<Rightarrow>
   ('q, 'i, 'y) rpmsg_bus_scheme outcome" where
  "ept_call invoke p msg s =
     bind_outcome (deref (epts s) p) (\<lambda>e.
       case ep_cb e of None \<Rightarrow> Returns s
       | Some cb \<Rightarrow> invoke cb (ep_rpdev e) (msg + sizeof_rpmsg_hdr) (uint (hdr_len (hdr_load (mem s) msg)))
                      (ep_priv e) (hdr_src (hdr_load (mem s) msg)) s)"

definition requeue_rx_buf ::
  "('q, 'i, 'z) kernel_scheme \<Rightarrow> addr \<Rightarrow> ('q, 'i, 'y) rpmsg_bus_scheme \<Rightarrow>
   int \<times> ('q, 'i, 'y) rpmsg_bus_scheme" where
  "requeue_rx_buf K msg s =
     (case virtqueue_add_inbuf K (rvq (vrp s)) (rpmsg_sg_init K msg (buf_size (vrp s))) msg of
        (err, q) \<Rightarrow> (if err < 0 then err else 0, s\<lparr>vrp := (vrp s)\<lparr>rvq := q\<rparr>\<rparr>))"

definition rpmsg_recv_single ::
  "('q, 'i, 'z) kernel_scheme \<Rightarrow> ('q, 'i, 'y) rpmsg_bus_scheme invoker \<Rightarrow> addr \<Rightarrow> u32 \<Rightarrow>
   ('q, 'i, 'y) rpmsg_bus_scheme \<Rightarrow> (int \<times> ('q, 'i, 'y) rpmsg_bus_scheme) outcome" where
  "rpmsg_recv_single K invoke msg len s =
     (if rx_too_big (buf_size (vrp s)) len (hdr_len (hdr_load (mem s) msg)) then Returns (- EINVAL, s)
      else bind_outcome (ept_find_get K (hdr_dst (hdr_load (mem s) msg)) s) (\<lambda>(r, s1).
        bind_outcome
          (case r of None \<Rightarrow> Returns s1
           | Some p \<Rightarrow> bind_outcome (ept_call invoke p msg s1) (ept_kref_put p))
          (\<lambda>s2. Returns (requeue_rx_buf K msg s2))))"

section \<open>The interrupt\<close>

text \<open>
  The loop over the used buffers, with the number of messages received so far; \<open>None\<close> is
  a loop that never ends.
\<close>

partial_function (option) recv_loop ::
  "('q, 'i, 'z) kernel_scheme \<Rightarrow> ('q, 'i, 'y) rpmsg_bus_scheme invoker \<Rightarrow> (addr \<times> u32) option \<Rightarrow> u32 \<Rightarrow>
   ('q, 'i, 'y) rpmsg_bus_scheme \<Rightarrow> (u32 \<times> ('q, 'i, 'y) rpmsg_bus_scheme) outcome option" where
  "recv_loop K invoke b n s =
     (case b of None \<Rightarrow> Some (Returns (n, s))
      | Some (msg, len) \<Rightarrow>
          (case rpmsg_recv_single K invoke msg len s of
             Faults \<Rightarrow> Some Faults
           | Hangs \<Rightarrow> Some Hangs
           | Returns (err, s1) \<Rightarrow>
               if err \<noteq> 0 then Some (Returns (n, s1))
               else (case virtqueue_get_buf K (rvq (vrp s1)) of
                       (b', q) \<Rightarrow> recv_loop K invoke b' (n + 1) (s1\<lparr>vrp := (vrp s1)\<lparr>rvq := q\<rparr>\<rparr>))))"

definition rpmsg_recv_done ::
  "('q, 'i, 'z) kernel_scheme \<Rightarrow> ('q, 'i, 'y) rpmsg_bus_scheme invoker \<Rightarrow>
   ('q, 'i, 'y) rpmsg_bus_scheme \<Rightarrow> ('q, 'i, 'y) rpmsg_bus_scheme outcome" where
  "rpmsg_recv_done K invoke s =
     (case virtqueue_get_buf K (rvq (vrp s)) of
        (b, q) \<Rightarrow>
          let s0 = s\<lparr>vrp := (vrp s)\<lparr>rvq := q\<rparr>\<rparr>
          in case b of None \<Rightarrow> Returns s0
             | Some m \<Rightarrow>
                 (case recv_loop K invoke (Some m) 0 s0 of
                    None \<Rightarrow> Hangs
                  | Some r \<Rightarrow> bind_outcome r (\<lambda>(n, s1).
                      Returns (if n \<noteq> 0 then s1\<lparr>vrp := (vrp s1)\<lparr>rvq := virtqueue_kick K (rvq (vrp s1))\<rparr>\<rparr>
                               else s1))))"

section \<open>The length check\<close>

lemma rx_too_big_iff:
  "rx_too_big bs len n \<longleftrightarrow> uint bs < uint len \<or> (16 \<le> uint len \<and> uint len - 16 < uint n)"
proof -
  have c: "uint (ucast len :: u64) = uint len" "uint (ucast n :: u64) = uint n"
    by (simp_all add: unsigned_ucast_eq take_bit_int_eq_self_iff)
      (use uint_lt2p [of len] uint_lt2p [of n] in auto)
  have "uint ((ucast len :: u64) - of_nat sizeof_rpmsg_hdr) = (uint len - 16) mod 2 ^ 64"
    by (simp add: uint_sub_lem sizeofs uint_word_ariths c)
  moreover have "(uint len - 16) mod 2 ^ 64 = (if 16 \<le> uint len then uint len - 16 else uint len - 16 + 2 ^ 64)"
  proof (cases "16 \<le> uint len")
    case True
    then show ?thesis using uint_lt2p [of len] by (simp add: mod_pos_pos_trivial)
  next
    case False
    have "(uint len - 16) mod 2 ^ 64 = (uint len - 16 + 2 ^ 64) mod 2 ^ 64"
      by (simp only: mod_add_self2)
    also have "\<dots> = uint len - 16 + 2 ^ 64"
      by (rule mod_pos_pos_trivial) (use False uint_ge_0 [of len] in auto)
    finally show ?thesis using False by simp
  qed
  moreover have "uint n < 65536" using uint_lt2p [of n] by simp
  then have "\<not> uint len - 16 + 18446744073709551616 < uint n" using uint_ge_0 [of len] by linarith
  ultimately show ?thesis
    by (simp add: rx_too_big_def word_less_def c)
qed

section \<open>The contract of the callbacks\<close>

text \<open>
  What the receive path relies on: in a state in which \<open>ok\<close> holds, the callback of an
  endpoint returns, keeps \<open>ok\<close>, leaves the receive queue alone and does not drop the
  reference the receive path holds; \<open>ok\<close> does not depend on that reference nor on the
  contents of the queue, and it keeps the endpoint table well formed.
\<close>

locale rx_callbacks =
  fixes K :: "('q, 'i, 'z) kernel_scheme"
    and queued :: "'q \<Rightarrow> addr multiset" and cb_on :: "'q \<Rightarrow> bool" and used :: "'q \<Rightarrow> nat"
    and invoke :: "('q, 'i, 'y) rpmsg_bus_scheme invoker"
    and ok :: "('q, 'i, 'y) rpmsg_bus_scheme \<Rightarrow> bool"
  assumes ok_laws: "ok s \<Longrightarrow> virtqueue_laws K queued cb_on \<and> used_law K used"
    and ok_table: "ok s \<Longrightarrow> epts_wf K s"
    and ok_ref: "ok s \<Longrightarrow> epts s p = Some e \<Longrightarrow> 0 < k \<Longrightarrow>
      ok (s\<lparr>epts := (epts s)(p \<mapsto> e\<lparr>ep_refcount := k\<rparr>)\<rparr>)"
    and ok_rvq: "ok s \<Longrightarrow> ok (s\<lparr>vrp := (vrp s)\<lparr>rvq := q\<rparr>\<rparr>)"
    and call: "ok s \<Longrightarrow> epts s p = Some e \<Longrightarrow> 2 \<le> ep_refcount e \<Longrightarrow> ep_cb e = Some cb \<Longrightarrow>
      0 \<le> n \<Longrightarrow> n < 2 ^ 16 \<Longrightarrow>
      \<exists>s' e'. invoke cb (ep_rpdev e) a n (ep_priv e) src s = Returns s' \<and> ok s' \<and>
        rvq (vrp s') = rvq (vrp s) \<and> epts s' p = Some e' \<and> ep_refcount e' = ep_refcount e"
begin

lemma ept_call_ok:
  assumes "ok s" and "epts s p = Some e" and "2 \<le> ep_refcount e"
  shows "\<exists>s' e'. ept_call invoke p msg s = Returns s' \<and> ok s' \<and> rvq (vrp s') = rvq (vrp s) \<and>
    epts s' p = Some e' \<and> ep_refcount e' = ep_refcount e"
proof (cases "ep_cb e")
  case None
  with assms show ?thesis by (simp add: ept_call_def)
next
  case (Some cb)
  have "0 \<le> uint (hdr_len (hdr_load (mem s) msg))" and "uint (hdr_len (hdr_load (mem s) msg)) < 2 ^ 16"
    using uint_lt2p [of "hdr_len (hdr_load (mem s) msg)"] by simp_all
  from call [OF assms Some this] Some assms(2) show ?thesis
    by (simp add: ept_call_def)
qed

lemma deliver_ok:
  assumes "ok s" and "ept_find_get K a s = Returns (r, s1)"
  shows "\<exists>s2. (case r of None \<Rightarrow> Returns s1
           | Some p \<Rightarrow> bind_outcome (ept_call invoke p msg s1) (ept_kref_put p)) = Returns s2 \<and>
    ok s2 \<and> rvq (vrp s2) = rvq (vrp s)"
proof (cases r)
  case None
  with assms show ?thesis by (auto simp: ept_find_get_def split: option.splits)
next
  case (Some p)
  with assms(2) have b: "bound_at K s a = Some p" by (auto simp: ept_find_get_def bound_at_def split: option.splits)
  from epts_wf_bound [OF ok_table [OF assms(1)] b] obtain e where e: "epts s p = Some e" "0 < ep_refcount e"
    by blast
  let ?e = "e\<lparr>ep_refcount := ep_refcount e + 1\<rparr>"
  have s1: "s1 = s\<lparr>epts := (epts s)(p \<mapsto> ?e)\<rparr>"
    using assms(2) Some b e(1) by (auto simp: ept_find_get_def ept_kref_get_def bound_at_def)
  have "ok s1" unfolding s1 by (rule ok_ref [OF assms(1) e(1)]) simp
  then obtain s' e' where c: "ept_call invoke p msg s1 = Returns s'" "ok s'" "rvq (vrp s') = rvq (vrp s1)"
    "epts s' p = Some e'" "ep_refcount e' = ep_refcount e + 1"
    using ept_call_ok [of s1 p ?e msg] e(2) by (auto simp: s1)
  then have "ept_kref_put p s' = Returns (s'\<lparr>epts := (epts s')(p \<mapsto> e'\<lparr>ep_refcount := ep_refcount e\<rparr>)\<rparr>)"
    using e(2) by (simp add: ept_kref_put_def)
  moreover have "ok (s'\<lparr>epts := (epts s')(p \<mapsto> e'\<lparr>ep_refcount := ep_refcount e\<rparr>)\<rparr>)"
    by (rule ok_ref [OF c(2,4) e(2)])
  ultimately show ?thesis using Some c(1,3) by (simp add: s1)
qed

lemma requeue_ok:
  assumes "ok s" and "requeue_rx_buf K msg s = (err, s')"
  shows "ok s'" and "err \<le> 0" and "used (rvq (vrp s')) = used (rvq (vrp s))"
    and "queued (rvq (vrp s')) = (if err = 0 then add_mset msg (queued (rvq (vrp s))) else queued (rvq (vrp s)))"
proof -
  obtain k q where add: "virtqueue_add_inbuf K (rvq (vrp s)) (rpmsg_sg_init K msg (buf_size (vrp s))) msg = (k, q)"
    by fastforce
  note laws = ok_laws [OF assms(1)]
  have k: "k \<le> 0" "queued q = (if k = 0 then add_mset msg (queued (rvq (vrp s))) else queued (rvq (vrp s)))"
    "used q = used (rvq (vrp s))"
    using virtqueue_add_inbufD(1,3) [OF _ add] used_lawD(3) [OF _ add] laws by blast+
  have s': "err = k" "s' = s\<lparr>vrp := (vrp s)\<lparr>rvq := q\<rparr>\<rparr>"
    using assms(2) add k(1) by (auto simp: requeue_rx_buf_def)
  show "ok s'" unfolding s'(2) by (rule ok_rvq [OF assms(1)])
  show "err \<le> 0" "used (rvq (vrp s')) = used (rvq (vrp s))"
    "queued (rvq (vrp s')) = (if err = 0 then add_mset msg (queued (rvq (vrp s))) else queued (rvq (vrp s)))"
    using k by (simp_all add: s')
qed

lemma find_get_returns:
  assumes "ok s"
  shows "\<exists>r s1. ept_find_get K a s = Returns (r, s1)"
proof (cases "bound_at K s a")
  case None
  then show ?thesis by (simp add: ept_find_get_def bound_at_def)
next
  case (Some p)
  with epts_wf_bound [OF ok_table [OF assms]] show ?thesis
    by (fastforce simp: ept_find_get_def ept_kref_get_def bound_at_def)
qed

lemma recv_single_ok:
  assumes "ok s"
  shows "\<exists>err s'. rpmsg_recv_single K invoke msg len s = Returns (err, s') \<and> ok s' \<and>
    used (rvq (vrp s')) = used (rvq (vrp s)) \<and>
    queued (rvq (vrp s')) = (if err = 0 then add_mset msg (queued (rvq (vrp s))) else queued (rvq (vrp s)))"
proof (cases "rx_too_big (buf_size (vrp s)) len (hdr_len (hdr_load (mem s) msg))")
  case True
  with assms show ?thesis by (simp add: rpmsg_recv_single_def)
next
  case False
  obtain r s1 where f: "ept_find_get K (hdr_dst (hdr_load (mem s) msg)) s = Returns (r, s1)"
    using find_get_returns [OF assms] by blast
  obtain s2 where d: "(case r of None \<Rightarrow> Returns s1
      | Some p \<Rightarrow> bind_outcome (ept_call invoke p msg s1) (ept_kref_put p)) = Returns s2"
    "ok s2" "rvq (vrp s2) = rvq (vrp s)"
    using deliver_ok [OF assms f] by blast
  obtain err s' where q: "requeue_rx_buf K msg s2 = (err, s')" by fastforce
  have "rpmsg_recv_single K invoke msg len s = Returns (err, s')"
    using False f d(1) q by (simp add: rpmsg_recv_single_def)
  with requeue_ok [OF d(2) q] d(3) show ?thesis by simp
qed

text \<open>Either every used buffer has gone back to the queue, or one is lost and the loop has stopped.\<close>

lemma recv_loop_ok:
  assumes "ok s" and "used (rvq (vrp s)) = k"
  shows "\<exists>n' s'. recv_loop K invoke (Some (m, len)) n s = Some (Returns (n', s')) \<and> ok s' \<and>
    (queued (rvq (vrp s')) = add_mset m (queued (rvq (vrp s))) \<and> used (rvq (vrp s')) = 0 \<or>
     (\<exists>a. add_mset a (queued (rvq (vrp s'))) = add_mset m (queued (rvq (vrp s)))))"
  using assms
proof (induction k arbitrary: s m len n rule: less_induct)
  case (less k)
  obtain err s1 where single: "rpmsg_recv_single K invoke m len s = Returns (err, s1)" and ok1: "ok s1"
    and used1: "used (rvq (vrp s1)) = k"
    and q1: "queued (rvq (vrp s1)) = (if err = 0 then add_mset m (queued (rvq (vrp s))) else queued (rvq (vrp s)))"
    using recv_single_ok [OF less.prems(1)] less.prems(2) by blast
  note laws = ok_laws [OF less.prems(1)]
  show ?case
  proof (cases "err = 0")
    case False
    with single have "recv_loop K invoke (Some (m, len)) n s = Some (Returns (n, s1))"
      by (subst recv_loop.simps) simp
    with False q1 ok1 show ?thesis by auto
  next
    case True
    obtain b q where get: "virtqueue_get_buf K (rvq (vrp s1)) = (b, q)" by fastforce
    let ?s = "s1\<lparr>vrp := (vrp s1)\<lparr>rvq := q\<rparr>\<rparr>"
    have ok2: "ok ?s" by (rule ok_rvq [OF ok1])
    have loop: "recv_loop K invoke (Some (m, len)) n s = recv_loop K invoke b (n + 1) ?s"
      by (subst recv_loop.simps) (simp add: single True get)
    show ?thesis
    proof (cases b)
      case None
      with get have get': "virtqueue_get_buf K (rvq (vrp s1)) = (None, q)" by simp
      have "used q = 0" "queued q = queued (rvq (vrp s1))"
        using used_lawD(1) [OF conjunct2 [OF laws] get'] virtqueue_get_buf_NoneD(1) [OF conjunct1 [OF laws] get']
        by simp_all
      with loop None ok2 q1 True show ?thesis by (subst (asm) recv_loop.simps) auto
    next
      case (Some c)
      obtain m' len' where c: "c = (m', len')" by fastforce
      with get Some have get': "virtqueue_get_buf K (rvq (vrp s1)) = (Some (m', len'), q)" by simp
      have u: "k = Suc (used q)" "queued (rvq (vrp s1)) = add_mset m' (queued q)"
        using used_lawD(2) [OF conjunct2 [OF laws] get'] used1
          virtqueue_get_buf_SomeD(1) [OF conjunct1 [OF laws] get'] by simp_all
      from less.IH [of "used q" ?s m' len' "n + 1"] ok2 u(1)
      show ?thesis using loop Some c q1 True u(2) by simp
    qed
  qed
qed

lemma recv_done_ok:
  assumes "ok s"
  shows "\<exists>s'. rpmsg_recv_done K invoke s = Returns s' \<and> ok s' \<and>
    (queued (rvq (vrp s')) = queued (rvq (vrp s)) \<and> used (rvq (vrp s')) = 0 \<or>
     (\<exists>a. add_mset a (queued (rvq (vrp s'))) = queued (rvq (vrp s))))"
proof -
  obtain b q where get: "virtqueue_get_buf K (rvq (vrp s)) = (b, q)" by fastforce
  note laws = ok_laws [OF assms]
  let ?s = "s\<lparr>vrp := (vrp s)\<lparr>rvq := q\<rparr>\<rparr>"
  have ok': "ok ?s" by (rule ok_rvq [OF assms])
  show ?thesis
  proof (cases b)
    case None
    with get have "used q = 0" and "queued q = queued (rvq (vrp s))"
      using used_lawD(1) virtqueue_get_buf_NoneD(1) laws by metis+
    with None get ok' show ?thesis by (simp add: rpmsg_recv_done_def Let_def)
  next
    case (Some c)
    obtain m len where c: "c = (m, len)" by fastforce
    with get Some have q: "queued (rvq (vrp s)) = add_mset m (queued q)"
      using virtqueue_get_buf_SomeD(1) laws by metis
    obtain n s1 where loop: "recv_loop K invoke (Some (m, len)) 0 ?s = Some (Returns (n, s1))" and ok1: "ok s1"
      and res: "queued (rvq (vrp s1)) = queued (rvq (vrp s)) \<and> used (rvq (vrp s1)) = 0 \<or>
         (\<exists>a. add_mset a (queued (rvq (vrp s1))) = queued (rvq (vrp s)))"
      using recv_loop_ok [OF ok' refl, of m len 0] q by auto
    let ?s1 = "if n \<noteq> 0 then s1\<lparr>vrp := (vrp s1)\<lparr>rvq := virtqueue_kick K (rvq (vrp s1))\<rparr>\<rparr> else s1"
    have "rpmsg_recv_done K invoke s = Returns ?s1"
      using get Some c loop by (simp add: rpmsg_recv_done_def Let_def)
    moreover have "ok ?s1" using ok1 ok_rvq [OF ok1] by simp
    moreover have "queued (rvq (vrp ?s1)) = queued (rvq (vrp s1))" "used (rvq (vrp ?s1)) = used (rvq (vrp s1))"
      using virtqueue_signals(1) [OF conjunct1 [OF laws]] used_lawD(4) [OF conjunct2 [OF laws]] by simp_all
    ultimately show ?thesis using res by metis
  qed
qed

end

section \<open>The properties of the receive path\<close>

lemma recv_single_dispatch:
  assumes "uint len \<le> uint (buf_size (vrp s))"
    and "uint len < 16 \<or> uint (hdr_len (hdr_load (mem s) msg)) \<le> uint len - 16"
    and "bound_at K s (hdr_dst (hdr_load (mem s) msg)) = Some p" and "epts s p = Some e"
    and "ep_cb e = Some cb"
  shows "rpmsg_recv_single K invoke msg len s =
    bind_outcome (invoke cb (ep_rpdev e) (msg + 16) (uint (hdr_len (hdr_load (mem s) msg))) (ep_priv e)
        (hdr_src (hdr_load (mem s) msg)) (s\<lparr>epts := (epts s)(p \<mapsto> e\<lparr>ep_refcount := ep_refcount e + 1\<rparr>)\<rparr>))
      (\<lambda>s1. bind_outcome (ept_kref_put p s1) (\<lambda>s2. Returns (requeue_rx_buf K msg s2)))"
proof -
  let ?s = "s\<lparr>epts := (epts s)(p \<mapsto> e\<lparr>ep_refcount := ep_refcount e + 1\<rparr>)\<rparr>"
  have "\<not> rx_too_big (buf_size (vrp s)) len (hdr_len (hdr_load (mem s) msg))"
    using assms(1,2) by (auto simp: rx_too_big_iff)
  moreover have "ept_find_get K (hdr_dst (hdr_load (mem s) msg)) s = Returns (Some p, ?s)"
    using assms(3,4) by (simp add: ept_find_get_def ept_kref_get_def bound_at_def)
  moreover have "ept_call invoke p msg ?s = invoke cb (ep_rpdev e) (msg + 16)
      (uint (hdr_len (hdr_load (mem s) msg))) (ep_priv e) (hdr_src (hdr_load (mem s) msg)) ?s"
    using assms(5) by (simp add: ept_call_def sizeofs)
  ultimately show ?thesis by (simp add: rpmsg_recv_single_def bind_outcome_assoc)
qed

text \<open>
  C33. A message whose reported length exceeds the buffer size, or whose payload length
  exceeds what the reported length leaves behind the header, is refused with \<open>-EINVAL\<close> and
  no callback runs. But the loop over the used buffers then stops: the refused buffer is
  not given back to the queue, the messages behind it stay unprocessed, and the remote
  processor is not kicked.
\<close>

theorem bad_message_stalls:
  assumes "virtqueue_laws K queued cb_on" and "virtqueue_get_buf K (rvq (vrp s)) = (Some (msg, len), q)"
    and "uint (buf_size (vrp s)) < uint len \<or>
      16 \<le> uint len \<and> uint len - 16 < uint (hdr_len (hdr_load (mem s) msg))"
  shows "rpmsg_recv_single K invoke msg len s = Returns (- EINVAL, s) \<and>
    rpmsg_recv_done K invoke s = Returns (s\<lparr>vrp := (vrp s)\<lparr>rvq := q\<rparr>\<rparr>) \<and>
    queued (rvq (vrp s)) = add_mset msg (queued q)"
proof -
  have bad: "rx_too_big (buf_size (vrp s)) len (hdr_len (hdr_load (mem s) msg))"
    using assms(3) by (simp add: rx_too_big_iff)
  have "recv_loop K invoke (Some (msg, len)) 0 (s\<lparr>vrp := (vrp s)\<lparr>rvq := q\<rparr>\<rparr>) =
      Some (Returns (0, s\<lparr>vrp := (vrp s)\<lparr>rvq := q\<rparr>\<rparr>))"
    by (subst recv_loop.simps) (simp add: rpmsg_recv_single_def bad)
  then show ?thesis
    using assms(2) virtqueue_get_buf_SomeD(1) [OF assms(1,2)] bad
    by (simp add: rpmsg_recv_done_def rpmsg_recv_single_def Let_def)
qed

text \<open>A receive queue with one used buffer of reported length \<open>n\<close>.\<close>

definition sim_rx_bus :: "u32 \<Rightarrow> bytes \<Rightarrow> (sim_vq, (u32 \<times> addr) list) rpmsg_bus" where
  "sim_rx_bus n m = sim_bus\<lparr>vrp := sim_vrp\<lparr>rvq := sim_queue\<lparr>sv_used := [(4096, n)]\<rparr>\<rparr>, mem := m\<rparr>"

theorem bad_message_stalls_witness:
  "rpmsg_recv_done sim_kernel (\<lambda>cb d a n pr src s. Faults) (sim_rx_bus 600 (\<lambda>_. 0)) =
     Returns (sim_bus\<lparr>vrp := sim_vrp\<lparr>rvq := sim_queue\<lparr>sv_used := []\<rparr>\<rparr>\<rparr>)"
proof -
  have get: "virtqueue_get_buf sim_kernel (rvq (vrp (sim_rx_bus 600 (\<lambda>_. 0)))) =
      (Some (4096, 600), sim_queue\<lparr>sv_used := []\<rparr>)"
    by (simp add: sim_rx_bus_def sim_kernel_def sim_get_buf_def)
  have "mem sim_bus = (\<lambda>_. 0)" by (simp add: sim_bus_def)
  with bad_message_stalls [OF sim_virtqueue_laws get, of "\<lambda>cb d a n pr src s. Faults"]
  show ?thesis by (simp add: sim_rx_bus_def sim_vrp_def)
qed

text \<open>
  A message shorter than its own header is not refused: the subtraction wraps, so the
  callback of the endpoint is called with whatever payload length the message claims, up
  to 65535 bytes behind a header that did not arrive.
\<close>

lemma runt_message_delivered:
  assumes "uint len < 16" and "uint len \<le> uint (buf_size (vrp s))"
    and "bound_at K s (hdr_dst (hdr_load (mem s) msg)) = Some p" and "epts s p = Some e"
    and "ep_cb e = Some cb"
  shows "rpmsg_recv_single K invoke msg len s =
    bind_outcome (invoke cb (ep_rpdev e) (msg + 16) (uint (hdr_len (hdr_load (mem s) msg))) (ep_priv e)
        (hdr_src (hdr_load (mem s) msg)) (s\<lparr>epts := (epts s)(p \<mapsto> e\<lparr>ep_refcount := ep_refcount e + 1\<rparr>)\<rparr>))
      (\<lambda>s1. bind_outcome (ept_kref_put p s1) (\<lambda>s2. Returns (requeue_rx_buf K msg s2)))"
  by (rule recv_single_dispatch [OF assms(2) disjI1 [OF assms(1)] assms(3-5)])

lemma runt_message_delivered_witness:
  "\<exists>s :: (sim_vq, (u32 \<times> addr) list) rpmsg_bus. uint (4 :: u32) < 16 \<and> uint (hdr_len (hdr_load (mem s) 4096)) = 60000 \<and>
     rpmsg_recv_single sim_kernel (\<lambda>cb d a n pr src s. if n = 60000 then Hangs else Returns s) 4096 4 s = Hangs"
proof -
  let ?h = "\<lparr>hdr_src = 7, hdr_dst = 1024, hdr_reserved = 0, hdr_len = 60000, hdr_flags = 0\<rparr>"
  let ?s = "sim_rx_bus 4 (store (\<lambda>_. 0) 4096 (hdr_enc ?h))"
  have h: "hdr_load (mem ?s) 4096 = ?h" by (simp add: sim_rx_bus_def hdr.ld_store)
  have b: "bound_at sim_kernel ?s (hdr_dst (hdr_load (mem ?s) 4096)) = Some 2"
    unfolding h by (simp add: bound_at_def sim_kernel_def sim_rx_bus_def sim_vrp_def)
  have e: "epts ?s 2 = Some sim_ept" "ep_cb sim_ept = Some (Driver_cb 0)"
    "buf_size (vrp ?s) = 512" by (simp_all add: sim_rx_bus_def sim_state)
  have "rpmsg_recv_single sim_kernel (\<lambda>cb d a n pr src s. if n = 60000 then Hangs else Returns s) 4096 4 ?s = Hangs"
    by (subst runt_message_delivered [OF _ _ b e(1,2)]) (simp_all add: h e(3))
  with h show ?thesis by (intro exI [of _ ?s]) simp
qed

end
