(* ===== verification/NameService.thy ===== *)
theory NameService
  imports RpmsgCore RxPath
begin

text \<open>
  The name service of virtio_rpmsg_bus.c: announcing a channel to the remote processor,
  creating a channel, and \<open>rpmsg_ns_cb\<close>, which turns the announcements that come in into
  channels. The driver core is the argument \<open>D\<close>; what the name service relies on is
  \<open>driver_core_laws\<close>.
\<close>

section \<open>Announcing\<close>

definition ns_announce ::
  "('q, 'i, 'z) kernel_scheme \<Rightarrow> (nat \<Rightarrow> ('q, 'i) wait_script) \<Rightarrow> u32 \<Rightarrow> addr \<Rightarrow>
   ('q, 'i, 'y) rpmsg_bus_scheme \<Rightarrow> (int \<times> ('q, 'i, 'y) rpmsg_bus_scheme) outcome" where
  "ns_announce K waits flags d s =
     bind_outcome (deref (rpdevs s) d) (\<lambda>r.
     bind_outcome (vch_vrp r) (\<lambda>_.
       if rp_announce r \<and> rp_ept r \<noteq> None \<and> has_feature (vrp s) VIRTIO_RPMSG_F_NS
       then bind_outcome (deref (epts s) (the (rp_ept r))) (\<lambda>e.
              rpmsg_sendto (virtio_endpoint_ops K waits) (rp_ept r)
                (bytes_of (nsm_enc \<lparr>nsm_name = strncpy (rp_name r) RPMSG_NAME_SIZE,
                                    nsm_addr = ep_addr e, nsm_flags = flags\<rparr>))
                (int sizeof_rpmsg_ns_msg) RPMSG_NS_ADDR s)
       else Returns (0, s)))"

definition virtio_rpmsg_announce_create where
  "virtio_rpmsg_announce_create K waits = ns_announce K waits RPMSG_NS_CREATE"

definition virtio_rpmsg_announce_destroy where
  "virtio_rpmsg_announce_destroy K waits = ns_announce K waits RPMSG_NS_DESTROY"

definition virtio_rpmsg_ops ::
  "('q, 'i, 'z) kernel_scheme \<Rightarrow> (nat \<Rightarrow> ('q, 'i) wait_script) \<Rightarrow>
   ('q, 'i, 'y) rpmsg_bus_scheme rpmsg_device_ops" where
  "virtio_rpmsg_ops K waits =
     \<lparr>op_create_ept = virtio_rpmsg_create_ept K,
      op_announce_create = Some (virtio_rpmsg_announce_create K waits),
      op_announce_destroy = Some (virtio_rpmsg_announce_destroy K waits)\<rparr>"

section \<open>Creating a channel\<close>

definition new_channel :: "rpmsg_channel_info \<Rightarrow> rpmsg_device" where
  "new_channel chinfo =
     \<lparr>rp_container = Virtio_rpmsg_channel, rp_name = strncpy (ch_name chinfo) RPMSG_NAME_SIZE,
      rp_driver_override = None, rp_src = ch_src chinfo, rp_dst = ch_dst chinfo, rp_ept = None,
      rp_announce = (ch_src chinfo \<noteq> RPMSG_ADDR_ANY), rp_drvdata = None\<rparr>"

definition rpmsg_create_channel ::
  "('q, 'i, 'y) rpmsg_bus_scheme driver_core \<Rightarrow> addr option \<Rightarrow> rpmsg_channel_info \<Rightarrow>
   ('q, 'i, 'y) rpmsg_bus_scheme \<Rightarrow> (addr option \<times> ('q, 'i, 'y) rpmsg_bus_scheme) outcome" where
  "rpmsg_create_channel D kz chinfo s =
     (case rpmsg_find_device D chinfo s of
        (Some tmp, s1) \<Rightarrow> bind_outcome (put_device D tmp s1) (\<lambda>s2. Returns (None, s2))
      | (None, s1) \<Rightarrow>
          (case kz of None \<Rightarrow> Returns (None, s1)
           | Some d \<Rightarrow>
               bind_outcome (rpmsg_register_device D d (s1\<lparr>rpdevs := (rpdevs s1)(d \<mapsto> new_channel chinfo)\<rparr>))
                 (\<lambda>(ret, s2). Returns (if ret \<noteq> 0 then None else Some d, s2))))"

section \<open>The name service callback\<close>

text \<open>
  \<open>priv\<close> is the remote processor, which the function reads before anything else; the
  received message lies at \<open>data\<close>, and its name is terminated in place.
\<close>

definition rpmsg_ns_cb ::
  "('q, 'i, 'y) rpmsg_bus_scheme driver_core \<Rightarrow> addr option \<Rightarrow> addr option \<Rightarrow> addr \<Rightarrow> int \<Rightarrow> priv \<Rightarrow> u32 \<Rightarrow>
   ('q, 'i, 'y) rpmsg_bus_scheme \<Rightarrow> (int \<times> ('q, 'i, 'y) rpmsg_bus_scheme) outcome" where
  "rpmsg_ns_cb D kz rpdev data len pr src s =
     (if pr \<noteq> Priv_vrp then Faults
      else if len \<noteq> int sizeof_rpmsg_ns_msg then Returns (- EINVAL, s)
      else if rpdev \<noteq> None then Returns (- EINVAL, s)
      else
        let s1 = s\<lparr>mem := (mem s)(data + (RPMSG_NAME_SIZE - 1) := 0)\<rparr>;
            msg = nsm_load (mem s1) data;
            chinfo = \<lparr>ch_name = strncpy (nsm_name msg) RPMSG_NAME_SIZE, ch_src = RPMSG_ADDR_ANY, ch_dst = nsm_addr msg\<rparr>
        in if nsm_flags msg AND RPMSG_NS_DESTROY \<noteq> 0
           then bind_outcome (rpmsg_unregister_device D chinfo s1) (\<lambda>(ret, s2). Returns (0, s2))
           else bind_outcome (rpmsg_create_channel D kz chinfo s1) (\<lambda>(newch, s2). Returns (0, s2)))"

section \<open>What the driver core promises\<close>

text \<open>
  \<open>kids\<close> are the registered children of the virtio device. Finding returns a child that
  matches, when there is one; registering appends the device or fails, and may run drivers;
  unregistering removes it; putting a reference leaves the registered devices alone. None
  of them changes the name or the destination of a registered device.
\<close>

definition dev_key :: "('q, 'i, 'y) rpmsg_bus_scheme \<Rightarrow> addr \<Rightarrow> (u8 list \<times> u32) option" where
  "dev_key s d = map_option (\<lambda>r. (cstr (take 32 (rp_name r)), rp_dst r)) (rpdevs s d)"

definition find_child_law where
  "find_child_law D kids \<longleftrightarrow>
     (\<forall>m s r s'. device_find_child D m s = (r, s') \<longrightarrow>
        kids s' = kids s \<and> (\<forall>d. dev_key s' d = dev_key s d) \<and> (\<forall>d. rpdevs s d = None \<longrightarrow> rpdevs s' d = None) \<and>
        (case r of None \<Rightarrow> \<forall>d \<in> set (kids s). \<forall>x. rpdevs s d = Some x \<longrightarrow> \<not> m x
         | Some d \<Rightarrow> d \<in> set (kids s) \<and> (\<exists>x. rpdevs s d = Some x \<and> m x)))"

definition register_law where
  "register_law D kids \<longleftrightarrow>
     (\<forall>d n s. d \<notin> set (kids s) \<longrightarrow>
        (\<exists>ret s'. device_register D d n s = Returns (ret, s') \<and>
           kids s' = (if ret = 0 then kids s @ [d] else kids s) \<and>
           (\<forall>e \<in> set (kids s'). dev_key s' e = dev_key s e)))"

definition unregister_law where
  "unregister_law D kids \<longleftrightarrow>
     (\<forall>d s. d \<in> set (kids s) \<longrightarrow>
        (\<exists>s'. device_unregister D d s = Returns s' \<and> kids s' = remove1 d (kids s) \<and>
           (\<forall>e \<in> set (kids s'). dev_key s' e = dev_key s e)))"

definition put_law where
  "put_law D kids \<longleftrightarrow>
     (\<forall>d s. \<exists>s'. put_device D d s = Returns s' \<and> kids s' = kids s \<and>
        (\<forall>e \<in> set (kids s). dev_key s' e = dev_key s e))"

definition driver_core_laws ::
  "('q, 'i, 'y) rpmsg_bus_scheme driver_core \<Rightarrow> (('q, 'i, 'y) rpmsg_bus_scheme \<Rightarrow> addr list) \<Rightarrow> bool" where
  "driver_core_laws D kids \<longleftrightarrow>
     find_child_law D kids \<and> register_law D kids \<and> unregister_law D kids \<and> put_law D kids \<and>
     (\<forall>s h m. kids (s\<lparr>rpdevs := h\<rparr>) = kids s \<and> kids (s\<lparr>mem := m\<rparr>) = kids s)"

lemma find_childD:
  assumes "driver_core_laws D kids" and "device_find_child D m s = (r, s')"
  shows "kids s' = kids s" and "dev_key s' d = dev_key s d"
    and "rpdevs s d = None \<Longrightarrow> rpdevs s' d = None"
    and "r = None \<Longrightarrow> d \<in> set (kids s) \<Longrightarrow> rpdevs s d = Some x \<Longrightarrow> \<not> m x"
    and "r = Some d \<Longrightarrow> d \<in> set (kids s) \<and> (\<exists>x. rpdevs s d = Some x \<and> m x)"
proof -
  have "find_child_law D kids" using assms(1) by (simp add: driver_core_laws_def)
  then have *: "kids s' = kids s \<and> (\<forall>d. dev_key s' d = dev_key s d) \<and> (\<forall>d. rpdevs s d = None \<longrightarrow> rpdevs s' d = None) \<and>
        (case r of None \<Rightarrow> \<forall>d \<in> set (kids s). \<forall>x. rpdevs s d = Some x \<longrightarrow> \<not> m x
         | Some d \<Rightarrow> d \<in> set (kids s) \<and> (\<exists>x. rpdevs s d = Some x \<and> m x))"
    using assms(2) unfolding find_child_law_def by blast
  then show "kids s' = kids s" and "dev_key s' d = dev_key s d" and "rpdevs s d = None \<Longrightarrow> rpdevs s' d = None"
    by blast+
  show "r = None \<Longrightarrow> d \<in> set (kids s) \<Longrightarrow> rpdevs s d = Some x \<Longrightarrow> \<not> m x" using * by simp
  show "r = Some d \<Longrightarrow> d \<in> set (kids s) \<and> (\<exists>x. rpdevs s d = Some x \<and> m x)" using * by simp
qed

lemma registerD:
  assumes "driver_core_laws D kids" and "d \<notin> set (kids s)"
  obtains ret s' where "device_register D d n s = Returns (ret, s')"
    and "kids s' = (if ret = 0 then kids s @ [d] else kids s)"
    and "\<And>e. e \<in> set (kids s') \<Longrightarrow> dev_key s' e = dev_key s e"
proof -
  have "register_law D kids" using assms(1) by (simp add: driver_core_laws_def)
  with assms(2) that show thesis unfolding register_law_def by blast
qed

lemma unregisterD:
  assumes "driver_core_laws D kids" and "d \<in> set (kids s)"
  obtains s' where "device_unregister D d s = Returns s'" and "kids s' = remove1 d (kids s)"
    and "\<And>e. e \<in> set (kids s') \<Longrightarrow> dev_key s' e = dev_key s e"
proof -
  have "unregister_law D kids" using assms(1) by (simp add: driver_core_laws_def)
  with assms(2) that show thesis unfolding unregister_law_def by blast
qed

lemma putD:
  assumes "driver_core_laws D kids"
  obtains s' where "put_device D d s = Returns s'" and "kids s' = kids s"
    and "\<And>e. e \<in> set (kids s) \<Longrightarrow> dev_key s' e = dev_key s e"
proof -
  have "put_law D kids" using assms(1) by (simp add: driver_core_laws_def)
  with that show thesis unfolding put_law_def by blast
qed

lemma kids_upd:
  "driver_core_laws D kids \<Longrightarrow> kids (s\<lparr>rpdevs := h\<rparr>) = kids s"
  "driver_core_laws D kids \<Longrightarrow> kids (s\<lparr>mem := m\<rparr>) = kids s"
  by (simp_all add: driver_core_laws_def)

section \<open>One channel per service and destination\<close>

text \<open>
  The invariant of the name service: the registered channels are allocated, and no two have
  the same name and the same destination.
\<close>

definition keys_of :: "(('q, 'i, 'y) rpmsg_bus_scheme \<Rightarrow> addr list) \<Rightarrow> ('q, 'i, 'y) rpmsg_bus_scheme \<Rightarrow>
    (u8 list \<times> u32) option list" where
  "keys_of kids s = map (dev_key s) (kids s)"

definition channels_unique ::
  "(('q, 'i, 'y) rpmsg_bus_scheme \<Rightarrow> addr list) \<Rightarrow> ('q, 'i, 'y) rpmsg_bus_scheme \<Rightarrow> bool" where
  "channels_unique kids s \<longleftrightarrow> None \<notin> set (keys_of kids s) \<and> distinct (keys_of kids s)"

lemma unique_allocated: "channels_unique kids s \<Longrightarrow> d \<in> set (kids s) \<Longrightarrow> rpdevs s d \<noteq> None"
  by (force simp: channels_unique_def keys_of_def dev_key_def)

lemma keys_of_cong:
  "kids s' = kids s \<Longrightarrow> (\<And>e. e \<in> set (kids s) \<Longrightarrow> dev_key s' e = dev_key s e) \<Longrightarrow> keys_of kids s' = keys_of kids s"
  by (simp add: keys_of_def)

lemma map_remove1_distinct:
  "distinct (map f xs) \<Longrightarrow> d \<in> set xs \<Longrightarrow> map f (remove1 d xs) = remove1 (f d) (map f xs)"
proof (induction xs)
  case (Cons x xs)
  then show ?case by (cases "d = x") (auto simp: image_iff)
qed simp

definition chinfo_key :: "rpmsg_channel_info \<Rightarrow> u8 list \<times> u32" where
  "chinfo_key ch = (cstr (take 32 (ch_name ch)), ch_dst ch)"

lemma match_any_src:
  assumes "ch_src ch = RPMSG_ADDR_ANY" and "rpdevs s d = Some r"
  shows "rpmsg_device_match ch r \<longleftrightarrow>
    (\<exists>dst. dev_key s d = Some (fst (chinfo_key ch), dst) \<and> (ch_dst ch = RPMSG_ADDR_ANY \<or> dst = ch_dst ch))"
  using assms by (auto simp: device_match_iff dev_key_def chinfo_key_def)

lemma dev_key_new: "dev_key (s\<lparr>rpdevs := (rpdevs s)(d \<mapsto> new_channel ch)\<rparr>) e =
    (if e = d then Some (chinfo_key ch) else dev_key s e)"
  by (simp add: dev_key_def new_channel_def chinfo_key_def RPMSG_NAME_SIZE_def)

text \<open>The effect of creating and of destroying a channel on the list of services.\<close>

definition ns_taken :: "u8 list \<times> u32 \<Rightarrow> (u8 list \<times> u32) option list \<Rightarrow> bool" where
  "ns_taken key ks \<longleftrightarrow> (\<exists>dst. Some (fst key, dst) \<in> set ks \<and> (snd key = RPMSG_ADDR_ANY \<or> dst = snd key))"

lemma ns_taken_iff:
  assumes "channels_unique kids s" and "ch_src ch = RPMSG_ADDR_ANY"
  shows "ns_taken (chinfo_key ch) (keys_of kids s) \<longleftrightarrow>
    (\<exists>d \<in> set (kids s). \<exists>r. rpdevs s d = Some r \<and> rpmsg_device_match ch r)"
proof
  assume "ns_taken (chinfo_key ch) (keys_of kids s)"
  then obtain d dst where d: "d \<in> set (kids s)" "dev_key s d = Some (fst (chinfo_key ch), dst)"
    "ch_dst ch = RPMSG_ADDR_ANY \<or> dst = ch_dst ch"
    by (auto simp: ns_taken_def keys_of_def chinfo_key_def dest!: sym [of "Some _"])
  moreover obtain r where "rpdevs s d = Some r" using unique_allocated [OF assms(1) d(1)] by blast
  ultimately show "\<exists>d \<in> set (kids s). \<exists>r. rpdevs s d = Some r \<and> rpmsg_device_match ch r"
    using match_any_src [OF assms(2)] by blast
next
  assume "\<exists>d \<in> set (kids s). \<exists>r. rpdevs s d = Some r \<and> rpmsg_device_match ch r"
  then obtain d r where d: "d \<in> set (kids s)" "rpdevs s d = Some r" "rpmsg_device_match ch r" by blast
  then obtain dst where "dev_key s d = Some (fst (chinfo_key ch), dst)" "ch_dst ch = RPMSG_ADDR_ANY \<or> dst = ch_dst ch"
    using match_any_src [OF assms(2)] by blast
  with d(1) show "ns_taken (chinfo_key ch) (keys_of kids s)"
    by (force simp: ns_taken_def keys_of_def chinfo_key_def)
qed

lemma unique_add:
  assumes "channels_unique kids s" and "\<not> ns_taken key (keys_of kids s)"
    and "keys_of kids s' = keys_of kids s @ [Some key]"
  shows "channels_unique kids s'"
  using assms by (cases key) (auto simp: channels_unique_def ns_taken_def)

definition registers_always :: "'s driver_core \<Rightarrow> bool" where
  "registers_always D \<longleftrightarrow> (\<forall>d n s ret s'. device_register D d n s = Returns (ret, s') \<longrightarrow> ret = 0)"

lemma register_channel:
  assumes laws: "driver_core_laws D kids" and new: "d \<notin> set (kids s)" and r: "rpdevs s d = Some r"
  shows "\<exists>ret s'. rpmsg_register_device D d s = Returns (ret, s') \<and>
    keys_of kids s' = (if ret = 0 then keys_of kids s @ [dev_key s d] else keys_of kids s) \<and>
    (registers_always D \<longrightarrow> ret = 0)"
proof -
  obtain ret s1 where reg: "device_register D d (rpmsg_dev_name r) s = Returns (ret, s1)"
    and k1: "kids s1 = (if ret = 0 then kids s @ [d] else kids s)"
    and key1: "\<And>e. e \<in> set (kids s1) \<Longrightarrow> dev_key s1 e = dev_key s e"
    by (rule registerD [OF laws new, of "rpmsg_dev_name r"]) (blast intro: that)
  show ?thesis
  proof (cases "ret = 0")
    case True
    have "keys_of kids s1 = keys_of kids s @ [dev_key s d]"
      using k1 key1 True by (simp add: keys_of_def)
    with True reg r show ?thesis by (simp add: rpmsg_register_device_def)
  next
    case False
    obtain s2 where put: "put_device D d s1 = Returns s2" "kids s2 = kids s1"
      "\<And>e. e \<in> set (kids s1) \<Longrightarrow> dev_key s2 e = dev_key s1 e"
      by (rule putD [OF laws, of d s1]) (blast intro: that)
    have "keys_of kids s2 = keys_of kids s"
      by (rule keys_of_cong) (use put k1 key1 False in simp_all)
    with False reg r put(1) show ?thesis by (simp add: rpmsg_register_device_def registers_always_def) blast
  qed
qed

lemma create_channel_keys:
  assumes laws: "driver_core_laws D kids" and u: "channels_unique kids s"
    and src: "ch_src ch = RPMSG_ADDR_ANY" and fresh: "\<And>d. kz = Some d \<Longrightarrow> rpdevs s d = None"
  shows "\<exists>r s'. rpmsg_create_channel D kz ch s = Returns (r, s') \<and> channels_unique kids s' \<and>
    keys_of kids s' = (if r = None then keys_of kids s else keys_of kids s @ [Some (chinfo_key ch)]) \<and>
    (r \<noteq> None \<longrightarrow> \<not> ns_taken (chinfo_key ch) (keys_of kids s)) \<and>
    (kz \<noteq> None \<and> registers_always D \<and> \<not> ns_taken (chinfo_key ch) (keys_of kids s) \<longrightarrow> r \<noteq> None)"
proof -
  obtain f s1 where find: "rpmsg_find_device D ch s = (f, s1)" by fastforce
  note fd = find_childD [OF laws find [unfolded rpmsg_find_device_def]]
  have keys1: "keys_of kids s1 = keys_of kids s" by (rule keys_of_cong) (simp_all add: fd(1,2))
  have u1: "channels_unique kids s1" using u keys1 by (simp add: channels_unique_def)
  show ?thesis
  proof (cases f)
    case (Some tmp)
    obtain s2 where put: "put_device D tmp s1 = Returns s2" "kids s2 = kids s1"
      "\<And>e. e \<in> set (kids s1) \<Longrightarrow> dev_key s2 e = dev_key s1 e"
      by (rule putD [OF laws, of tmp s1]) (blast intro: that)
    have "keys_of kids s2 = keys_of kids s"
      using keys_of_cong [OF put(2,3)] keys1 by simp
    moreover have "ns_taken (chinfo_key ch) (keys_of kids s)"
      using ns_taken_iff [OF u src] fd(5) [OF Some] by blast
    ultimately show ?thesis
      using Some find put(1) u by (simp add: rpmsg_create_channel_def channels_unique_def)
  next
    case None
    then have free: "\<not> ns_taken (chinfo_key ch) (keys_of kids s)"
      using fd(4) by (auto simp: ns_taken_iff [OF u src])
    show ?thesis
    proof (cases kz)
      case None
      with \<open>f = None\<close> find keys1 u1 show ?thesis by (simp add: rpmsg_create_channel_def)
    next
      case (Some d)
      let ?s = "s1\<lparr>rpdevs := (rpdevs s1)(d \<mapsto> new_channel ch)\<rparr>"
      have out: "d \<notin> set (kids s1)"
        using unique_allocated [OF u1] fd(3) fresh [OF Some] by blast
      have kids: "kids ?s = kids s1" by (rule kids_upd [OF laws])
      have "keys_of kids ?s = keys_of kids s1"
        by (rule keys_of_cong [OF kids]) (use out in \<open>auto simp: dev_key_new\<close>)
      moreover have "d \<notin> set (kids ?s)" and r: "rpdevs ?s d = Some (new_channel ch)"
        using out kids by simp_all
      ultimately obtain ret s2 where reg: "rpmsg_register_device D d ?s = Returns (ret, s2)"
        and k2: "keys_of kids s2 = (if ret = 0 then keys_of kids s @ [Some (chinfo_key ch)] else keys_of kids s)"
        and always: "registers_always D \<longrightarrow> ret = 0"
        using register_channel [OF laws, of d ?s] keys1 by (auto simp: dev_key_new)
      have "channels_unique kids s2"
        using u k2 unique_add [OF u free] by (cases "ret = 0") (auto simp: channels_unique_def)
      with Some \<open>f = None\<close> find reg k2 free always show ?thesis by (auto simp: rpmsg_create_channel_def)
    qed
  qed
qed

lemma unregister_keys:
  assumes laws: "driver_core_laws D kids" and u: "channels_unique kids s" and src: "ch_src ch = RPMSG_ADDR_ANY"
  shows "\<exists>ret s'. rpmsg_unregister_device D ch s = Returns (ret, s') \<and> channels_unique kids s' \<and>
    (if ns_taken (chinfo_key ch) (keys_of kids s)
     then ret = 0 \<and> (\<exists>dst. Some (fst (chinfo_key ch), dst) \<in> set (keys_of kids s) \<and>
        (ch_dst ch = RPMSG_ADDR_ANY \<or> dst = ch_dst ch) \<and>
        keys_of kids s' = remove1 (Some (fst (chinfo_key ch), dst)) (keys_of kids s))
     else ret = - EINVAL \<and> keys_of kids s' = keys_of kids s)"
proof -
  obtain f s1 where find: "rpmsg_find_device D ch s = (f, s1)" by fastforce
  note fd = find_childD [OF laws find [unfolded rpmsg_find_device_def]]
  have keys1: "keys_of kids s1 = keys_of kids s" by (rule keys_of_cong) (simp_all add: fd(1,2))
  show ?thesis
  proof (cases f)
    case None
    then have "\<not> ns_taken (chinfo_key ch) (keys_of kids s)"
      using fd(4) by (auto simp: ns_taken_iff [OF u src])
    with None find keys1 u show ?thesis
      by (simp add: rpmsg_unregister_device_def channels_unique_def)
  next
    case (Some d)
    from fd(5) [OF Some] obtain x where d: "d \<in> set (kids s)" "rpdevs s d = Some x" "rpmsg_device_match ch x"
      by blast
    then have taken: "ns_taken (chinfo_key ch) (keys_of kids s)"
      using ns_taken_iff [OF u src] by blast
    from d obtain dst where key: "dev_key s d = Some (fst (chinfo_key ch), dst)"
      "ch_dst ch = RPMSG_ADDR_ANY \<or> dst = ch_dst ch"
      using match_any_src [OF src] by blast
    obtain s2 where un: "device_unregister D d s1 = Returns s2" "kids s2 = remove1 d (kids s1)"
      "\<And>e. e \<in> set (kids s2) \<Longrightarrow> dev_key s2 e = dev_key s1 e"
      by (rule unregisterD [OF laws, of d s1]) (use d(1) fd(1) that in auto)
    obtain s3 where put: "put_device D d s2 = Returns s3" "kids s3 = kids s2"
      "\<And>e. e \<in> set (kids s2) \<Longrightarrow> dev_key s3 e = dev_key s2 e"
      by (rule putD [OF laws, of d s2]) (blast intro: that)
    have dist: "distinct (map (dev_key s) (kids s))" using u by (simp add: channels_unique_def keys_of_def)
    have "keys_of kids s3 = map (dev_key s) (remove1 d (kids s))"
      using put(2,3) un(2,3) fd(1,2) by (simp add: keys_of_def)
    also have "\<dots> = remove1 (Some (fst (chinfo_key ch), dst)) (keys_of kids s)"
      using map_remove1_distinct [OF dist d(1)] key(1) by (simp add: keys_of_def)
    finally have k3: "keys_of kids s3 = remove1 (Some (fst (chinfo_key ch), dst)) (keys_of kids s)" .
    then have "channels_unique kids s3"
      using u by (auto simp: channels_unique_def dest: notin_set_remove1)
    moreover have "Some (fst (chinfo_key ch), dst) \<in> set (keys_of kids s)"
      using d(1) key(1) by (force simp: keys_of_def)
    ultimately show ?thesis
      using Some find un(1) put(1) k3 key(2) taken by (auto simp: rpmsg_unregister_device_def)
  qed
qed

section \<open>The announcement as it arrives\<close>

lemma load_terminated: "load (m(a + 31 := 0)) a 32 = (load m a 32)[31 := 0]"
  by (rule nth_equalityI) (auto simp: nth_list_update)

lemma nsm_load_terminated:
  "nsm_load (m(a + 31 := 0)) a = (nsm_load m a)\<lparr>nsm_name := (nsm_name (nsm_load m a))[31 := 0]\<rparr>"
proof -
  have "load (m(a + 31 := 0)) (a + 32) 4 = load m (a + 32) 4"
    and "load (m(a + 31 := 0)) (a + 36) 4 = load m (a + 36) 4"
    by (rule load_cong, simp)+
  then show ?thesis by (simp add: nsm_load_def load_terminated)
qed

lemma cstr_append0: "cstr (xs @ [0]) = cstr xs"
  by (induction xs) auto

lemma cstr_terminated:
  assumes "length xs = 32"
  shows "cstr (take 32 (xs[31 := 0])) = cstr (take 31 xs)"
proof -
  have "xs[31 := 0] = take 31 xs @ [0]"
    using assms by (subst upd_conv_take_nth_drop) simp_all
  with assms show ?thesis by (simp add: cstr_append0)
qed

text \<open>The service an announcement at \<open>data\<close> is about.\<close>

definition ns_key :: "bytes \<Rightarrow> addr \<Rightarrow> u8 list \<times> u32" where
  "ns_key m data = (cstr (take 31 (nsm_name (nsm_load m data))), nsm_addr (nsm_load m data))"

lemma ns_key_chinfo:
  "chinfo_key \<lparr>ch_name = strncpy (nsm_name (nsm_load (m(data + 31 := 0)) data)) 32, ch_src = a,
               ch_dst = nsm_addr (nsm_load (m(data + 31 := 0)) data)\<rparr> = ns_key m data"
proof -
  have "length (nsm_name (nsm_load m data)) = 32" by (simp add: nsm_load_def)
  from cstr_terminated [OF this] this show ?thesis
    by (simp add: chinfo_key_def ns_key_def nsm_load_terminated)
qed

lemma keys_of_mem:
  "driver_core_laws D kids \<Longrightarrow> keys_of kids (s\<lparr>mem := m\<rparr>) = keys_of kids s"
  by (simp add: keys_of_def kids_upd dev_key_def)

definition ns_chinfo :: "bytes \<Rightarrow> addr \<Rightarrow> rpmsg_channel_info" where
  "ns_chinfo m data = \<lparr>ch_name = strncpy (nsm_name (nsm_load (m(data + 31 := 0)) data)) 32, ch_src = RPMSG_ADDR_ANY,
     ch_dst = nsm_addr (nsm_load (m(data + 31 := 0)) data)\<rparr>"

lemma ns_chinfo_simps [simp]:
  "ch_src (ns_chinfo m data) = RPMSG_ADDR_ANY" "chinfo_key (ns_chinfo m data) = ns_key m data"
  "ch_dst (ns_chinfo m data) = snd (ns_key m data)"
  using ns_key_chinfo [of m data RPMSG_ADDR_ANY]
  by (simp_all add: ns_chinfo_def ns_key_def nsm_load_terminated)

lemma ns_cb_unfold:
  "rpmsg_ns_cb D kz None data 40 Priv_vrp src s =
     (let s1 = s\<lparr>mem := (mem s)(data + 31 := 0)\<rparr>; ch = ns_chinfo (mem s) data
      in if nsm_flags (nsm_load (mem s) data) AND 1 \<noteq> 0
         then bind_outcome (rpmsg_unregister_device D ch s1) (\<lambda>(ret, s2). Returns (0, s2))
         else bind_outcome (rpmsg_create_channel D kz ch s1) (\<lambda>(newch, s2). Returns (0, s2)))"
  by (simp add: rpmsg_ns_cb_def sizeofs RPMSG_NAME_SIZE_def RPMSG_NS_DESTROY_def Let_def ns_chinfo_def
      nsm_load_terminated)

section \<open>A driver core that keeps its promises\<close>

record sim_sys = "(sim_vq, (u32 \<times> addr) list) rpmsg_bus" +
  sim_kids :: "addr list"

definition sim_driver_core :: "sim_sys driver_core" where
  "sim_driver_core =
     \<lparr>device_find_child = (\<lambda>m s. (find (\<lambda>d. case rpdevs s d of None \<Rightarrow> False | Some r \<Rightarrow> m r) (sim_kids s), s)),
      device_register = (\<lambda>d n s. Returns (0, s\<lparr>sim_kids := sim_kids s @ [d]\<rparr>)),
      device_unregister = (\<lambda>d s. Returns (s\<lparr>sim_kids := remove1 d (sim_kids s)\<rparr>)),
      put_device = (\<lambda>d s. Returns s)\<rparr>"

lemma dev_key_sim_kids [simp]: "dev_key (s\<lparr>sim_kids := k\<rparr>) d = dev_key s d"
  by (simp add: dev_key_def)

lemma sim_find_law: "find_child_law sim_driver_core sim_kids"
  unfolding find_child_law_def sim_driver_core_def
  by (auto simp: find_None_iff dest!: find_SomeD split: option.splits)

lemma sim_driver_core_laws: "driver_core_laws sim_driver_core sim_kids"
  unfolding driver_core_laws_def
  by (intro conjI sim_find_law)
    (simp_all add: register_law_def unregister_law_def put_law_def sim_driver_core_def)

definition sim_sys :: "bytes \<Rightarrow> sim_sys" where
  "sim_sys m = \<lparr>vrp = sim_vrp, mem = m, epts = [2 \<mapsto> sim_ept], rpdevs = [1 \<mapsto> sim_rpdev], sim_kids = [1]\<rparr>"

definition sim_ns_mem :: "u32 \<Rightarrow> u32 \<Rightarrow> bytes" where
  "sim_ns_mem a f = store (\<lambda>_. 0) 4112 (nsm_enc \<lparr>nsm_name = strncpy (lit ''echo'') 32, nsm_addr = a, nsm_flags = f\<rparr>)"

lemma sim_ns_load: "nsm_load (sim_ns_mem a f) 4112 = \<lparr>nsm_name = strncpy (lit ''echo'') 32, nsm_addr = a, nsm_flags = f\<rparr>"
  unfolding sim_ns_mem_def by (rule nsm.ld_store) (simp add: nsm_wf_def RPMSG_NAME_SIZE_def)

lemma sim_ns_key: "ns_key (mem (sim_sys (sim_ns_mem a f))) 4112 = (lit ''echo'', a)"
proof -
  have n: "0 \<notin> set (lit ''echo'')" by (simp add: lit_def)
  have "strncpy (lit ''echo'') 32 = lit ''echo'' @ replicate 28 0"
    by (simp add: strncpy_def Let_def lit_def)
  then have "take 31 (strncpy (lit ''echo'') 32) = lit ''echo'' @ replicate 27 0"
    by (simp add: lit_def)
  then show ?thesis
    by (simp add: ns_key_def sim_sys_def sim_ns_load cstr_append_replicate [OF n])
qed

lemma sim_sys_keys: "keys_of sim_kids (sim_sys m) = [Some (lit ''echo'', 7)]"
  by (simp add: keys_of_def sim_sys_def dev_key_def sim_rpdev_def lit_def)

lemma sim_sys_unique: "channels_unique sim_kids (sim_sys m)"
  by (simp add: channels_unique_def sim_sys_keys)

section \<open>The properties of the name service\<close>

text \<open>
  C12. An announcement that creates a service always ends well and keeps the channels
  unique. If a channel of that name and destination exists, nothing happens; otherwise the
  service is added, behind the others, when memory and the driver core permit. The name of
  the service is what stands in the first 31 bytes, up to a NUL.
\<close>

theorem ns_create_registers:
  assumes "driver_core_laws D kids" and "channels_unique kids s" and "\<And>d. kz = Some d \<Longrightarrow> rpdevs s d = None"
    and "nsm_flags (nsm_load (mem s) data) AND 1 = 0"
  shows "\<exists>s'. rpmsg_ns_cb D kz None data 40 Priv_vrp src s = Returns (0, s') \<and> channels_unique kids s' \<and>
    (keys_of kids s' = keys_of kids s \<or>
     \<not> ns_taken (ns_key (mem s) data) (keys_of kids s) \<and> keys_of kids s' = keys_of kids s @ [Some (ns_key (mem s) data)]) \<and>
    (kz \<noteq> None \<and> registers_always D \<and> \<not> ns_taken (ns_key (mem s) data) (keys_of kids s) \<longrightarrow>
     keys_of kids s' = keys_of kids s @ [Some (ns_key (mem s) data)])"
proof -
  let ?s = "s\<lparr>mem := (mem s)(data + 31 := 0)\<rparr>"
  note k = keys_of_mem [OF assms(1), where s = s and m = "(mem s)(data + 31 := 0)"]
  have u: "channels_unique kids ?s" using assms(2) by (simp add: channels_unique_def k)
  have fresh: "\<And>d. kz = Some d \<Longrightarrow> rpdevs ?s d = None" using assms(3) by simp
  obtain r s' where c: "rpmsg_create_channel D kz (ns_chinfo (mem s) data) ?s = Returns (r, s')"
    and c': "channels_unique kids s'"
    "keys_of kids s' = (if r = None then keys_of kids s else keys_of kids s @ [Some (ns_key (mem s) data)])"
    "r \<noteq> None \<longrightarrow> \<not> ns_taken (ns_key (mem s) data) (keys_of kids s)"
    "kz \<noteq> None \<and> registers_always D \<and> \<not> ns_taken (ns_key (mem s) data) (keys_of kids s) \<longrightarrow> r \<noteq> None"
    using create_channel_keys [OF assms(1) u ns_chinfo_simps(1), of kz "mem s" data, OF fresh, unfolded ns_chinfo_simps k]
    by blast
  have "rpmsg_ns_cb D kz None data 40 Priv_vrp src s = Returns (0, s')"
    using c assms(4) by (simp add: ns_cb_unfold Let_def)
  with c' show ?thesis by auto
qed

theorem ns_create_registers_witness:
  "\<exists>s'. rpmsg_ns_cb sim_driver_core (Some 8) None 4112 40 Priv_vrp 53 (sim_sys (sim_ns_mem 9 0)) = Returns (0, s') \<and>
     keys_of sim_kids s' = [Some (lit ''echo'', 7), Some (lit ''echo'', 9)]"
proof -
  let ?s = "sim_sys (sim_ns_mem 9 0)"
  have flags: "nsm_flags (nsm_load (mem ?s) 4112) AND 1 = 0" by (simp add: sim_sys_def sim_ns_load)
  have fresh: "\<And>d. Some 8 = Some d \<Longrightarrow> rpdevs ?s d = None" by (simp add: sim_sys_def)
  have "registers_always sim_driver_core" by (simp add: registers_always_def sim_driver_core_def)
  moreover have "\<not> ns_taken (lit ''echo'', 9) [Some (lit ''echo'', 7)]"
    by (simp add: ns_taken_def RPMSG_ADDR_ANY_def)
  ultimately show ?thesis
    using ns_create_registers [where kz = "Some 8" and src = 53, OF sim_driver_core_laws sim_sys_unique fresh flags]
    by (auto simp: sim_ns_key sim_sys_keys)
qed

text \<open>
  C13. An announcement that destroys a service removes one channel of that name and
  destination, and only it, when there is one, and otherwise changes nothing; with a
  destination other than the wildcard no channel of that key is left.
\<close>

theorem ns_destroy_removes:
  assumes "driver_core_laws D kids" and "channels_unique kids s"
    and "nsm_flags (nsm_load (mem s) data) AND 1 \<noteq> 0"
  shows "\<exists>s'. rpmsg_ns_cb D kz None data 40 Priv_vrp src s = Returns (0, s') \<and> channels_unique kids s' \<and>
    (snd (ns_key (mem s) data) \<noteq> RPMSG_ADDR_ANY \<longrightarrow>
       keys_of kids s' = remove1 (Some (ns_key (mem s) data)) (keys_of kids s) \<and>
       Some (ns_key (mem s) data) \<notin> set (keys_of kids s'))"
proof -
  let ?s = "s\<lparr>mem := (mem s)(data + 31 := 0)\<rparr>" and ?k = "ns_key (mem s) data"
  note k = keys_of_mem [OF assms(1), where s = s and m = "(mem s)(data + 31 := 0)"]
  have u: "channels_unique kids ?s" using assms(2) by (simp add: channels_unique_def k)
  obtain ret s' where c: "rpmsg_unregister_device D (ns_chinfo (mem s) data) ?s = Returns (ret, s')"
    and c': "channels_unique kids s'"
    "if ns_taken ?k (keys_of kids s)
     then ret = 0 \<and> (\<exists>dst. Some (fst ?k, dst) \<in> set (keys_of kids s) \<and>
        (snd ?k = RPMSG_ADDR_ANY \<or> dst = snd ?k) \<and>
        keys_of kids s' = remove1 (Some (fst ?k, dst)) (keys_of kids s))
     else ret = - EINVAL \<and> keys_of kids s' = keys_of kids s"
    using unregister_keys [OF assms(1) u ns_chinfo_simps(1), of "mem s" data, unfolded ns_chinfo_simps k] by blast
  have ret: "rpmsg_ns_cb D kz None data 40 Priv_vrp src s = Returns (0, s')"
    using c assms(3) by (simp add: ns_cb_unfold Let_def)
  have rm: "keys_of kids s' = remove1 (Some ?k) (keys_of kids s)" if ne: "snd ?k \<noteq> RPMSG_ADDR_ANY"
  proof (cases "ns_taken ?k (keys_of kids s)")
    case True
    with c'(2) ne show ?thesis by (metis prod.collapse)
  next
    case False
    then have "Some ?k \<notin> set (keys_of kids s)" by (cases ?k) (auto simp: ns_taken_def)
    with False c'(2) show ?thesis by (simp add: remove1_idem)
  qed
  moreover have "Some ?k \<notin> set (remove1 (Some ?k) (keys_of kids s))"
    using assms(2) by (simp add: channels_unique_def)
  ultimately show ?thesis using ret c'(1) by auto
qed

theorem ns_destroy_removes_witness:
  "\<exists>s'. rpmsg_ns_cb sim_driver_core None None 4112 40 Priv_vrp 53 (sim_sys (sim_ns_mem 7 1)) = Returns (0, s') \<and>
     keys_of sim_kids s' = []"
proof -
  let ?s = "sim_sys (sim_ns_mem 7 1)"
  have "nsm_flags (nsm_load (mem ?s) 4112) AND 1 \<noteq> 0" by (simp add: sim_sys_def sim_ns_load)
  from ns_destroy_removes [OF sim_driver_core_laws sim_sys_unique this, of None 53] show ?thesis
    by (auto simp: sim_ns_key sim_sys_keys RPMSG_ADDR_ANY_def)
qed

lemma ns_cb_returns:
  assumes "driver_core_laws D kids" and "channels_unique kids s" and "\<And>d. kz = Some d \<Longrightarrow> rpdevs s d = None"
  shows "\<exists>ret s'. rpmsg_ns_cb D kz rpdev data len Priv_vrp src s = Returns (ret, s') \<and> channels_unique kids s' \<and>
    (len \<noteq> 40 \<or> rpdev \<noteq> None \<longrightarrow> ret = - EINVAL \<and> s' = s)"
proof (cases "len \<noteq> 40 \<or> rpdev \<noteq> None")
  case True
  with assms(2) show ?thesis by (auto simp: rpmsg_ns_cb_def sizeofs)
next
  case False
  then have c: "len = 40" "rpdev = None" by simp_all
  let ?s = "s\<lparr>mem := (mem s)(data + 31 := 0)\<rparr>"
  have u: "channels_unique kids ?s"
    using assms(2) by (simp add: channels_unique_def keys_of_mem [OF assms(1)])
  show ?thesis
  proof (cases "nsm_flags (nsm_load (mem s) data) AND 1 = 0")
    case True
    with create_channel_keys [OF assms(1) u ns_chinfo_simps(1), of kz "mem s" data] assms(3)
    show ?thesis by (fastforce simp: c ns_cb_unfold Let_def)
  next
    case False
    with unregister_keys [OF assms(1) u ns_chinfo_simps(1), of "mem s" data]
    show ?thesis by (fastforce simp: c ns_cb_unfold Let_def)
  qed
qed

text \<open>
  Whatever a remote processor sends to the name service, the callback returns, never
  touches a channel unless the length is exact, and the channels stay unique.
\<close>

lemma ns_cb_safe:
  assumes "driver_core_laws D kids" and "channels_unique kids s" and "\<And>d. kz = Some d \<Longrightarrow> rpdevs s d = None"
  shows "\<exists>ret s'. rpmsg_ns_cb D kz rpdev data len Priv_vrp src s = Returns (ret, s') \<and> channels_unique kids s' \<and>
    (len \<noteq> 40 \<or> rpdev \<noteq> None \<longrightarrow> ret = - EINVAL \<and> s' = s)"
  by (rule ns_cb_returns [OF assms])

lemma ns_cb_safe_witness:
  "\<exists>ret s'. rpmsg_ns_cb sim_driver_core (Some 8) None 4112 39 Priv_vrp 53 (sim_sys (\<lambda>_. 1)) = Returns (ret, s') \<and>
     ret = - EINVAL \<and> channels_unique sim_kids s'"
  using ns_cb_safe [OF sim_driver_core_laws sim_sys_unique, of "Some 8" "\<lambda>_. 1" None 4112 39 53]
  by (auto simp: sim_sys_def)

section \<open>Announcing, probing and removing\<close>

lemma cstr_take_strncpy: "k \<le> n \<Longrightarrow> cstr (take k (strncpy x n)) = cstr (take k x)"
proof -
  assume "k \<le> n"
  have "cstr (take k (strncpy x n)) = cstr (take k (cstr (strncpy x n)))" by (simp only: cstr_take_cstr)
  also have "\<dots> = cstr (take k (cstr (take n x)))" by simp
  also have "\<dots> = cstr (take k (take n x))" by (simp only: cstr_take_cstr)
  finally show ?thesis using \<open>k \<le> n\<close> by (simp add: min_def)
qed

lemma ns_announce_raw:
  assumes "rpdevs s d = Some r" and "rp_container r = Virtio_rpmsg_channel" and "rp_announce r"
    and "rp_ept r = Some p" and "epts s p = Some e" and "ep_rpdev e = Some d"
    and "has_feature (vrp s) VIRTIO_RPMSG_F_NS"
  shows "ns_announce K waits flags d s =
    rpmsg_send_offchannel_raw K waits r (ep_addr e) RPMSG_NS_ADDR
      (bytes_of (nsm_enc \<lparr>nsm_name = strncpy (rp_name r) 32, nsm_addr = ep_addr e, nsm_flags = flags\<rparr>)) 40 True s"
  using assms
  by (simp add: ns_announce_def rpmsg_sendto_def ept_dispatch_def virtio_endpoint_ops_def virtio_rpmsg_sendto_def
      ept_and_rpdev_def RPMSG_NAME_SIZE_def sizeofs)


lemma sim_announce_ok:
  "\<exists>s'. ns_announce sim_kernel (\<lambda>i. ([], Timed_out)) 0 1 sim_bus = Returns (0, s')"
proof -
  let ?d = "bytes_of (nsm_enc \<lparr>nsm_name = strncpy (rp_name sim_rpdev) 32, nsm_addr = ep_addr sim_ept, nsm_flags = 0\<rparr>)"
  have raw: "ns_announce sim_kernel (\<lambda>i. ([], Timed_out)) 0 1 sim_bus =
    rpmsg_send_offchannel_raw sim_kernel (\<lambda>i. ([], Timed_out)) sim_rpdev (ep_addr sim_ept) RPMSG_NS_ADDR ?d 40 True sim_bus"
    by (rule ns_announce_raw [where p = 2])
      (simp_all add: sim_bus_def sim_rpdev_def sim_ept_def sim_vrp_def VIRTIO_RPMSG_F_NS_def)
  have cont: "rp_container sim_rpdev = Virtio_rpmsg_channel" by (simp add: sim_rpdev_def)
  have "rpmsg_send_offchannel_raw sim_kernel (\<lambda>i. ([], Timed_out)) sim_rpdev (ep_addr sim_ept) RPMSG_NS_ADDR ?d 40 True sim_bus =
    Returns (send_tx_buf sim_kernel (ep_addr sim_ept) RPMSG_NS_ADDR ?d 40 6144 (sim_bus\<lparr>vrp := sim_vrp\<lparr>last_sbuf := 1\<rparr>\<rparr>))"
    using sim_first_tx_buf msg_too_big_iff [of 40 sim_vrp] cont
    by (simp add: rpmsg_send_offchannel_raw_def sim_bus_def is_c_int_def rpmsg_consts sim_ept_def)
      (simp add: sim_vrp_def)
  moreover have "\<exists>s'. send_tx_buf sim_kernel x y z 40 6144 (sim_bus\<lparr>vrp := sim_vrp\<lparr>last_sbuf := 1\<rparr>\<rparr>) = (0, s')" for x y z
    by (simp add: send_tx_buf_def sim_bus_def sim_vrp_def sim_kernel_def sim_add_buf_def sim_queue_def Let_def)
  ultimately show ?thesis unfolding raw by metis
qed


lemma announce_keeps_tables:
  assumes "waits_alone waits"
  shows "keeps_tables (bound_at K) (epts_wf K) channel_ok (ns_announce K waits flags d)"
  unfolding keeps_tables_def
proof (intro allI impI)
  fix s err and s' :: "('a, 'b, 'c) rpmsg_bus_scheme"
  assume "ns_announce K waits flags d s = Returns (err, s')"
  then have "epts s' = epts s \<and> rpdevs s' = rpdevs s \<and> endpoints (vrp s') = endpoints (vrp s)"
    using send_raw_objects(1,2) send_raw_endpoints [OF assms]
    by (fastforce simp: ns_announce_def rpmsg_sendto_def ept_dispatch_def virtio_endpoint_ops_def
        virtio_rpmsg_sendto_def split: if_splits option.splits)
  then show "bound_at K s' = bound_at K s \<and> epts s' = epts s \<and> rpdevs s' = rpdevs s \<and>
      (epts_wf K s \<longrightarrow> epts_wf K s') \<and> (\<forall>d. channel_ok d s' = channel_ok d s)"
    by (simp add: bound_at_def epts_wf_def channel_ok_def)
qed


text \<open>A channel with no endpoint yet, on a remote processor without a name service.\<close>

definition sim_bare :: "(sim_vq, (u32 \<times> addr) list) rpmsg_bus" where
  "sim_bare = sim_bus\<lparr>vrp := sim_vrp\<lparr>endpoints := [], has_feature := (\<lambda>_. False)\<rparr>, epts := (\<lambda>_. None),
     rpdevs := [1 \<mapsto> sim_rpdev\<lparr>rp_ept := None\<rparr>]\<rparr>"

definition sim_driver :: "(sim_vq, (u32 \<times> addr) list) rpmsg_bus rpmsg_driver" where
  "sim_driver = \<lparr>drv_callback = Some (Driver_cb 0), drv_probe = (\<lambda>d s. Returns (0, s)), drv_remove = None\<rparr>"

definition sim_probed :: "(sim_vq, (u32 \<times> addr) list) rpmsg_bus" where
  "sim_probed = sim_bare\<lparr>vrp := (vrp sim_bare)\<lparr>endpoints := [(1024, 3)]\<rparr>,
     epts := [3 \<mapsto> \<lparr>ep_rpdev = Some 1, ep_cb = Some (Driver_cb 0), ep_priv = Priv_null, ep_addr = 1024, ep_refcount = 1\<rparr>],
     rpdevs := [1 \<mapsto> sim_rpdev\<lparr>rp_ept := Some 3, rp_src := 1024\<rparr>]\<rparr>"

lemma sim_bare_ok: "epts_wf sim_kernel sim_bare" "channel_ok 1 sim_bare"
  "rpdevs sim_bare 1 = Some (sim_rpdev\<lparr>rp_ept := None\<rparr>)"
  using sim_idr_laws
  by (simp_all add: epts_wf_def bound_at_def sim_kernel_def sim_bare_def sim_vrp_def channel_ok_def sim_rpdev_def)

lemma sim_announce_quiet: "ns_announce K w flags 1 sim_probed = Returns (0, sim_probed)"
  by (simp add: ns_announce_def sim_probed_def sim_bare_def sim_rpdev_def)

lemma sim_bare_create:
  assumes "ch_src ch = 1024"
  shows "virtio_rpmsg_create_ept sim_kernel (Some 3) 1 (Driver_cb 0) Priv_null ch sim_bare =
    Returns (Some 3, sim_bare\<lparr>vrp := (vrp sim_bare)\<lparr>endpoints := [(1024, 3)]\<rparr>,
      epts := [3 \<mapsto> \<lparr>ep_rpdev = Some 1, ep_cb = Some (Driver_cb 0), ep_priv = Priv_null, ep_addr = 1024, ep_refcount = 1\<rparr>]\<rparr>)"
proof -
  have "id_range 1024 = (1024, 1025)" by (simp add: id_range_def RPMSG_ADDR_ANY_def int_of_u32_def)
  moreover have "endpoints (vrp sim_bare) = []" "epts sim_bare = (\<lambda>_. None)"
    by (simp_all add: sim_bare_def sim_vrp_def)
  moreover have "idr_alloc sim_kernel [] 3 1024 1025 = (1024, [(1024, 3)])"
    by (simp add: sim_kernel_def sim_idr_alloc_def upto_rec1)
  ultimately show ?thesis
    unfolding virtio_create_eq [OF sim_bare_ok(2)] do_rpmsg_create_ept_def Let_def assms by simp
qed

lemma sim_probe_create:
  "dev_probe_create (virtio_rpmsg_ops sim_kernel w) (Some 3) (Some (Driver_cb 0)) 1 sim_bare =
     Returns (0, Some 3, sim_probed)"
proof -
  have src: "rp_src (sim_rpdev\<lparr>rp_ept := None\<rparr>) = 1024" by (simp add: sim_rpdev_def)
  let ?ch = "\<lparr>ch_name = strncpy (rp_name (sim_rpdev\<lparr>rp_ept := None\<rparr>)) RPMSG_NAME_SIZE,
    ch_src = rp_src (sim_rpdev\<lparr>rp_ept := None\<rparr>), ch_dst = RPMSG_ADDR_ANY\<rparr>"
  have ch: "ch_src ?ch = 1024" using src by simp
  have op: "op_create_ept (virtio_rpmsg_ops sim_kernel w) = virtio_rpmsg_create_ept sim_kernel"
    by (simp add: virtio_rpmsg_ops_def)
  have d: "deref (rpdevs sim_bare) 1 = Returns (sim_rpdev\<lparr>rp_ept := None\<rparr>)"
    by (simp only: deref_eq_Returns sim_bare_ok(3))
  show ?thesis
    unfolding dev_probe_create_def option.case d bind_outcome.simps rpmsg_create_ept_def op sim_bare_create [OF ch] prod.case
    by (simp add: sim_probed_def sim_bare_def sim_bus_def)
qed


end
