(* ===== verification/TxSenders.thy ===== *)
theory TxSenders
  imports TxPath
begin

text \<open>
  Concurrent senders on one remote processor. Every region that
  \<open>rpmsg_send_offchannel_raw\<close> runs under \<open>tx_lock\<close> is one step, taken by any thread at
  any time; the remote processor moves in between, using buffers that are on the transmit
  queue. The state of a thread is the point of the function it has reached. The steps call
  the definitions of TxPath. What is proved is the ownership discipline of the buffers and
  the meaning of the sleeper count.
\<close>

section \<open>The system\<close>

datatype sender =
  Idle
| Must_sleep
| Asleep
| Woken addr
| Slept_out
| Interrupted
| Owner addr
| Finished int

record ('q, 'i) tx_system =
  tx_bus :: "('q, 'i) rpmsg_bus"
  sender_of :: "nat \<Rightarrow> sender"
  lost_bufs :: "addr set"

text \<open>
  The buffer a thread holds, and whether it stands between
  \<open>rpmsg_upref_sleepers\<close> and \<open>rpmsg_downref_sleepers\<close>. A buffer whose
  \<open>virtqueue_add_outbuf\<close> failed belongs to nobody any more; \<open>lost_bufs\<close> records it.
\<close>

fun holds :: "sender \<Rightarrow> addr option" where
  "holds (Woken a) = Some a"
| "holds (Owner a) = Some a"
| "holds _ = None"

fun sleeping :: "sender \<Rightarrow> bool" where
  "sleeping Asleep = True"
| "sleeping (Woken a) = True"
| "sleeping Slept_out = True"
| "sleeping Interrupted = True"
| "sleeping _ = False"

definition with_vrp ::
  "('q, 'i) tx_system \<Rightarrow> ('q, 'i) virtproc_info \<Rightarrow> nat \<Rightarrow> sender \<Rightarrow> ('q, 'i) tx_system" where
  "with_vrp s v t pc = s\<lparr>tx_bus := (tx_bus s)\<lparr>vrp := v\<rparr>, sender_of := (sender_of s)(t := pc)\<rparr>"

inductive tx_step ::
  "('q, 'i) kernel \<Rightarrow> ('q \<Rightarrow> 'q \<Rightarrow> bool) \<Rightarrow> ('q, 'i) tx_system \<Rightarrow> ('q, 'i) tx_system \<Rightarrow> bool"
  for K :: "('q, 'i) kernel" and remote :: "'q \<Rightarrow> 'q \<Rightarrow> bool" where
  grab: "sender_of s t = Idle \<Longrightarrow> get_a_tx_buf K (vrp (tx_bus s)) = (Some a, v) \<Longrightarrow>
    tx_step K remote s (with_vrp s v t (Owner a))"
| grab_wait: "sender_of s t = Idle \<Longrightarrow> get_a_tx_buf K (vrp (tx_bus s)) = (None, v) \<Longrightarrow>
    tx_step K remote s (with_vrp s v t Must_sleep)"
| grab_try: "sender_of s t = Idle \<Longrightarrow> get_a_tx_buf K (vrp (tx_bus s)) = (None, v) \<Longrightarrow>
    tx_step K remote s (with_vrp s v t (Finished (- ENOMEM)))"
| upref: "sender_of s t = Must_sleep \<Longrightarrow>
    tx_step K remote s (with_vrp s (rpmsg_upref_sleepers K (vrp (tx_bus s))) t Asleep)"
| poll_some: "sender_of s t = Asleep \<Longrightarrow> get_a_tx_buf K (vrp (tx_bus s)) = (Some a, v) \<Longrightarrow>
    tx_step K remote s (with_vrp s v t (Woken a))"
| poll_none: "sender_of s t = Asleep \<Longrightarrow> get_a_tx_buf K (vrp (tx_bus s)) = (None, v) \<Longrightarrow>
    tx_step K remote s (with_vrp s v t Asleep)"
| time_out: "sender_of s t = Asleep \<Longrightarrow>
    tx_step K remote s (with_vrp s (vrp (tx_bus s)) t Slept_out)"
| signal: "sender_of s t = Asleep \<Longrightarrow>
    tx_step K remote s (with_vrp s (vrp (tx_bus s)) t Interrupted)"
| downref_some: "sender_of s t = Woken a \<Longrightarrow>
    tx_step K remote s (with_vrp s (rpmsg_downref_sleepers K (vrp (tx_bus s))) t (Owner a))"
| downref_timeout: "sender_of s t = Slept_out \<Longrightarrow>
    tx_step K remote s (with_vrp s (rpmsg_downref_sleepers K (vrp (tx_bus s))) t (Finished (- ERESTARTSYS)))"
| downref_signal: "sender_of s t = Interrupted \<Longrightarrow>
    tx_step K remote s (with_vrp s (rpmsg_downref_sleepers K (vrp (tx_bus s))) t Must_sleep)"
| submit: "sender_of s t = Owner a \<Longrightarrow> send_tx_buf K src dst data len a (tx_bus s) = (err, b) \<Longrightarrow>
    tx_step K remote s
      (s\<lparr>tx_bus := b, sender_of := (sender_of s)(t := Finished err),
         lost_bufs := (if err = 0 then lost_bufs s else insert a (lost_bufs s))\<rparr>)"
| leave: "sender_of s t = Finished err \<Longrightarrow>
    tx_step K remote s (with_vrp s (vrp (tx_bus s)) t Idle)"
| remote_moves: "remote (svq (vrp (tx_bus s))) q \<Longrightarrow>
    tx_step K remote s (s\<lparr>tx_bus := (tx_bus s)\<lparr>vrp := (vrp (tx_bus s))\<lparr>svq := q\<rparr>\<rparr>\<rparr>)"

text \<open>
  The system starts as \<open>rpmsg_probe\<close> leaves it: no buffer handed out, nobody asleep, the
  transmit queue empty and its callbacks off.
\<close>

definition tx_init :: "('q \<Rightarrow> addr multiset) \<Rightarrow> ('q \<Rightarrow> bool) \<Rightarrow> ('q, 'i) tx_system \<Rightarrow> bool" where
  "tx_init queued cb_on s \<longleftrightarrow>
     tx_wf queued (vrp (tx_bus s)) \<and> last_sbuf (vrp (tx_bus s)) = 0 \<and> sleepers (vrp (tx_bus s)) = 0 \<and>
     queued (svq (vrp (tx_bus s))) = {#} \<and> \<not> cb_on (svq (vrp (tx_bus s))) \<and>
     (\<forall>t. sender_of s t = Idle) \<and> lost_bufs s = {}"

text \<open>The remote processor uses buffers; it neither adds, removes nor invents any.\<close>

definition remote_law ::
  "('q \<Rightarrow> 'q \<Rightarrow> bool) \<Rightarrow> ('q \<Rightarrow> addr multiset) \<Rightarrow> ('q \<Rightarrow> bool) \<Rightarrow> bool" where
  "remote_law remote queued cb_on \<longleftrightarrow>
     (\<forall>q q'. remote q q' \<longrightarrow> queued q' = queued q \<and> cb_on q' = cb_on q)"

definition env_laws ::
  "('q, 'i) kernel \<Rightarrow> ('q \<Rightarrow> 'q \<Rightarrow> bool) \<Rightarrow> ('q \<Rightarrow> addr multiset) \<Rightarrow> ('q \<Rightarrow> bool) \<Rightarrow> bool" where
  "env_laws K remote queued cb_on \<longleftrightarrow> virtqueue_laws K queued cb_on \<and> remote_law remote queued cb_on"

section \<open>The invariant\<close>

definition owned :: "(nat \<Rightarrow> sender) \<Rightarrow> addr set" where
  "owned f = {a. \<exists>t. holds (f t) = Some a}"

text \<open>Each buffer handed out is on the queue, with one thread, or lost.\<close>

definition parts :: "'a set \<Rightarrow> 'a set \<Rightarrow> 'a set \<Rightarrow> 'a set \<Rightarrow> bool" where
  "parts I Q W L \<longleftrightarrow> I = Q \<union> W \<union> L \<and> Q \<inter> W = {} \<and> Q \<inter> L = {} \<and> W \<inter> L = {}"

definition one_holder :: "(nat \<Rightarrow> sender) \<Rightarrow> bool" where
  "one_holder f \<longleftrightarrow> (\<forall>t u a. holds (f t) = Some a \<longrightarrow> holds (f u) = Some a \<longrightarrow> t = u)"

definition own_inv :: "('q \<Rightarrow> addr multiset) \<Rightarrow> ('q, 'i) tx_system \<Rightarrow> bool" where
  "own_inv queued s \<longleftrightarrow>
     tx_wf queued (vrp (tx_bus s)) \<and> one_holder (sender_of s) \<and>
     (\<forall>a. count (queued (svq (vrp (tx_bus s)))) a \<le> 1) \<and>
     parts (tx_issued (vrp (tx_bus s))) (set_mset (queued (svq (vrp (tx_bus s)))))
       (owned (sender_of s)) (lost_bufs s)"

definition sleep_inv :: "('q \<Rightarrow> bool) \<Rightarrow> ('q, 'i) tx_system \<Rightarrow> bool" where
  "sleep_inv cb_on s \<longleftrightarrow>
     finite {t. sleeping (sender_of s t)} \<and>
     sleepers (vrp (tx_bus s)) = int (card {t. sleeping (sender_of s t)}) \<and>
     cb_on (svq (vrp (tx_bus s))) = (sleepers (vrp (tx_bus s)) \<noteq> 0)"

lemma with_vrp_simps [simp]:
  "vrp (tx_bus (with_vrp s v t pc)) = v"
  "sender_of (with_vrp s v t pc) = (sender_of s)(t := pc)"
  "lost_bufs (with_vrp s v t pc) = lost_bufs s"
  by (simp_all add: with_vrp_def)

lemma parts_fresh: "parts I Q W L \<Longrightarrow> a \<notin> I \<Longrightarrow> parts (insert a I) Q (insert a W) L"
  by (auto simp: parts_def)

lemma parts_recycle: "parts I (insert a Q) W L \<Longrightarrow> a \<notin> Q \<Longrightarrow> parts I Q (insert a W) L"
  by (auto simp: parts_def)

lemma parts_submit: "parts I Q W L \<Longrightarrow> a \<in> W \<Longrightarrow> parts I (insert a Q) (W - {a}) L"
  by (auto simp: parts_def)

lemma parts_lose: "parts I Q W L \<Longrightarrow> a \<in> W \<Longrightarrow> parts I Q (W - {a}) (insert a L)"
  by (auto simp: parts_def)

text \<open>How the set of owned buffers changes when one thread moves.\<close>

lemma owned_same: "holds pc = holds (f t) \<Longrightarrow> owned (f(t := pc)) = owned f"
  by (auto simp: owned_def)

lemma one_holder_same: "holds pc = holds (f t) \<Longrightarrow> one_holder (f(t := pc)) = one_holder f"
  by (auto simp: one_holder_def)

lemma owned_take: "holds (f t) = None \<Longrightarrow> holds pc = Some a \<Longrightarrow> owned (f(t := pc)) = insert a (owned f)"
  unfolding owned_def by (auto split: if_splits) (metis option.distinct(1))+

lemma one_holder_take:
  "one_holder f \<Longrightarrow> holds pc = Some a \<Longrightarrow> a \<notin> owned f \<Longrightarrow> one_holder (f(t := pc))"
  by (auto simp: one_holder_def owned_def)

lemma owned_give:
  assumes "one_holder f" and "holds (f t) = Some a" and "holds pc = None"
  shows "owned (f(t := pc)) = owned f - {a}"
proof -
  have only: "holds (f u) = Some a \<Longrightarrow> u = t" for u
    using assms(1,2) by (simp add: one_holder_def)
  have "b \<in> owned (f(t := pc)) \<longleftrightarrow> b \<in> owned f \<and> b \<noteq> a" for b
  proof
    assume "b \<in> owned (f(t := pc))"
    then obtain u where u: "holds ((f(t := pc)) u) = Some b" by (auto simp: owned_def)
    then have "u \<noteq> t" using assms(3) by auto
    with u only show "b \<in> owned f \<and> b \<noteq> a" by (auto simp: owned_def)
  next
    assume "b \<in> owned f \<and> b \<noteq> a"
    then obtain u where "holds (f u) = Some b" and "b \<noteq> a" by (auto simp: owned_def)
    then have "holds ((f(t := pc)) u) = Some b" using assms(2) by auto
    then show "b \<in> owned (f(t := pc))" unfolding owned_def by blast
  qed
  then show ?thesis by auto
qed

lemma one_holder_give: "one_holder f \<Longrightarrow> holds pc = None \<Longrightarrow> one_holder (f(t := pc))"
  by (auto simp: one_holder_def)

subsection \<open>Ownership\<close>

text \<open>A step that neither moves a buffer nor changes the queue's tokens.\<close>

lemma own_inv_keep:
  assumes "own_inv queued s" and "tx_wf queued v" and "queued (svq v) = queued (svq (vrp (tx_bus s)))"
    and "tx_issued v = tx_issued (vrp (tx_bus s))" and "holds pc = holds (sender_of s t)"
  shows "own_inv queued (with_vrp s v t pc)"
  using assms(1-4) owned_same [of pc "sender_of s" t] one_holder_same [of pc "sender_of s" t] assms(5)
  by (simp add: own_inv_def)

text \<open>A thread that holds nothing is given a buffer by the allocator.\<close>

lemma own_inv_get:
  assumes laws: "virtqueue_laws K queued cb_on" and inv: "own_inv queued s"
    and get: "get_a_tx_buf K (vrp (tx_bus s)) = (Some a, v)"
    and free: "holds (sender_of s t) = None" and pc: "holds pc = Some a"
  shows "own_inv queued (with_vrp s v t pc)"
proof -
  let ?v = "vrp (tx_bus s)" and ?f = "sender_of s" and ?L = "lost_bufs s"
  note inv' = inv [unfolded own_inv_def]
  have wf: "tx_wf queued ?v" using inv' by simp
  have main: "parts (tx_issued v) (set_mset (queued (svq v))) (insert a (owned ?f)) ?L \<and>
    a \<notin> owned ?f \<and> (\<forall>b. count (queued (svq v)) b \<le> 1)"
  proof (cases rule: get_a_tx_buf_Some [OF laws wf get])
    case 1
    have "a \<notin> tx_issued ?v" using 1(1) tx_slot_next_fresh by simp
    moreover from this have "a \<notin> owned ?f" using inv' by (auto simp: parts_def)
    moreover have "tx_issued v = insert a (tx_issued ?v)" and "svq v = svq ?v"
      using 1 wf by (simp_all add: tx_wf_def tx_issued_next)
    ultimately show ?thesis
      using inv' parts_fresh by metis
  next
    case (2 q)
    have cnt: "count (queued (svq ?v)) b \<le> 1" for b using inv' by simp
    have fresh: "a \<notin># queued q" using cnt [of a] 2(1) by (simp add: not_in_iff)
    have le: "count (queued q) b \<le> 1" for b using cnt [of b] 2(1) by (simp split: if_splits)
    have pt: "parts (tx_issued ?v) (insert a (set_mset (queued q))) (owned ?f) ?L"
      using inv' 2(1) by simp
    then have "a \<notin> owned ?f" by (auto simp: parts_def)
    then show ?thesis
      using parts_recycle [OF pt fresh] le 2(2) by simp
  qed
  have "tx_wf queued v" by (rule get_a_tx_buf_wf [OF laws wf get])
  moreover have "owned (?f(t := pc)) = insert a (owned ?f)"
    by (rule owned_take) (fact free pc)+
  moreover have "one_holder (?f(t := pc))"
    using inv' main pc by (blast intro: one_holder_take)
  ultimately show ?thesis
    using main by (simp add: own_inv_def)
qed

text \<open>A thread gives its buffer to the queue, or loses it when the queue refuses.\<close>

lemma own_inv_submit:
  assumes laws: "virtqueue_laws K queued cb_on" and inv: "own_inv queued s"
    and own: "sender_of s t = Owner a" and send: "send_tx_buf K src dst data len a (tx_bus s) = (err, b)"
  shows "own_inv queued (s\<lparr>tx_bus := b, sender_of := (sender_of s)(t := Finished err),
    lost_bufs := (if err = 0 then lost_bufs s else insert a (lost_bufs s))\<rparr>)"
proof -
  let ?v = "vrp (tx_bus s)" and ?f = "sender_of s"
  note inv' = inv [unfolded own_inv_def]
  obtain q where b: "vrp b = ?v\<lparr>svq := q\<rparr>"
    "queued q = (if err = 0 then add_mset a (queued (svq ?v)) else queued (svq ?v))"
    by (rule send_tx_buf_vrp [OF laws send refl], rule that)
  have a: "a \<in> owned ?f" using own by (auto simp: owned_def intro: exI [of _ t])
  have own': "owned (?f(t := Finished err)) = owned ?f - {a}"
    using inv' own by (intro owned_give) simp_all
  have one: "one_holder (?f(t := Finished err))"
    using inv' by (intro one_holder_give) simp_all
  have issued: "a \<in> tx_issued ?v" and unqueued: "a \<notin># queued (svq ?v)"
    using a inv' by (auto simp: parts_def)
  have wf: "tx_wf queued (?v\<lparr>svq := q\<rparr>)"
    using inv' b(2) issued by (simp add: tx_wf_def)
  have cnt: "count (queued q) c \<le> 1" for c
    using inv' b(2) unqueued by (cases "c = a") (simp_all add: not_in_iff)
  have pt: "parts (tx_issued ?v) (set_mset (queued (svq ?v))) (owned ?f) (lost_bufs s)"
    using inv' by simp
  show ?thesis
    using parts_submit [OF pt a] parts_lose [OF pt a] wf cnt one own' b
    by (simp add: own_inv_def)
qed

lemma own_inv_step:
  assumes env: "env_laws K remote queued cb_on" and inv: "own_inv queued s" and step: "tx_step K remote s s'"
  shows "own_inv queued s'"
proof -
  have laws: "virtqueue_laws K queued cb_on" using env by (simp add: env_laws_def)
  have wf: "tx_wf queued (vrp (tx_bus s))" using inv by (simp add: own_inv_def)
  note get = own_inv_get [OF laws inv]
  have none: "own_inv queued (with_vrp s v t pc)"
    if "get_a_tx_buf K (vrp (tx_bus s)) = (None, v)" and "holds pc = holds (sender_of s t)" for v t pc
    by (rule get_a_tx_buf_None [OF laws wf that(1)])
       (rule own_inv_keep [OF inv get_a_tx_buf_wf [OF laws wf that(1)] _ _ that(2)], simp_all)
  have keep: "own_inv queued (with_vrp s (vrp (tx_bus s)) t pc)"
    if "holds pc = holds (sender_of s t)" for t pc
    by (rule own_inv_keep [OF inv wf _ _ that]) simp_all
  have up: "own_inv queued (with_vrp s (rpmsg_upref_sleepers K (vrp (tx_bus s))) t pc)"
    and down: "own_inv queued (with_vrp s (rpmsg_downref_sleepers K (vrp (tx_bus s))) t pc)"
    if "holds pc = holds (sender_of s t)" for t pc
    by (rule own_inv_keep [OF inv _ _ _ that];
        simp add: sleepers_wf [OF laws] sleepers_queued [OF laws] wf)+
  from step show ?thesis
  proof cases
    case (submit t a src dst data len err b)
    show ?thesis
      unfolding submit(1) by (rule own_inv_submit [OF laws inv submit(2,3)])
  next
    case (remote_moves q)
    have "queued q = queued (svq (vrp (tx_bus s)))"
      using env remote_moves(2) by (auto simp: env_laws_def remote_law_def)
    then show ?thesis
      using inv remote_moves(1) by (simp add: own_inv_def tx_wf_def)
  qed (simp_all add: get none keep up down)
qed

subsection \<open>The sleeper count\<close>

lemma sleep_inv_keep:
  assumes "sleep_inv cb_on s" and "sleepers v = sleepers (vrp (tx_bus s))"
    and "cb_on (svq v) = cb_on (svq (vrp (tx_bus s)))" and "sleeping pc = sleeping (sender_of s t)"
  shows "sleep_inv cb_on (with_vrp s v t pc)"
  using assms card_upd_same [of sleeping pc "sender_of s" t] by (simp add: sleep_inv_def)

lemma sleep_inv_upref:
  assumes laws: "virtqueue_laws K queued cb_on" and inv: "sleep_inv cb_on s"
    and "\<not> sleeping (sender_of s t)" and "sleeping pc"
  shows "sleep_inv cb_on (with_vrp s (rpmsg_upref_sleepers K (vrp (tx_bus s))) t pc)"
proof -
  have fin: "finite {t. sleeping (sender_of s t)}" using inv by (simp add: sleep_inv_def)
  show ?thesis
    using inv card_upd_in [of sleeping "sender_of s" pc t] finite_upd [of sleeping "sender_of s" t pc] fin assms(3,4)
      sleepers_cb_on [OF laws, of "vrp (tx_bus s)"]
    by (auto simp: sleep_inv_def)
qed

lemma sleep_inv_downref:
  assumes laws: "virtqueue_laws K queued cb_on" and inv: "sleep_inv cb_on s"
    and "sleeping (sender_of s t)" and "\<not> sleeping pc"
  shows "sleep_inv cb_on (with_vrp s (rpmsg_downref_sleepers K (vrp (tx_bus s))) t pc)"
proof -
  have fin: "finite {t. sleeping (sender_of s t)}" using inv by (simp add: sleep_inv_def)
  show ?thesis
    using inv card_upd_out [of sleeping "sender_of s" pc t] finite_upd [of sleeping "sender_of s" t pc] fin assms(3,4)
      sleepers_cb_on [OF laws, of "vrp (tx_bus s)"]
    by (auto simp: sleep_inv_def)
qed

lemma get_a_tx_buf_cb_on:
  assumes "virtqueue_laws K queued cb_on" and "get_a_tx_buf K v = (r, v')"
  shows "cb_on (svq v') = cb_on (svq v)"
proof -
  obtain b q where vq: "virtqueue_get_buf K (svq v) = (b, q)" by fastforce
  have "cb_on q = cb_on (svq v)"
  proof (cases b)
    case None
    with vq show ?thesis using virtqueue_get_buf_NoneD(2) [OF assms(1)] by simp
  next
    case (Some x)
    with vq show ?thesis using virtqueue_get_buf_SomeD(2) [OF assms(1)] by (cases x) simp
  qed
  with vq assms(2) show ?thesis
    by (auto simp: get_a_tx_buf_def split: if_splits)
qed

lemma sleep_inv_step:
  assumes env: "env_laws K remote queued cb_on" and inv: "sleep_inv cb_on s"
    and step: "tx_step K remote s s'"
  shows "sleep_inv cb_on s'"
proof -
  have laws: "virtqueue_laws K queued cb_on" using env by (simp add: env_laws_def)
  have get: "sleep_inv cb_on (with_vrp s v t pc)"
    if "get_a_tx_buf K (vrp (tx_bus s)) = (r, v)" and "sleeping pc = sleeping (sender_of s t)" for r v t pc
    by (rule sleep_inv_keep [OF inv _ get_a_tx_buf_cb_on [OF laws that(1)] that(2)])
       (simp add: get_a_tx_buf_frame(4) [OF that(1)])
  have keep: "sleep_inv cb_on (with_vrp s (vrp (tx_bus s)) t pc)"
    if "sleeping pc = sleeping (sender_of s t)" for t pc
    by (rule sleep_inv_keep [OF inv _ _ that]) simp_all
  from step show ?thesis
  proof cases
    case (submit t a src dst data len err b)
    obtain q where "vrp b = (vrp (tx_bus s))\<lparr>svq := q\<rparr>" and "cb_on q = cb_on (svq (vrp (tx_bus s)))"
      by (rule send_tx_buf_vrp [OF laws submit(3) refl], rule that)
    then show ?thesis
      using inv submit card_upd_same [of sleeping "Finished err" "sender_of s" t]
      by (simp add: sleep_inv_def)
  next
    case (remote_moves q)
    then show ?thesis
      using inv env by (auto simp: sleep_inv_def env_laws_def remote_law_def)
  qed (simp_all add: get keep sleep_inv_upref [OF laws inv] sleep_inv_downref [OF laws inv])
qed

section \<open>Reachable states\<close>

definition tx_start where
  "tx_start K remote queued cb_on s \<longleftrightarrow> env_laws K remote queued cb_on \<and> tx_init queued cb_on s"

definition tx_inv where
  "tx_inv K remote queued cb_on s \<longleftrightarrow>
     env_laws K remote queued cb_on \<and> own_inv queued s \<and> sleep_inv cb_on s"

lemma tx_inv_start: "tx_start K remote queued cb_on s \<Longrightarrow> tx_inv K remote queued cb_on s"
  by (auto simp: tx_start_def tx_init_def tx_inv_def own_inv_def sleep_inv_def parts_def one_holder_def
      owned_def tx_issued_def)

interpretation senders: inductive_invariant
  "tx_start K remote queued cb_on" "tx_step K remote" "tx_inv K remote queued cb_on"
  for K :: "('q, 'i) kernel" and remote queued cb_on
proof
  show "tx_inv K remote queued cb_on s" if "tx_start K remote queued cb_on s" for s
    using that by (rule tx_inv_start)
  show "tx_inv K remote queued cb_on t" if "tx_inv K remote queued cb_on s" and "tx_step K remote s t" for s t
    using that own_inv_step sleep_inv_step unfolding tx_inv_def by blast
qed

text \<open>The steps a thread can take from each point, for the witnesses.\<close>

lemma tx_step_grab:
  "sender_of s t = Idle \<Longrightarrow> get_a_tx_buf K (vrp (tx_bus s)) = (Some a, v) \<Longrightarrow> s' = with_vrp s v t (Owner a) \<Longrightarrow>
   tx_step K remote s s'"
  by (auto intro: tx_step.grab)

lemma tx_step_wait:
  "sender_of s t = Idle \<Longrightarrow> get_a_tx_buf K (vrp (tx_bus s)) = (None, v) \<Longrightarrow> s' = with_vrp s v t Must_sleep \<Longrightarrow>
   tx_step K remote s s'"
  by (auto intro: tx_step.grab_wait)

lemma tx_step_upref:
  "sender_of s t = Must_sleep \<Longrightarrow> s' = with_vrp s (rpmsg_upref_sleepers K (vrp (tx_bus s))) t Asleep \<Longrightarrow>
   tx_step K remote s s'"
  by (auto intro: tx_step.upref)

section \<open>Properties\<close>

text \<open>
  C8. However the senders and the remote processor interleave, a transmit buffer never
  has two owners: two threads that hold the same buffer are the same thread, a held buffer
  is not on the queue, the queue holds no buffer twice, and every buffer handed out is
  accounted for.
\<close>

theorem tx_buffers_one_owner:
  assumes "reachable (tx_start K remote queued cb_on) (tx_step K remote) s"
  shows "(\<forall>t u a. holds (sender_of s t) = Some a \<and> holds (sender_of s u) = Some a \<longrightarrow> t = u) \<and>
    (\<forall>a. count (queued (svq (vrp (tx_bus s)))) a \<le> 1) \<and>
    parts (tx_issued (vrp (tx_bus s))) (set_mset (queued (svq (vrp (tx_bus s)))))
      (owned (sender_of s)) (lost_bufs s)"
  using senders.reachable_inv [OF assms] by (auto simp: tx_inv_def own_inv_def one_holder_def)

definition sim_senders :: "(sim_vq, (u32 \<times> addr) list) tx_system" where
  "sim_senders = \<lparr>tx_bus = sim_bus, sender_of = (\<lambda>_. Idle), lost_bufs = {}\<rparr>"

lemma sim_env_laws: "env_laws sim_kernel (=) sim_queued sv_cb"
  by (simp add: env_laws_def remote_law_def sim_virtqueue_laws)

lemma sim_senders_start: "tx_start sim_kernel (=) sim_queued sv_cb sim_senders"
  using sim_tx_wf
  by (simp add: tx_start_def sim_env_laws tx_init_def sim_senders_def sim_bus_def)
     (simp add: sim_vrp_def sim_queue_def sim_queued_def)

lemma sim_one_owner_reachable:
  "reachable (tx_start sim_kernel (=) sim_queued sv_cb) (tx_step sim_kernel (=))
     (with_vrp sim_senders (sim_vrp\<lparr>last_sbuf := 1\<rparr>) 3 (Owner 6144))"
  by (rule reachable.next_state, rule reachable.start, rule sim_senders_start,
      rule tx_step_grab [OF _ _ refl])
     (simp_all add: sim_senders_def sim_bus_def sim_first_tx_buf)

theorem tx_buffers_one_owner_witness:
  "6144 \<notin># sim_queued (svq (sim_vrp\<lparr>last_sbuf := 1\<rparr>))"
proof -
  let ?s = "with_vrp sim_senders (sim_vrp\<lparr>last_sbuf := 1\<rparr>) 3 (Owner 6144)"
  have "6144 \<in> owned (sender_of ?s)" by (auto simp: owned_def intro: exI [of _ 3])
  then show ?thesis
    using tx_buffers_one_owner [OF sim_one_owner_reachable] by (auto simp: parts_def)
qed

text \<open>
  C24. The sleeper count is the number of threads that sleep, and the "tx-complete"
  callbacks are on exactly while it is not zero; so whenever a sender is asleep, the
  callbacks that wake it are on.
\<close>

theorem sleepers_count_sleepers:
  assumes "reachable (tx_start K remote queued cb_on) (tx_step K remote) s"
  shows "sleepers (vrp (tx_bus s)) = int (card {t. sleeping (sender_of s t)}) \<and>
    cb_on (svq (vrp (tx_bus s))) = (\<exists>t. sleeping (sender_of s t))"
proof -
  have inv: "sleep_inv cb_on s"
    using senders.reachable_inv [OF assms] by (simp add: tx_inv_def)
  then have "sleepers (vrp (tx_bus s)) \<noteq> 0 \<longleftrightarrow> {t. sleeping (sender_of s t)} \<noteq> {}"
    by (simp add: sleep_inv_def)
  with inv show ?thesis by (auto simp: sleep_inv_def)
qed

text \<open>With a single transmit buffer, a first sender takes it and a second goes to sleep.\<close>

definition sim_single :: "(sim_vq, (u32 \<times> addr) list) tx_system" where
  "sim_single = sim_senders\<lparr>tx_bus := sim_bus\<lparr>vrp := sim_vrp\<lparr>num_bufs := 2\<rparr>\<rparr>\<rparr>"

definition sim_asleep :: "(sim_vq, (u32 \<times> addr) list) tx_system" where
  "sim_asleep =
     (let v = sim_vrp\<lparr>num_bufs := 2, last_sbuf := 1\<rparr>;
          s = with_vrp (with_vrp sim_single v 0 (Owner 6144)) v 1 Must_sleep
      in with_vrp s (rpmsg_upref_sleepers sim_kernel v) 1 Asleep)"

lemma sim_asleep_reachable:
  "reachable (tx_start sim_kernel (=) sim_queued sv_cb) (tx_step sim_kernel (=)) sim_asleep"
proof -
  let ?R = "reachable (tx_start sim_kernel (=) sim_queued sv_cb) (tx_step sim_kernel (=))"
  let ?v = "sim_vrp\<lparr>num_bufs := 2, last_sbuf := 1\<rparr>"
  have "tx_start sim_kernel (=) sim_queued sv_cb sim_single"
    by (simp add: tx_start_def sim_env_laws tx_init_def sim_single_def sim_senders_def sim_bus_def tx_wf_def)
       (simp add: sim_vrp_def sim_queue_def sim_queued_def rpmsg_consts)
  then have "?R sim_single" by (rule reachable.start)
  then have "?R (with_vrp sim_single ?v 0 (Owner 6144))"
    by (rule reachable.next_state, intro tx_step_grab [OF _ _ refl])
       (simp_all add: sim_single_def sim_senders_def sim_bus_def get_a_tx_buf_def sim_vrp_def u32_of_int_def)
  then have "?R (with_vrp (with_vrp sim_single ?v 0 (Owner 6144)) ?v 1 Must_sleep)"
    by (rule reachable.next_state, intro tx_step_wait [OF _ _ refl])
       (simp_all add: sim_single_def sim_senders_def get_a_tx_buf_def u32_of_int_def
         sim_kernel_def sim_get_buf_def sim_vrp_def sim_queue_def)
  then show ?thesis
    by (rule reachable.next_state, intro tx_step_upref [where t = 1]) (simp_all add: sim_asleep_def Let_def)
qed

theorem sleepers_count_sleepers_witness:
  "sv_cb (svq (vrp (tx_bus sim_asleep)))"
proof -
  have "sleeping (sender_of sim_asleep 1)" by (simp add: sim_asleep_def Let_def)
  then show ?thesis
    using sleepers_count_sleepers [OF sim_asleep_reachable] by blast
qed

end
