(* ===== verification/VirtioProbe.thy ===== *)
theory VirtioProbe
  imports NameService TxSenders
begin

text \<open>
  Probing and removing a remote processor (\<open>rpmsg_probe\<close>, \<open>rpmsg_remove\<close> of
  virtio_rpmsg_bus.c) and the test device the bus creates when its module is loaded. What the
  allocators and the transport answer is in the record \<open>probe_env\<close>; the resources a probe
  holds are kept in a ledger, so that its error paths can be checked.
\<close>

section \<open>Probe\<close>

datatype resource = Vrp_mem | Vqs | Dma_mem

record 'q probe_env =
  pe_kzalloc :: bool
  pe_features :: "nat \<Rightarrow> bool"
  pe_find_vqs :: "int \<times> 'q \<times> 'q"
  pe_dma_alloc :: "(addr \<times> nat) option"
  pe_ns_alloc :: "addr option"

definition probe_num_bufs :: "u32 \<Rightarrow> u32" where
  "probe_num_bufs vring = (if vring < MAX_RPMSG_NUM_BUFS div 2 then vring * 2 else MAX_RPMSG_NUM_BUFS)"

text \<open>The loop that stocks the receive queue, from buffer \<open>i\<close> on.\<close>

fun stock_rx ::
  "('q, 'i, 'z) kernel_scheme \<Rightarrow> nat \<Rightarrow> nat \<Rightarrow> ('q, 'i) virtproc_info \<Rightarrow> ('q, 'i) virtproc_info" where
  "stock_rx K 0 i v = v"
| "stock_rx K (Suc n) i v =
     (let cpu_addr = rbufs v + unat (of_nat i * buf_size v)
      in stock_rx K n (Suc i)
           (v\<lparr>rvq := snd (virtqueue_add_inbuf K (rvq v) (rpmsg_sg_init K cpu_addr (buf_size v)) cpu_addr)\<rparr>))"

definition probe_vrp ::
  "('q, 'i, 'z) kernel_scheme \<Rightarrow> 'q probe_env \<Rightarrow> addr \<Rightarrow> nat \<Rightarrow> ('q, 'i) virtproc_info" where
  "probe_vrp K env va dma =
     (let rq = fst (snd (pe_find_vqs env)); sq = snd (snd (pe_find_vqs env));
          n = probe_num_bufs (virtqueue_get_vring_size K rq);
          total = unat (n * MAX_RPMSG_BUF_SIZE);
          v = \<lparr>has_feature = pe_features env, rvq = rq, svq = sq, rbufs = va, sbufs = va + total div 2,
               num_bufs = n, buf_size = MAX_RPMSG_BUF_SIZE, last_sbuf = 0, bufs_dma = dma,
               endpoints = idr_init K, sleepers = 0, ns_ept = None\<rparr>;
          v1 = stock_rx K (unat (n div 2)) 0 v
      in v1\<lparr>svq := virtqueue_disable_cb K (svq v1)\<rparr>)"

text \<open>From \<open>virtqueue_kick_prepare\<close> to the return.\<close>

definition probe_ready ::
  "('q, 'i, 'z) kernel_scheme \<Rightarrow> ('q, 'i, 'y) rpmsg_bus_scheme \<Rightarrow> ('q, 'i, 'y) rpmsg_bus_scheme" where
  "probe_ready K s =
     (case virtqueue_kick_prepare K (rvq (vrp s)) of
        (notify, q) \<Rightarrow> s\<lparr>vrp := (vrp s)\<lparr>rvq := (if notify then virtqueue_notify K q else q)\<rparr>\<rparr>)"

definition rpmsg_probe ::
  "('q, 'i, 'z) kernel_scheme \<Rightarrow> 'q probe_env \<Rightarrow> ('q, 'i, 'y) rpmsg_bus_scheme \<Rightarrow>
   (int \<times> resource list \<times> ('q, 'i, 'y) rpmsg_bus_scheme) outcome" where
  "rpmsg_probe K env s =
     (if \<not> pe_kzalloc env then Returns (- ENOMEM, [], s)
      else if fst (pe_find_vqs env) \<noteq> 0 then Returns (fst (pe_find_vqs env), remove1 Vrp_mem [Vrp_mem], s)
      else case pe_dma_alloc env of
        None \<Rightarrow> Returns (- ENOMEM, remove1 Vrp_mem (remove1 Vqs [Vrp_mem, Vqs]), s)
      | Some (va, dma) \<Rightarrow>
          let s1 = s\<lparr>vrp := probe_vrp K env va dma\<rparr>
          in if pe_features env VIRTIO_RPMSG_F_NS
             then bind_outcome (do_rpmsg_create_ept K (pe_ns_alloc env) None Rpmsg_ns_cb Priv_vrp RPMSG_NS_ADDR s1)
               (\<lambda>(ns, s2).
                 let s3 = s2\<lparr>vrp := (vrp s2)\<lparr>ns_ept := ns\<rparr>\<rparr>
                 in if ns = None
                    then Returns (- ENOMEM, remove1 Vrp_mem (remove1 Vqs (remove1 Dma_mem [Vrp_mem, Vqs, Dma_mem])), s3)
                    else Returns (0, [Vrp_mem, Vqs, Dma_mem], probe_ready K s3))
             else Returns (0, [Vrp_mem, Vqs, Dma_mem], probe_ready K s1))"

section \<open>Remove\<close>

text \<open>
  \<open>device_for_each_child\<close> visits the children it is given one after the other; \<open>idr_destroy\<close>
  leaves the address table empty. The reset of the device has no state here.
\<close>

fun remove_children ::
  "'s driver_core \<Rightarrow> addr list \<Rightarrow> 's \<Rightarrow> 's outcome" where
  "remove_children D [] s = Returns s"
| "remove_children D (d # ds) s = bind_outcome (device_unregister D d s) (remove_children D ds)"

definition rpmsg_remove ::
  "('q, 'i, 'z) kernel_scheme \<Rightarrow> ('q, 'i, 'y) rpmsg_bus_scheme driver_core \<Rightarrow> addr list \<Rightarrow> resource list \<Rightarrow>
   ('q, 'i, 'y) rpmsg_bus_scheme \<Rightarrow> (resource list \<times> ('q, 'i, 'y) rpmsg_bus_scheme) outcome" where
  "rpmsg_remove K D children held s =
     bind_outcome (remove_children D children s) (\<lambda>s1.
     bind_outcome (case ns_ept (vrp s1) of None \<Rightarrow> Returns s1 | Some p \<Rightarrow> do_rpmsg_destroy_ept K p s1) (\<lambda>s2.
     let s3 = s2\<lparr>vrp := (vrp s2)\<lparr>endpoints := idr_init K\<rparr>\<rparr>
     in Returns (remove1 Vrp_mem (remove1 Dma_mem (remove1 Vqs held)), s3)))"

section \<open>The test device\<close>

definition test_device :: rpmsg_device where
  "test_device = \<lparr>rp_container = Virtio_rpmsg_device, rp_name = replicate 32 0, rp_driver_override = None,
     rp_src = RPMSG_ADDR_ANY, rp_dst = RPMSG_ADDR_ANY, rp_ept = None, rp_announce = False, rp_drvdata = None\<rparr>"

definition create_rpmsg_chrdev ::
  "('q, 'i, 'y) rpmsg_bus_scheme driver_core \<Rightarrow> addr option \<Rightarrow> ('q, 'i, 'y) rpmsg_bus_scheme \<Rightarrow>
   (int \<times> ('q, 'i, 'y) rpmsg_bus_scheme) outcome" where
  "create_rpmsg_chrdev D kz s =
     (case kz of None \<Rightarrow> Returns (- ENOMEM, s)
      | Some d \<Rightarrow> rpmsg_chrdev_register_device D d (s\<lparr>rpdevs := (rpdevs s)(d \<mapsto> test_device)\<rparr>))"

text \<open>\<open>reg\<close> is what \<open>register_virtio_driver\<close> returned; the result of the test device is dropped.\<close>

definition virtio_rpmsg_init ::
  "('q, 'i, 'y) rpmsg_bus_scheme driver_core \<Rightarrow> int \<Rightarrow> addr option \<Rightarrow> ('q, 'i, 'y) rpmsg_bus_scheme \<Rightarrow>
   (int \<times> ('q, 'i, 'y) rpmsg_bus_scheme) outcome" where
  "virtio_rpmsg_init D reg kz s = bind_outcome (create_rpmsg_chrdev D kz s) (\<lambda>(_, s1). Returns (reg, s1))"

section \<open>What a probe sets up\<close>

lemma probe_num_bufs_bound:
  "probe_num_bufs n \<le> MAX_RPMSG_NUM_BUFS" "unat (probe_num_bufs n) mod 2 = 0"
proof -
  have "unat (probe_num_bufs n) = (if unat n < 256 then unat n * 2 else 512)"
  proof (cases "n < 256")
    case True
    then have "unat n < 256" by (simp add: word_less_nat_alt)
    then have "unat (n * 2) = unat n * 2" by (simp add: unat_word_ariths)
    with True \<open>unat n < 256\<close> show ?thesis by (simp add: probe_num_bufs_def MAX_RPMSG_NUM_BUFS_def)
  next
    case False
    then have "\<not> unat n < 256" by (simp add: word_less_nat_alt)
    with False show ?thesis by (simp add: probe_num_bufs_def MAX_RPMSG_NUM_BUFS_def)
  qed
  then show "probe_num_bufs n \<le> MAX_RPMSG_NUM_BUFS" "unat (probe_num_bufs n) mod 2 = 0"
    by (auto simp: word_le_nat_alt MAX_RPMSG_NUM_BUFS_def)
qed

lemma stock_rx_frame:
  "last_sbuf (stock_rx K n i v) = last_sbuf v" "sleepers (stock_rx K n i v) = sleepers v"
  "svq (stock_rx K n i v) = svq v" "num_bufs (stock_rx K n i v) = num_bufs v"
  "buf_size (stock_rx K n i v) = buf_size v" "rbufs (stock_rx K n i v) = rbufs v"
  "sbufs (stock_rx K n i v) = sbufs v" "endpoints (stock_rx K n i v) = endpoints v"
  "has_feature (stock_rx K n i v) = has_feature v" "ns_ept (stock_rx K n i v) = ns_ept v"
  by (induction K n i v rule: stock_rx.induct) (simp_all add: Let_def)

lemma stock_rx_queued:
  assumes "virtqueue_laws K queued cb_on" and "buf_size v = MAX_RPMSG_BUF_SIZE" and "i + n \<le> 256"
  shows "\<forall>a. a \<in># queued (rvq (stock_rx K n i v)) \<longrightarrow>
    a \<in># queued (rvq v) \<or> (\<exists>k. i \<le> k \<and> k < i + n \<and> a = rbufs v + 512 * k)"
  using assms(2,3)
proof (induction n arbitrary: i v)
  case (Suc n)
  let ?a = "rbufs v + unat (of_nat i * buf_size v)"
  have a: "?a = rbufs v + 512 * i"
    using Suc.prems by (simp add: MAX_RPMSG_BUF_SIZE_def unat_word_ariths unat_of_nat)
  obtain err q where add: "virtqueue_add_inbuf K (rvq v) (rpmsg_sg_init K ?a (buf_size v)) ?a = (err, q)"
    by fastforce
  have q: "x \<in># queued q \<Longrightarrow> x \<in># queued (rvq v) \<or> x = ?a" for x
    using virtqueue_add_inbufD(3) [OF assms(1) add] by (auto split: if_splits)
  have eq: "stock_rx K (Suc n) i v = stock_rx K n (Suc i) (v\<lparr>rvq := q\<rparr>)"
    using add by (simp add: Let_def)
  have IH: "\<forall>x. x \<in># queued (rvq (stock_rx K n (Suc i) (v\<lparr>rvq := q\<rparr>))) \<longrightarrow>
      x \<in># queued q \<or> (\<exists>k. Suc i \<le> k \<and> k < Suc i + n \<and> x = rbufs v + 512 * k)"
    using Suc.IH [of "v\<lparr>rvq := q\<rparr>" "Suc i"] Suc.prems by simp
  show ?case
  proof (intro allI impI)
    fix x assume "x \<in># queued (rvq (stock_rx K (Suc n) i v))"
    then have "x \<in># queued q \<or> (\<exists>k. Suc i \<le> k \<and> k < Suc i + n \<and> x = rbufs v + 512 * k)"
      using IH unfolding eq by blast
    then show "x \<in># queued (rvq v) \<or> (\<exists>k. i \<le> k \<and> k < i + Suc n \<and> x = rbufs v + 512 * k)"
    proof
      assume "x \<in># queued q"
      with q have "x \<in># queued (rvq v) \<or> x = ?a" by blast
      with a have "x \<in># queued (rvq v) \<or> x = rbufs v + 512 * i" by simp
      then show ?thesis by (elim disjE) (simp, intro disjI2 exI [of _ i], simp)
    next
      assume "\<exists>k. Suc i \<le> k \<and> k < Suc i + n \<and> x = rbufs v + 512 * k"
      then obtain k where "Suc i \<le> k" "k < Suc i + n" "x = rbufs v + 512 * k" by blast
      then show ?thesis by (intro disjI2 exI [of _ k]) simp
    qed
  qed
qed simp

lemma probe_vrp_fields:
  assumes "virtqueue_laws K queued cb_on"
  shows "num_bufs (probe_vrp K env va dma) = probe_num_bufs (virtqueue_get_vring_size K (fst (snd (pe_find_vqs env))))"
    and "buf_size (probe_vrp K env va dma) = MAX_RPMSG_BUF_SIZE" and "last_sbuf (probe_vrp K env va dma) = 0"
    and "sleepers (probe_vrp K env va dma) = 0" and "endpoints (probe_vrp K env va dma) = idr_init K"
    and "rbufs (probe_vrp K env va dma) = va" and "ns_ept (probe_vrp K env va dma) = None"
    and "queued (svq (probe_vrp K env va dma)) = queued (snd (snd (pe_find_vqs env)))"
    and "\<not> cb_on (svq (probe_vrp K env va dma))"
  using virtqueue_signals(3,8) [OF assms]
  by (simp_all add: probe_vrp_def Let_def stock_rx_frame)

lemma half_total:
  assumes "unat (n :: u32) \<le> 512" and "unat n mod 2 = 0"
  shows "unat (n * MAX_RPMSG_BUF_SIZE) div 2 = 512 * (unat n div 2)"
proof -
  have "unat (n * MAX_RPMSG_BUF_SIZE) = unat n * 512"
    using assms(1) by (simp add: MAX_RPMSG_BUF_SIZE_def unat_word_ariths(2))
  moreover obtain m where "unat n = 2 * m" using assms(2) by auto
  ultimately show ?thesis by simp
qed

lemma probe_vrp_halves:
  "sbufs (probe_vrp K env va dma) = va + 512 * (unat (num_bufs (probe_vrp K env va dma)) div 2)"
proof -
  let ?n = "probe_num_bufs (virtqueue_get_vring_size K (fst (snd (pe_find_vqs env))))"
  have n: "unat ?n \<le> 512" "unat ?n mod 2 = 0"
    using probe_num_bufs_bound [of "virtqueue_get_vring_size K (fst (snd (pe_find_vqs env)))"]
    by (simp_all add: word_le_nat_alt MAX_RPMSG_NUM_BUFS_def)
  from half_total [OF this] show ?thesis by (simp add: probe_vrp_def Let_def stock_rx_frame)
qed

lemma probe_vrp_rx:
  assumes "virtqueue_laws K queued cb_on" and "queued (fst (snd (pe_find_vqs env))) = {#}"
    and "a \<in># queued (rvq (probe_vrp K env va dma))"
  shows "\<exists>k < unat (num_bufs (probe_vrp K env va dma)) div 2. a = va + 512 * k"
proof -
  let ?n = "probe_num_bufs (virtqueue_get_vring_size K (fst (snd (pe_find_vqs env))))"
  have n: "unat (?n div 2) + 0 \<le> 256"
    using probe_num_bufs_bound(1) [of "virtqueue_get_vring_size K (fst (snd (pe_find_vqs env)))"]
    by (simp add: word_le_nat_alt MAX_RPMSG_NUM_BUFS_def unat_div)
  let ?v = "\<lparr>has_feature = pe_features env, rvq = fst (snd (pe_find_vqs env)), svq = snd (snd (pe_find_vqs env)), rbufs = va,
      sbufs = va + unat (?n * MAX_RPMSG_BUF_SIZE) div 2,
               num_bufs = ?n, buf_size = MAX_RPMSG_BUF_SIZE, last_sbuf = 0, bufs_dma = dma,
               endpoints = idr_init K, sleepers = 0, ns_ept = None\<rparr>"
  have eq: "rvq (probe_vrp K env va dma) = rvq (stock_rx K (unat (?n div 2)) 0 ?v)"
    by (simp add: probe_vrp_def Let_def)
  have bs: "buf_size ?v = MAX_RPMSG_BUF_SIZE" by simp
  have bound: "0 + unat (?n div 2) \<le> 256" using n by simp
  have "a \<in># queued (rvq ?v) \<or> (\<exists>k. 0 \<le> k \<and> k < 0 + unat (?n div 2) \<and> a = rbufs ?v + 512 * k)"
    using stock_rx_queued [OF assms(1) bs bound] assms(3) unfolding eq by blast
  then obtain k where "k < unat (?n div 2)" "a = va + 512 * k" using assms(2) by auto
  then show ?thesis
    by (intro exI [of _ k]) (simp add: probe_vrp_fields(1) [OF assms(1)] unat_div)
qed

lemma probe_ready_fields:
  assumes "virtqueue_laws K queued cb_on"
  shows "svq (vrp (probe_ready K s)) = svq (vrp s)" and "epts (probe_ready K s) = epts s"
    and "endpoints (vrp (probe_ready K s)) = endpoints (vrp s)"
    and "last_sbuf (vrp (probe_ready K s)) = last_sbuf (vrp s)" and "sleepers (vrp (probe_ready K s)) = sleepers (vrp s)"
    and "num_bufs (vrp (probe_ready K s)) = num_bufs (vrp s)" and "buf_size (vrp (probe_ready K s)) = buf_size (vrp s)"
    and "sbufs (vrp (probe_ready K s)) = sbufs (vrp s)" and "rbufs (vrp (probe_ready K s)) = rbufs (vrp s)"
    and "ns_ept (vrp (probe_ready K s)) = ns_ept (vrp s)"
    and "queued (rvq (vrp (probe_ready K s))) = queued (rvq (vrp s))"
    and "has_feature (vrp (probe_ready K s)) = has_feature (vrp s)" and "mem (probe_ready K s) = mem s"
    and "rpdevs (probe_ready K s) = rpdevs s"
proof -
  have q: "queued q = queued (rvq (vrp s))" if "virtqueue_kick_prepare K (rvq (vrp s)) = (n, q)" for n q
    using virtqueue_signals(5) [OF assms, of "rvq (vrp s)"] that by simp
  show "queued (rvq (vrp (probe_ready K s))) = queued (rvq (vrp s))"
    using q virtqueue_signals(4) [OF assms] by (simp add: probe_ready_def split: prod.splits)
qed (simp_all add: probe_ready_def split: prod.splits)

text \<open>
  The three ways a probe can end: it fails before the remote processor is set up, it fails
  on the name service endpoint, or it succeeds.
\<close>

lemma probe_cases:
  assumes ret: "rpmsg_probe K env s = Returns (err, held, s')"
  obtains (early) "err \<noteq> 0" and "held = []" and "s' = s"
  | (no_ns) va dma s2 where "err = - ENOMEM" and "held = []" and "pe_dma_alloc env = Some (va, dma)"
      and "do_rpmsg_create_ept K (pe_ns_alloc env) None Rpmsg_ns_cb Priv_vrp RPMSG_NS_ADDR
          (s\<lparr>vrp := probe_vrp K env va dma\<rparr>) = Returns (None, s2)"
      and "s' = s2\<lparr>vrp := (vrp s2)\<lparr>ns_ept := None\<rparr>\<rparr>"
  | (plain) va dma where "err = 0" and "held = [Vrp_mem, Vqs, Dma_mem]" and "pe_dma_alloc env = Some (va, dma)"
      and "\<not> pe_features env VIRTIO_RPMSG_F_NS" and "s' = probe_ready K (s\<lparr>vrp := probe_vrp K env va dma\<rparr>)"
  | (ns) va dma p s2 where "err = 0" and "held = [Vrp_mem, Vqs, Dma_mem]" and "pe_dma_alloc env = Some (va, dma)"
      and "pe_features env VIRTIO_RPMSG_F_NS"
      and "do_rpmsg_create_ept K (pe_ns_alloc env) None Rpmsg_ns_cb Priv_vrp RPMSG_NS_ADDR
          (s\<lparr>vrp := probe_vrp K env va dma\<rparr>) = Returns (Some p, s2)"
      and "s' = probe_ready K (s2\<lparr>vrp := (vrp s2)\<lparr>ns_ept := Some p\<rparr>\<rparr>)"
proof (cases "pe_kzalloc env \<and> fst (pe_find_vqs env) = 0 \<and> pe_dma_alloc env \<noteq> None")
  case False
  then show thesis
    using ret early by (cases "pe_dma_alloc env") (auto simp: rpmsg_probe_def split: if_splits)
next
  case True
  then obtain va dma where d: "pe_dma_alloc env = Some (va, dma)" by fastforce
  obtain r s2 where c: "do_rpmsg_create_ept K (pe_ns_alloc env) None Rpmsg_ns_cb Priv_vrp RPMSG_NS_ADDR
      (s\<lparr>vrp := probe_vrp K env va dma\<rparr>) = Returns (r, s2)"
    using do_create_returns by blast
  show thesis
    using ret True d c no_ns plain ns
    by (cases r) (auto simp: rpmsg_probe_def Let_def split: if_splits)
qed

section \<open>The properties of probing\<close>

lemma probe_vrp_bound: "idr_laws K \<Longrightarrow> virtqueue_laws K queued cb_on \<Longrightarrow> bound_at K (s\<lparr>vrp := probe_vrp K env va dma\<rparr>) = (\<lambda>_. None)"
  by (simp add: bound_at_def probe_vrp_fields(5) idr_find_init fun_eq_iff)

lemma probe_vrp_tx_wf:
  assumes "virtqueue_laws K queued cb_on" and "queued (snd (snd (pe_find_vqs env))) = {#}"
  shows "tx_wf queued (probe_vrp K env va dma)"
  using probe_num_bufs_bound(1) [of "virtqueue_get_vring_size K (fst (snd (pe_find_vqs env)))"]
  by (simp add: tx_wf_def probe_vrp_fields [OF assms(1)] assms(2))

text \<open>
  C16. A probe that succeeds leaves the remote processor ready: no transmit buffer handed
  out, no sender asleep, the transmit queue empty with its callbacks off, every buffer on the
  receive queue a slot of the first half of the memory and the transmit half right behind
  it; and the address table holds the name service at 53, or nothing when the remote
  processor does not support it.
\<close>

theorem probe_sets_up:
  assumes "virtqueue_laws K queued cb_on" and "idr_laws K"
    and "queued (fst (snd (pe_find_vqs env))) = {#}" and "queued (snd (snd (pe_find_vqs env))) = {#}"
    and "rpmsg_probe K env s = Returns (0, held, s')"
  shows "tx_wf queued (vrp s') \<and> last_sbuf (vrp s') = 0 \<and> sleepers (vrp s') = 0 \<and>
    queued (svq (vrp s')) = {#} \<and> \<not> cb_on (svq (vrp s')) \<and>
    (\<forall>a. a \<in># queued (rvq (vrp s')) \<longrightarrow> (\<exists>k < unat (num_bufs (vrp s')) div 2. a = rbufs (vrp s') + 512 * k)) \<and>
    sbufs (vrp s') = rbufs (vrp s') + 512 * (unat (num_bufs (vrp s')) div 2) \<and>
    (if pe_features env VIRTIO_RPMSG_F_NS
     then \<exists>p. ns_ept (vrp s') = Some p \<and> bound_at K s' = [53 \<mapsto> p] \<and>
       epts s' p = Some \<lparr>ep_rpdev = None, ep_cb = Some Rpmsg_ns_cb, ep_priv = Priv_vrp, ep_addr = 53, ep_refcount = 1\<rparr>
     else ns_ept (vrp s') = None \<and> bound_at K s' = (\<lambda>_. None))"
proof (rule probe_cases [OF assms(5)])
  fix va dma
  let ?v = "probe_vrp K env va dma"
  assume "\<not> pe_features env VIRTIO_RPMSG_F_NS" and s': "s' = probe_ready K (s\<lparr>vrp := ?v\<rparr>)"
  note f = probe_ready_fields [OF assms(1), of "s\<lparr>vrp := ?v\<rparr>"] probe_vrp_fields [OF assms(1), of env va dma]
  have rx: "\<forall>a. a \<in># queued (rvq ?v) \<longrightarrow> (\<exists>k < unat (num_bufs ?v) div 2. a = va + 512 * k)"
    using probe_vrp_rx [OF assms(1,3)] by blast
  have "bound_at K s' = (\<lambda>_. None)"
    using probe_vrp_bound [OF assms(2,1), where s = s and env = env and va = va and dma = dma]
    by (simp add: s' bound_at_def f(3))
  moreover have "tx_wf queued (vrp s')"
    using probe_vrp_tx_wf [OF assms(1,4), of va dma] by (simp add: s' tx_wf_def f assms(4))
  ultimately show ?thesis
    using \<open>\<not> pe_features env VIRTIO_RPMSG_F_NS\<close> rx probe_vrp_halves [of K env va dma]
    by (simp add: s' f assms(4))
next
  fix va dma p s2
  let ?v = "probe_vrp K env va dma"
  assume feat: "pe_features env VIRTIO_RPMSG_F_NS"
    and mk: "do_rpmsg_create_ept K (pe_ns_alloc env) None Rpmsg_ns_cb Priv_vrp RPMSG_NS_ADDR (s\<lparr>vrp := ?v\<rparr>) = Returns (Some p, s2)"
    and s': "s' = probe_ready K (s2\<lparr>vrp := (vrp s2)\<lparr>ns_ept := Some p\<rparr>\<rparr>)"
  obtain i where v2: "vrp s2 = ?v\<lparr>endpoints := i\<rparr>"
    using mk by (auto simp: do_rpmsg_create_ept_def Let_def split: option.splits prod.splits if_splits)
  have ne: "RPMSG_NS_ADDR \<noteq> RPMSG_ADDR_ANY" by (simp add: RPMSG_NS_ADDR_def RPMSG_ADDR_ANY_def)
  from do_create_Some [OF assms(2) mk] obtain b where b: "bound_at K s2 = (bound_at K (s\<lparr>vrp := ?v\<rparr>))(b \<mapsto> p)"
    "epts s2 = (epts (s\<lparr>vrp := ?v\<rparr>))(p \<mapsto> \<lparr>ep_rpdev = None, ep_cb = Some Rpmsg_ns_cb, ep_priv = Priv_vrp, ep_addr = b, ep_refcount = 1\<rparr>)"
    "b = RPMSG_NS_ADDR"
    using ne by (metis (mono_tags))
  note f = probe_ready_fields [OF assms(1)] probe_vrp_fields [OF assms(1), of env va dma]
  have rx: "\<forall>a. a \<in># queued (rvq ?v) \<longrightarrow> (\<exists>k < unat (num_bufs ?v) div 2. a = va + 512 * k)"
    using probe_vrp_rx [OF assms(1,3)] by blast
  have "bound_at K s' = bound_at K s2" by (simp add: s' bound_at_def f(3))
  then have "bound_at K s' = [53 \<mapsto> p]"
    using b(1,3) by (simp add: probe_vrp_bound [OF assms(2,1)] RPMSG_NS_ADDR_def)
  moreover have "tx_wf queued (vrp s')"
    using probe_vrp_tx_wf [OF assms(1,4), of va dma] by (simp add: s' tx_wf_def f v2 assms(4))
  ultimately show ?thesis
    using feat rx probe_vrp_halves [of K env va dma] b(2,3)
    by (simp add: s' f v2 assms(4) RPMSG_NS_ADDR_def)
qed simp_all

definition sim_env :: "sim_vq probe_env" where
  "sim_env = \<lparr>pe_kzalloc = True, pe_features = (\<lambda>f. f = 0), pe_find_vqs = (0, sim_queue, sim_queue),
     pe_dma_alloc = Some (4096, 0), pe_ns_alloc = Some 9\<rparr>"

lemma sim_probe_ok:
  assumes "epts s = (\<lambda>_. None)"
  shows "\<exists>held s'. rpmsg_probe sim_kernel sim_env s = Returns (0, held, s')"
proof -
  obtain r s2 where mk: "do_rpmsg_create_ept sim_kernel (Some 9) None Rpmsg_ns_cb Priv_vrp RPMSG_NS_ADDR
      (s\<lparr>vrp := probe_vrp sim_kernel sim_env 4096 0\<rparr>) = Returns (r, s2)"
    using do_create_returns by blast
  have e: "endpoints (probe_vrp sim_kernel sim_env 4096 0) = []"
    by (simp add: probe_vrp_fields(5) [OF sim_virtqueue_laws]) (simp add: sim_kernel_def)
  have rng: "id_range RPMSG_NS_ADDR = (53, 54)"
    by (simp add: id_range_def RPMSG_NS_ADDR_def RPMSG_ADDR_ANY_def int_of_u32_def)
  have "idr_alloc sim_kernel [] 9 53 54 = (53, [(53, 9)])"
    by (simp add: sim_kernel_def sim_idr_alloc_def upto_rec1)
  then have "r = Some 9"
    using mk by (auto simp: do_rpmsg_create_ept_def Let_def e rng)
  with mk show ?thesis by (simp add: rpmsg_probe_def sim_env_def [symmetric] Let_def) (simp add: sim_env_def VIRTIO_RPMSG_F_NS_def)
qed

definition sim_unprobed :: "(sim_vq, (u32 \<times> addr) list) rpmsg_bus" where
  "sim_unprobed = sim_bus\<lparr>epts := (\<lambda>_. None)\<rparr>"

theorem probe_sets_up_witness:
  "\<exists>held s' p. rpmsg_probe sim_kernel sim_env sim_unprobed = Returns (0, held, s') \<and>
     bound_at sim_kernel s' = [53 \<mapsto> p] \<and> sbufs (vrp s') = rbufs (vrp s') + 512 * (unat (num_bufs (vrp s')) div 2)"
proof -
  obtain held s' where ret: "rpmsg_probe sim_kernel sim_env sim_unprobed = Returns (0, held, s')"
    using sim_probe_ok [of sim_unprobed] by (auto simp: sim_unprobed_def)
  have q: "sim_queued (fst (snd (pe_find_vqs sim_env))) = {#}" "sim_queued (snd (snd (pe_find_vqs sim_env))) = {#}"
    by (simp_all add: sim_env_def sim_queue_def sim_queued_def)
  have "pe_features sim_env VIRTIO_RPMSG_F_NS" by (simp add: sim_env_def VIRTIO_RPMSG_F_NS_def)
  with probe_sets_up [OF sim_virtqueue_laws sim_idr_laws q ret] ret show ?thesis by auto
qed

text \<open>
  C15. A probe holds all of its resources or none: when it fails, everything it had allocated
  has been released and no endpoint is left behind; when it succeeds, removing the remote
  processor releases everything, the name service endpoint included, and leaves no address bound.
\<close>

theorem probe_releases:
  assumes "virtqueue_laws K queued cb_on" and "idr_laws K" and "\<And>p. pe_ns_alloc env = Some p \<Longrightarrow> epts s p = None"
    and "rpmsg_probe K env s = Returns (err, held, s')"
  shows "(err \<noteq> 0 \<longrightarrow> held = [] \<and> epts s' = epts s) \<and>
    (err = 0 \<longrightarrow> (\<exists>s''. rpmsg_remove K D [] held s' = Returns ([], s'') \<and> epts s'' = epts s \<and>
      (\<forall>a. bound_at K s'' a = None)))"
proof (rule probe_cases [OF assms(4)])
  assume "err \<noteq> 0" "held = []" "s' = s"
  then show ?thesis by simp
next
  fix va dma s2
  assume "err = - ENOMEM" "held = []"
    and mk: "do_rpmsg_create_ept K (pe_ns_alloc env) None Rpmsg_ns_cb Priv_vrp RPMSG_NS_ADDR
      (s\<lparr>vrp := probe_vrp K env va dma\<rparr>) = Returns (None, s2)" and "s' = s2\<lparr>vrp := (vrp s2)\<lparr>ns_ept := None\<rparr>\<rparr>"
  with do_create_None(2) [OF assms(2) mk] assms(3) show ?thesis by simp
next
  fix va dma
  assume "err = 0" "held = [Vrp_mem, Vqs, Dma_mem]" "s' = probe_ready K (s\<lparr>vrp := probe_vrp K env va dma\<rparr>)"
  then show ?thesis
    by (simp add: rpmsg_remove_def probe_ready_fields(2,10) [OF assms(1)] probe_vrp_fields(7) [OF assms(1)] bound_at_def
        idr_find_init [OF assms(2)])
next
  fix va dma p s2
  assume h: "err = 0" "held = [Vrp_mem, Vqs, Dma_mem]"
    and mk: "do_rpmsg_create_ept K (pe_ns_alloc env) None Rpmsg_ns_cb Priv_vrp RPMSG_NS_ADDR
      (s\<lparr>vrp := probe_vrp K env va dma\<rparr>) = Returns (Some p, s2)"
    and s': "s' = probe_ready K (s2\<lparr>vrp := (vrp s2)\<lparr>ns_ept := Some p\<rparr>\<rparr>)"
  from do_create_Some [OF assms(2) mk] obtain b where kz: "pe_ns_alloc env = Some p"
    and e: "epts s2 = (epts s)(p \<mapsto> \<lparr>ep_rpdev = None, ep_cb = Some Rpmsg_ns_cb, ep_priv = Priv_vrp, ep_addr = b, ep_refcount = 1\<rparr>)"
    by auto
  have e': "epts s' = epts s2" "ns_ept (vrp s') = Some p"
    by (simp_all add: s' probe_ready_fields(2,10) [OF assms(1)])
  have "epts s' p = Some \<lparr>ep_rpdev = None, ep_cb = Some Rpmsg_ns_cb, ep_priv = Priv_vrp, ep_addr = b, ep_refcount = 1\<rparr>"
    using e e' by simp
  from do_destroy_drop [OF this, of K] have d: "\<exists>s''. do_rpmsg_destroy_ept K p s' = Returns s'' \<and> epts s'' = (epts s')(p := None)"
    by simp
  moreover have "(epts s')(p := None) = epts s" using e e' assms(3) [OF kz] by (simp add: fun_upd_idem)
  ultimately show ?thesis using h e'(2) by (auto simp: rpmsg_remove_def bound_at_def idr_find_init [OF assms(2)])
qed

theorem probe_releases_witness:
  "rpmsg_probe sim_kernel (sim_env\<lparr>pe_dma_alloc := None\<rparr>) sim_unprobed = Returns (- ENOMEM, [], sim_unprobed) \<and>
   (\<exists>held s' s''. rpmsg_probe sim_kernel sim_env sim_unprobed = Returns (0, held, s') \<and>
      rpmsg_remove sim_kernel quiet_driver_core [] held s' = Returns ([], s'') \<and> epts s'' = (\<lambda>_. None))"
proof -
  obtain held s' where ret: "rpmsg_probe sim_kernel sim_env sim_unprobed = Returns (0, held, s')"
    using sim_probe_ok [of sim_unprobed] by (auto simp: sim_unprobed_def)
  have f: "\<And>p. pe_ns_alloc sim_env = Some p \<Longrightarrow> epts sim_unprobed p = None" by (simp add: sim_unprobed_def)
  have "rpmsg_probe sim_kernel (sim_env\<lparr>pe_dma_alloc := None\<rparr>) sim_unprobed = Returns (- ENOMEM, [], sim_unprobed)"
    by (simp add: rpmsg_probe_def sim_env_def)
  moreover from probe_releases [OF sim_virtqueue_laws sim_idr_laws f ret, of quiet_driver_core]
  obtain s'' where "rpmsg_remove sim_kernel quiet_driver_core [] held s' = Returns ([], s'')" "epts s'' = epts sim_unprobed"
    by blast
  ultimately show ?thesis using ret by (auto simp: sim_unprobed_def)
qed

text \<open>
  The device that the module creates for testing is registered with the operations of
  the virtio backend, but it is not part of a channel: creating an endpoint on it, as the
  character device does when it is opened, reads the remote processor from past the end of
  the allocated object.
\<close>

lemma test_device_out_of_bounds:
  assumes "\<And>n t. device_register D d n t = Returns (0, t)"
  shows "\<exists>s'. virtio_rpmsg_init D reg (Some d) s = Returns (reg, s') \<and>
    (\<forall>kz cb pr ch. rpmsg_create_ept (virtio_rpmsg_ops K waits) kz (Some d) cb pr ch s' = Faults)"
  using assms
  by (simp add: virtio_rpmsg_init_def create_rpmsg_chrdev_def rpmsg_chrdev_register_device_def
      rpmsg_register_device_def rpmsg_create_ept_def virtio_rpmsg_ops_def virtio_rpmsg_create_ept_def
      test_device_def)

lemma test_device_out_of_bounds_witness:
  "\<exists>s'. virtio_rpmsg_init quiet_driver_core 0 (Some 5) sim_bus = Returns (0, s') \<and>
    rpmsg_create_ept (virtio_rpmsg_ops sim_kernel (\<lambda>i. ([], Timed_out))) (Some 6) (Some 5) Rpmsg_ept_cb Priv_null
      \<lparr>ch_name = [], ch_src = RPMSG_ADDR_ANY, ch_dst = 7\<rparr> s' = Faults"
proof -
  have "device_register quiet_driver_core 5 n t = Returns (0, t)" for n and t :: "(sim_vq, (u32 \<times> addr) list) rpmsg_bus"
    by (simp add: quiet_driver_core_def)
  from test_device_out_of_bounds [OF this, of 0 sim_bus sim_kernel "(\<lambda>i. ([], Timed_out))"] show ?thesis by blast
qed

end
