(* ===== verification/RpmsgChar.thy ===== *)
theory RpmsgChar
  imports NameService
begin

text \<open>
  The character device of rpmsg_char.c: endpoint devices with their queue of received
  messages, and the control device that creates them. Both live in stores next to those of
  the bus, with a count of the references the code takes on their \<open>struct device\<close>; an object
  whose last reference is put is freed, and touching it afterwards is a fault. What an
  allocator, an ida, \<open>cdev_add\<close> or \<open>device_add\<close> answers is an argument.
\<close>

section \<open>State\<close>

record rpmsg_eptdev =
  ed_rpdev :: addr
  ed_chinfo :: rpmsg_channel_info
  ed_ept :: "addr option"
  ed_queue :: "u8 list list"
  ed_refs :: nat
  ed_minor :: nat
  ed_id :: nat
  ed_added :: bool

record rpmsg_ctrldev =
  cd_rpdev :: addr
  cd_refs :: nat
  cd_minor :: nat
  cd_id :: nat
  cd_added :: bool

record ('q, 'i) char_bus = "('q, 'i) rpmsg_bus" +
  eptdevs :: "addr \<rightharpoonup> rpmsg_eptdev"
  ctrldevs :: "addr \<rightharpoonup> rpmsg_ctrldev"
  minor_ida :: "nat set"
  ept_ida :: "nat set"
  ctrl_ida :: "nat set"

definition set_eptdev ::
  "addr \<Rightarrow> rpmsg_eptdev \<Rightarrow> ('q, 'i, 'y) char_bus_scheme \<Rightarrow> ('q, 'i, 'y) char_bus_scheme" where
  "set_eptdev p e s = s\<lparr>eptdevs := (eptdevs s)(p \<mapsto> e)\<rparr>"

section \<open>References\<close>

definition rpmsg_eptdev_release_device ::
  "addr \<Rightarrow> ('q, 'i, 'y) char_bus_scheme \<Rightarrow> ('q, 'i, 'y) char_bus_scheme outcome" where
  "rpmsg_eptdev_release_device p s =
     bind_outcome (deref (eptdevs s) p) (\<lambda>e.
       Returns (s\<lparr>ept_ida := ept_ida s - {ed_id e}, minor_ida := minor_ida s - {ed_minor e},
                  eptdevs := (eptdevs s)(p := None)\<rparr>))"

definition get_eptdev ::
  "addr \<Rightarrow> ('q, 'i, 'y) char_bus_scheme \<Rightarrow> ('q, 'i, 'y) char_bus_scheme outcome" where
  "get_eptdev p s =
     bind_outcome (deref (eptdevs s) p) (\<lambda>e. Returns (set_eptdev p (e\<lparr>ed_refs := ed_refs e + 1\<rparr>) s))"

definition put_eptdev ::
  "addr \<Rightarrow> ('q, 'i, 'y) char_bus_scheme \<Rightarrow> ('q, 'i, 'y) char_bus_scheme outcome" where
  "put_eptdev p s =
     bind_outcome (deref (eptdevs s) p) (\<lambda>e.
       if ed_refs e - 1 = 0 then rpmsg_eptdev_release_device p s
       else Returns (set_eptdev p (e\<lparr>ed_refs := ed_refs e - 1\<rparr>) s))"

definition rpmsg_ctrldev_release_device ::
  "addr \<Rightarrow> ('q, 'i, 'y) char_bus_scheme \<Rightarrow> ('q, 'i, 'y) char_bus_scheme outcome" where
  "rpmsg_ctrldev_release_device c s =
     bind_outcome (deref (ctrldevs s) c) (\<lambda>d.
       Returns (s\<lparr>ctrl_ida := ctrl_ida s - {cd_id d}, minor_ida := minor_ida s - {cd_minor d},
                  ctrldevs := (ctrldevs s)(c := None)\<rparr>))"

definition put_ctrldev ::
  "addr \<Rightarrow> ('q, 'i, 'y) char_bus_scheme \<Rightarrow> ('q, 'i, 'y) char_bus_scheme outcome" where
  "put_ctrldev c s =
     bind_outcome (deref (ctrldevs s) c) (\<lambda>d.
       if cd_refs d - 1 = 0 then rpmsg_ctrldev_release_device c s
       else Returns (s\<lparr>ctrldevs := (ctrldevs s)(c \<mapsto> d\<lparr>cd_refs := cd_refs d - 1\<rparr>)\<rparr>))"

section \<open>Endpoint devices\<close>

text \<open>The region under \<open>ept_lock\<close> that destroying and releasing share.\<close>

definition eptdev_close ::
  "('q, 'i, 'y) char_bus_scheme rpmsg_endpoint_ops \<Rightarrow> addr \<Rightarrow> ('q, 'i, 'y) char_bus_scheme \<Rightarrow>
   ('q, 'i, 'y) char_bus_scheme outcome" where
  "eptdev_close EO p s =
     bind_outcome (deref (eptdevs s) p) (\<lambda>e.
       case ed_ept e of None \<Rightarrow> Returns s
       | Some q \<Rightarrow> bind_outcome (rpmsg_destroy_ept EO (Some q) s) (\<lambda>s1.
           bind_outcome (deref (eptdevs s1) p) (\<lambda>e1. Returns (set_eptdev p (e1\<lparr>ed_ept := None\<rparr>) s1))))"

definition device_del_eptdev ::
  "addr \<Rightarrow> ('q, 'i, 'y) char_bus_scheme \<Rightarrow> ('q, 'i, 'y) char_bus_scheme outcome" where
  "device_del_eptdev p s =
     bind_outcome (deref (eptdevs s) p) (\<lambda>e. Returns (set_eptdev p (e\<lparr>ed_added := False\<rparr>) s))"

definition rpmsg_eptdev_destroy ::
  "('q, 'i, 'y) char_bus_scheme rpmsg_endpoint_ops \<Rightarrow> addr \<Rightarrow> ('q, 'i, 'y) char_bus_scheme \<Rightarrow>
   (int \<times> ('q, 'i, 'y) char_bus_scheme) outcome" where
  "rpmsg_eptdev_destroy EO p s =
     bind_outcome (eptdev_close EO p s) (\<lambda>s1.
     bind_outcome (device_del_eptdev p s1) (\<lambda>s2.
     bind_outcome (put_eptdev p s2) (\<lambda>s3. Returns (0, s3))))"

text \<open>The receive callback; \<open>skb\<close> is whether \<open>alloc_skb\<close> finds memory.\<close>

definition rpmsg_ept_cb ::
  "bool \<Rightarrow> addr option \<Rightarrow> addr \<Rightarrow> int \<Rightarrow> priv \<Rightarrow> u32 \<Rightarrow> ('q, 'i, 'y) char_bus_scheme \<Rightarrow>
   (int \<times> ('q, 'i, 'y) char_bus_scheme) outcome" where
  "rpmsg_ept_cb skb rpdev buf len pr src s =
     (if \<not> skb then Returns (- ENOMEM, s)
      else case pr of Priv_eptdev p \<Rightarrow>
          bind_outcome (deref (eptdevs s) p) (\<lambda>e.
            Returns (0, set_eptdev p (e\<lparr>ed_queue := ed_queue e @ [load (mem s) buf (nat len)]\<rparr>) s))
        | _ \<Rightarrow> Faults)"

definition rpmsg_eptdev_open ::
  "('q, 'i, 'y) char_bus_scheme rpmsg_device_ops \<Rightarrow> addr option \<Rightarrow> addr \<Rightarrow> ('q, 'i, 'y) char_bus_scheme \<Rightarrow>
   (int \<times> ('q, 'i, 'y) char_bus_scheme) outcome" where
  "rpmsg_eptdev_open DO kz p s =
     bind_outcome (get_eptdev p s) (\<lambda>s1.
     bind_outcome (deref (eptdevs s1) p) (\<lambda>e.
     bind_outcome (rpmsg_create_ept DO kz (Some (ed_rpdev e)) Rpmsg_ept_cb (Priv_eptdev p) (ed_chinfo e) s1)
       (\<lambda>(ept, s2).
         if ept = None then bind_outcome (put_eptdev p s2) (\<lambda>s3. Returns (- EINVAL, s3))
         else bind_outcome (deref (eptdevs s2) p) (\<lambda>e2. Returns (0, set_eptdev p (e2\<lparr>ed_ept := ept\<rparr>) s2)))))"

definition rpmsg_eptdev_release ::
  "('q, 'i, 'y) char_bus_scheme rpmsg_endpoint_ops \<Rightarrow> addr \<Rightarrow> ('q, 'i, 'y) char_bus_scheme \<Rightarrow>
   (int \<times> ('q, 'i, 'y) char_bus_scheme) outcome" where
  "rpmsg_eptdev_release EO p s =
     bind_outcome (eptdev_close EO p s) (\<lambda>s1.
     bind_outcome (deref (eptdevs s1) p) (\<lambda>e.
     bind_outcome (put_eptdev p (set_eptdev p (e\<lparr>ed_queue := []\<rparr>) s1)) (\<lambda>s2. Returns (0, s2))))"

section \<open>Reading and writing\<close>

text \<open>
  \<open>wait_event_interruptible\<close> on the queue: the condition is evaluated before the first sleep
  and after each step of the others (\<open>script\<close>); when the script ends without it, a signal
  interrupts the sleep.
\<close>

definition readable :: "rpmsg_eptdev \<Rightarrow> bool" where
  "readable e \<longleftrightarrow> ed_queue e \<noteq> [] \<or> ed_ept e = None"

fun wait_readq ::
  "addr \<Rightarrow> (('q, 'i, 'y) char_bus_scheme \<Rightarrow> ('q, 'i, 'y) char_bus_scheme) list \<Rightarrow>
   ('q, 'i, 'y) char_bus_scheme \<Rightarrow> (int \<times> ('q, 'i, 'y) char_bus_scheme) outcome" where
  "wait_readq p [] s = bind_outcome (deref (eptdevs s) p) (\<lambda>e. Returns (if readable e then 0 else - ERESTARTSYS, s))"
| "wait_readq p (f # fs) s =
     bind_outcome (deref (eptdevs s) p) (\<lambda>e. if readable e then Returns (0, s) else wait_readq p fs (f s))"

text \<open>
  The dequeue, under \<open>queue_lock\<close>, and the copy to the user: \<open>room\<close> is the room the user
  has, \<open>copies\<close> whether the copy succeeds. The bytes are what the user gets.
\<close>

definition eptdev_take ::
  "bool \<Rightarrow> nat \<Rightarrow> addr \<Rightarrow> ('q, 'i, 'y) char_bus_scheme \<Rightarrow> (int \<times> u8 list \<times> ('q, 'i, 'y) char_bus_scheme) outcome" where
  "eptdev_take copies room p s =
     bind_outcome (deref (eptdevs s) p) (\<lambda>e.
       case ed_queue e of [] \<Rightarrow> Returns (- EFAULT, [], s)
       | skb # q \<Rightarrow>
           let s1 = set_eptdev p (e\<lparr>ed_queue := q\<rparr>) s; use = min room (length skb)
           in if copies then Returns (int use, take use skb, s1) else Returns (- EFAULT, [], s1))"

text \<open>\<open>race\<close> is what others do between the end of the wait and the lock.\<close>

definition rpmsg_eptdev_read_iter ::
  "bool \<Rightarrow> (('q, 'i, 'y) char_bus_scheme \<Rightarrow> ('q, 'i, 'y) char_bus_scheme) list \<Rightarrow>
   (('q, 'i, 'y) char_bus_scheme \<Rightarrow> ('q, 'i, 'y) char_bus_scheme) \<Rightarrow> bool \<Rightarrow> nat \<Rightarrow> addr \<Rightarrow>
   ('q, 'i, 'y) char_bus_scheme \<Rightarrow> (int \<times> u8 list \<times> ('q, 'i, 'y) char_bus_scheme) outcome" where
  "rpmsg_eptdev_read_iter nonblock script race copies room p s =
     bind_outcome (deref (eptdevs s) p) (\<lambda>e.
       if ed_ept e = None then Returns (- EPIPE, [], s)
       else if ed_queue e \<noteq> [] then eptdev_take copies room p s
       else if nonblock then Returns (- EAGAIN, [], s)
       else bind_outcome (wait_readq p script s) (\<lambda>(w, s1).
         if w \<noteq> 0 then Returns (- ERESTARTSYS, [], s1)
         else bind_outcome (deref (eptdevs s1) p) (\<lambda>e1.
           if ed_ept e1 = None then Returns (- EPIPE, [], s1)
           else eptdev_take copies room p (race s1))))"

text \<open>
  \<open>kz\<close> is whether \<open>kzalloc\<close> finds memory, \<open>data\<close> the user's bytes when the copy succeeds,
  \<open>intr\<close> whether a signal interrupts the lock. The length is an \<open>int\<close> for the core.
\<close>

definition rpmsg_eptdev_write_iter ::
  "('q, 'i, 'y) char_bus_scheme rpmsg_endpoint_ops \<Rightarrow> bool \<Rightarrow> bool \<Rightarrow> u8 list option \<Rightarrow> nat \<Rightarrow> bool \<Rightarrow> addr \<Rightarrow>
   ('q, 'i, 'y) char_bus_scheme \<Rightarrow> (int \<times> ('q, 'i, 'y) char_bus_scheme) outcome" where
  "rpmsg_eptdev_write_iter EO nonblock kz data len intr p s =
     (if \<not> kz then Returns (- ENOMEM, s)
      else case data of None \<Rightarrow> Returns (- EFAULT, s)
      | Some bs \<Rightarrow>
          if intr then Returns (- ERESTARTSYS, s)
          else bind_outcome (deref (eptdevs s) p) (\<lambda>e.
            if ed_ept e = None then Returns (- EPIPE, s)
            else bind_outcome
              (if nonblock then rpmsg_trysend EO (ed_ept e) (bytes_of bs) (int_of_u32 (of_nat len)) s
               else rpmsg_send EO (ed_ept e) (bytes_of bs) (int_of_u32 (of_nat len)) s)
              (\<lambda>(ret, s1). Returns (if ret < 0 then ret else int len, s1))))"

definition EPOLLIN :: u32 where "EPOLLIN = 0x1"
definition EPOLLERR :: u32 where "EPOLLERR = 0x8"
definition EPOLLRDNORM :: u32 where "EPOLLRDNORM = 0x40"

definition rpmsg_eptdev_poll ::
  "('q, 'i, 'y) char_bus_scheme rpmsg_endpoint_ops \<Rightarrow> addr \<Rightarrow> ('q, 'i, 'y) char_bus_scheme \<Rightarrow> u32 outcome" where
  "rpmsg_eptdev_poll EO p s =
     bind_outcome (deref (eptdevs s) p) (\<lambda>e.
       if ed_ept e = None then Returns EPOLLERR
       else bind_outcome (rpmsg_poll EO (ed_ept e) s) (\<lambda>m.
         Returns ((if ed_queue e \<noteq> [] then EPOLLIN OR EPOLLRDNORM else 0) OR m)))"

text \<open>The request codes are those of the kernel's user interface.\<close>

definition RPMSG_CREATE_EPT_IOCTL :: u32 where "RPMSG_CREATE_EPT_IOCTL = 0x4028B501"
definition RPMSG_DESTROY_EPT_IOCTL :: u32 where "RPMSG_DESTROY_EPT_IOCTL = 0xB502"

definition rpmsg_eptdev_ioctl ::
  "('q, 'i, 'y) char_bus_scheme rpmsg_endpoint_ops \<Rightarrow> u32 \<Rightarrow> addr \<Rightarrow> ('q, 'i, 'y) char_bus_scheme \<Rightarrow>
   (int \<times> ('q, 'i, 'y) char_bus_scheme) outcome" where
  "rpmsg_eptdev_ioctl EO cmd p s =
     (if cmd \<noteq> RPMSG_DESTROY_EPT_IOCTL then Returns (- EINVAL, s) else rpmsg_eptdev_destroy EO p s)"

definition eptdev_name_show :: "rpmsg_eptdev \<Rightarrow> u8 list" where
  "eptdev_name_show e = cstr (ch_name (ed_chinfo e)) @ [10]"

definition eptdev_src_show :: "rpmsg_eptdev \<Rightarrow> u8 list" where
  "eptdev_src_show e = show_d (int_of_u32 (ch_src (ed_chinfo e))) @ [10]"

definition eptdev_dst_show :: "rpmsg_eptdev \<Rightarrow> u8 list" where
  "eptdev_dst_show e = show_d (int_of_u32 (ch_dst (ed_chinfo e))) @ [10]"

section \<open>Creating an endpoint device\<close>

text \<open>
  \<open>minor\<close> and \<open>id\<close> are what the two idas answered, \<open>cdev\<close> and \<open>add\<close> the results of
  \<open>cdev_add\<close> and \<open>device_add\<close>. Before the release function is set, the last \<open>put_device\<close>
  frees nothing of the object and the explicit \<open>kfree\<close> does.
\<close>

definition rpmsg_eptdev_create ::
  "addr option \<Rightarrow> int \<Rightarrow> int \<Rightarrow> int \<Rightarrow> int \<Rightarrow> addr \<Rightarrow> rpmsg_channel_info \<Rightarrow> ('q, 'i, 'y) char_bus_scheme \<Rightarrow>
   (int \<times> ('q, 'i, 'y) char_bus_scheme) outcome" where
  "rpmsg_eptdev_create kz minor eid cdev add c chinfo s =
     bind_outcome (deref (ctrldevs s) c) (\<lambda>d.
       case kz of None \<Rightarrow> Returns (- ENOMEM, s)
       | Some p \<Rightarrow>
           let e = \<lparr>ed_rpdev = cd_rpdev d, ed_chinfo = chinfo, ed_ept = None, ed_queue = [], ed_refs = 1,
                    ed_minor = 0, ed_id = 0, ed_added = False\<rparr>;
               s1 = set_eptdev p e s;
               free = (\<lambda>t. t\<lparr>eptdevs := (eptdevs t)(p := None)\<rparr>)
           in if minor < 0 then Returns (minor, free s1)
              else
                let e2 = e\<lparr>ed_minor := nat minor\<rparr>;
                    s2 = set_eptdev p e2 (s1\<lparr>minor_ida := insert (nat minor) (minor_ida s1)\<rparr>)
                in if eid < 0 then Returns (eid, free (s2\<lparr>minor_ida := minor_ida s2 - {nat minor}\<rparr>))
                   else
                     let e3 = e2\<lparr>ed_id := nat eid\<rparr>;
                         s3 = set_eptdev p e3 (s2\<lparr>ept_ida := insert (nat eid) (ept_ida s2)\<rparr>)
                     in if cdev \<noteq> 0
                        then Returns (cdev, free (s3\<lparr>ept_ida := ept_ida s3 - {nat eid}, minor_ida := minor_ida s3 - {nat minor}\<rparr>))
                        else if add \<noteq> 0 then bind_outcome (put_eptdev p s3) (\<lambda>s4. Returns (add, s4))
                        else Returns (add, set_eptdev p (e3\<lparr>ed_added := True\<rparr>) s3))"

section \<open>The control device\<close>

definition rpmsg_ctrldev_open ::
  "addr \<Rightarrow> ('q, 'i, 'y) char_bus_scheme \<Rightarrow> (int \<times> ('q, 'i, 'y) char_bus_scheme) outcome" where
  "rpmsg_ctrldev_open c s =
     bind_outcome (deref (ctrldevs s) c) (\<lambda>d.
       Returns (0, s\<lparr>ctrldevs := (ctrldevs s)(c \<mapsto> d\<lparr>cd_refs := cd_refs d + 1\<rparr>)\<rparr>))"

definition rpmsg_ctrldev_release ::
  "addr \<Rightarrow> ('q, 'i, 'y) char_bus_scheme \<Rightarrow> (int \<times> ('q, 'i, 'y) char_bus_scheme) outcome" where
  "rpmsg_ctrldev_release c s = bind_outcome (put_ctrldev c s) (\<lambda>s1. Returns (0, s1))"

text \<open>\<open>eptinfo\<close> is the user's structure, a name of 32 bytes and two addresses, or \<open>None\<close> when the copy fails.\<close>

definition rpmsg_ctrldev_ioctl ::
  "addr option \<Rightarrow> int \<Rightarrow> int \<Rightarrow> int \<Rightarrow> int \<Rightarrow> u32 \<Rightarrow> (u8 list \<times> u32 \<times> u32) option \<Rightarrow> addr \<Rightarrow>
   ('q, 'i, 'y) char_bus_scheme \<Rightarrow> (int \<times> ('q, 'i, 'y) char_bus_scheme) outcome" where
  "rpmsg_ctrldev_ioctl kz minor eid cdev add cmd eptinfo c s =
     (if cmd \<noteq> RPMSG_CREATE_EPT_IOCTL then Returns (- EINVAL, s)
      else case eptinfo of None \<Rightarrow> Returns (- EFAULT, s)
      | Some (name, src, dst) \<Rightarrow>
          rpmsg_eptdev_create kz minor eid cdev add c
            \<lparr>ch_name = name[RPMSG_NAME_SIZE - 1 := 0], ch_src = src, ch_dst = dst\<rparr> s)"

definition rpmsg_chrdev_probe ::
  "addr option \<Rightarrow> int \<Rightarrow> int \<Rightarrow> int \<Rightarrow> int \<Rightarrow> addr \<Rightarrow> ('q, 'i, 'y) char_bus_scheme \<Rightarrow>
   (int \<times> ('q, 'i, 'y) char_bus_scheme) outcome" where
  "rpmsg_chrdev_probe kz minor cid cdev add rpdev s =
     (case kz of None \<Rightarrow> Returns (- ENOMEM, s)
      | Some c \<Rightarrow>
          let d = \<lparr>cd_rpdev = rpdev, cd_refs = 1, cd_minor = 0, cd_id = 0, cd_added = False\<rparr>;
              put = (\<lambda>d t. t\<lparr>ctrldevs := (ctrldevs t)(c \<mapsto> d)\<rparr>);
              free = (\<lambda>t. t\<lparr>ctrldevs := (ctrldevs t)(c := None)\<rparr>);
              s1 = put d s
          in if minor < 0 then Returns (minor, free s1)
             else
               let d2 = d\<lparr>cd_minor := nat minor\<rparr>;
                   s2 = put d2 (s1\<lparr>minor_ida := insert (nat minor) (minor_ida s1)\<rparr>)
               in if cid < 0 then Returns (cid, free (s2\<lparr>minor_ida := minor_ida s2 - {nat minor}\<rparr>))
                  else
                    let d3 = d2\<lparr>cd_id := nat cid\<rparr>;
                        s3 = put d3 (s2\<lparr>ctrl_ida := insert (nat cid) (ctrl_ida s2)\<rparr>)
                    in if cdev \<noteq> 0
                       then Returns (cdev, free (s3\<lparr>ctrl_ida := ctrl_ida s3 - {nat cid}, minor_ida := minor_ida s3 - {nat minor}\<rparr>))
                       else
                         bind_outcome (if add \<noteq> 0 then put_ctrldev c s3 else Returns (put (d3\<lparr>cd_added := True\<rparr>) s3)) (\<lambda>s4.
                         bind_outcome (deref (rpdevs s4) rpdev) (\<lambda>r.
                           Returns (add, s4\<lparr>rpdevs := (rpdevs s4)(rpdev \<mapsto> r\<lparr>rp_drvdata := Some c\<rparr>)\<rparr>))))"

text \<open>The endpoint devices of the control device, destroyed one after the other.\<close>

fun destroy_eptdevs ::
  "('q, 'i, 'y) char_bus_scheme rpmsg_endpoint_ops \<Rightarrow> addr list \<Rightarrow> ('q, 'i, 'y) char_bus_scheme \<Rightarrow>
   ('q, 'i, 'y) char_bus_scheme outcome" where
  "destroy_eptdevs EO [] s = Returns s"
| "destroy_eptdevs EO (p # ps) s =
     bind_outcome (rpmsg_eptdev_destroy EO p s) (\<lambda>(_, s1). destroy_eptdevs EO ps s1)"

definition rpmsg_chrdev_remove ::
  "('q, 'i, 'y) char_bus_scheme rpmsg_endpoint_ops \<Rightarrow> addr list \<Rightarrow> addr \<Rightarrow> ('q, 'i, 'y) char_bus_scheme \<Rightarrow>
   ('q, 'i, 'y) char_bus_scheme outcome" where
  "rpmsg_chrdev_remove EO children rpdev s =
     bind_outcome (deref (rpdevs s) rpdev) (\<lambda>r.
       case rp_drvdata r of None \<Rightarrow> Faults
       | Some c \<Rightarrow>
           bind_outcome (deref (ctrldevs s) c) (\<lambda>_.
           bind_outcome (destroy_eptdevs EO children s) (\<lambda>s1.
           bind_outcome (deref (ctrldevs s1) c) (\<lambda>d.
             put_ctrldev c (s1\<lparr>ctrldevs := (ctrldevs s1)(c \<mapsto> d\<lparr>cd_added := False\<rparr>)\<rparr>)))))"

section \<open>The module\<close>

datatype char_resource = Chrdev_region | Char_class | Char_driver

text \<open>The results of the three registrations, with what is registered at the end.\<close>

definition rpmsg_char_init :: "int \<Rightarrow> int \<Rightarrow> int \<Rightarrow> int \<times> char_resource set" where
  "rpmsg_char_init region cls drv =
     (if region < 0 then (region, {})
      else if cls < 0 then (cls, {Chrdev_region} - {Chrdev_region})
      else if drv < 0 then (drv, {Chrdev_region, Char_class} - {Char_class} - {Chrdev_region})
      else (drv, {Chrdev_region, Char_class, Char_driver}))"

definition rpmsg_chrdev_exit :: "char_resource set \<Rightarrow> char_resource set" where
  "rpmsg_chrdev_exit h = h - {Char_driver} - {Char_class} - {Chrdev_region}"

section \<open>A small system\<close>

text \<open>
  The channel of Virtproc with its control device at 30 and an endpoint device at 20 that
  any local address will do for; and the same before the driver is bound.
\<close>

definition sim_eptdev :: rpmsg_eptdev where
  "sim_eptdev = \<lparr>ed_rpdev = 1, ed_chinfo = \<lparr>ch_name = strncpy (lit ''echo'') 32, ch_src = RPMSG_ADDR_ANY, ch_dst = 7\<rparr>,
     ed_ept = None, ed_queue = [], ed_refs = 1, ed_minor = 1, ed_id = 0, ed_added = True\<rparr>"

definition sim_ctrldev :: rpmsg_ctrldev where
  "sim_ctrldev = \<lparr>cd_rpdev = 1, cd_refs = 1, cd_minor = 0, cd_id = 0, cd_added = True\<rparr>"

definition sim_char :: "(sim_vq, (u32 \<times> addr) list) char_bus" where
  "sim_char = \<lparr>vrp = sim_vrp, mem = (\<lambda>_. 0), epts = [2 \<mapsto> sim_ept], rpdevs = [1 \<mapsto> sim_rpdev],
     eptdevs = [20 \<mapsto> sim_eptdev], ctrldevs = [30 \<mapsto> sim_ctrldev], minor_ida = {0, 1}, ept_ida = {0}, ctrl_ida = {0}\<rparr>"

definition sim_char_empty :: "(sim_vq, (u32 \<times> addr) list) char_bus" where
  "sim_char_empty = sim_char\<lparr>eptdevs := Map.empty, ctrldevs := Map.empty, minor_ida := {}, ept_ida := {}, ctrl_ida := {}\<rparr>"

lemma sim_char_fields [simp]:
  "vrp sim_char = sim_vrp" "mem sim_char = (\<lambda>_. 0)" "epts sim_char = [2 \<mapsto> sim_ept]" "rpdevs sim_char = [1 \<mapsto> sim_rpdev]"
  "eptdevs sim_char = [20 \<mapsto> sim_eptdev]" "ctrldevs sim_char = [30 \<mapsto> sim_ctrldev]" "minor_ida sim_char = {0, 1}"
  "ept_ida sim_char = {0}" "ctrl_ida sim_char = {0}"
  by (simp_all add: sim_char_def)

lemma sim_char_wf: "epts_wf sim_kernel sim_char" "channel_ok 1 sim_char"
  using sim_epts_wf sim_channel_ok by (simp_all add: epts_wf_def bound_at_def channel_ok_def sim_bus_def)

end
