(* ===== verification/CharIds.thy ===== *)
theory CharIds
  imports RpmsgChar
begin

text \<open>
  The minor numbers and ids of the character device: an endpoint device or a control device
  owns its numbers from its creation to the release of its last reference, no two devices
  share one, and every error path of a creation gives back what it took.
\<close>

section \<open>An ida and its owners\<close>

text \<open>\<open>own\<close> maps the owners to the number each has; the ida holds these numbers and no other.\<close>

definition ida_ok :: "nat set \<Rightarrow> ('o \<rightharpoonup> nat) \<Rightarrow> bool" where
  "ida_ok ida own \<longleftrightarrow> ida = ran own \<and> inj_on own (dom own)"

lemma ida_ok_unique: "ida_ok ida own \<Longrightarrow> own x = Some n \<Longrightarrow> own y = Some n \<Longrightarrow> x = y"
  unfolding ida_ok_def by (metis domI inj_onD)

lemma ida_ok_mem: "ida_ok ida own \<Longrightarrow> n \<in> ida \<longleftrightarrow> (\<exists>x. own x = Some n)"
  by (auto simp: ida_ok_def ran_def)

lemma ida_ok_insert:
  assumes "ida_ok ida own" and "n \<notin> ida" and "own x = None"
  shows "ida_ok (insert n ida) (own(x \<mapsto> n))"
proof -
  have "\<And>y. own y \<noteq> Some n" using assms(1,2) by (auto simp: ida_ok_mem)
  then have "inj_on (own(x \<mapsto> n)) (dom (own(x \<mapsto> n)))"
    using assms(1,3) by (auto simp: ida_ok_def inj_on_def dom_def)
  moreover have "ran (own(x \<mapsto> n)) = insert n (ran own)" using assms(3) by simp
  ultimately show ?thesis using assms(1) by (simp add: ida_ok_def)
qed

lemma ida_ok_remove:
  assumes "ida_ok ida own" and "own x = Some n"
  shows "ida_ok (ida - {n}) (own(x := None))"
proof -
  have "\<And>y. own y = Some n \<Longrightarrow> y = x" using ida_ok_unique [OF assms(1)] assms(2) by blast
  then have "y \<noteq> x \<Longrightarrow> own y \<noteq> Some n" for y by blast
  then have "ran (own(x := None)) = ran own - {n}"
    using assms(2) unfolding ran_def by (intro set_eqI) (simp, metis option.inject)
  moreover have "inj_on (own(x := None)) (dom (own(x := None)))"
    using assms(1) by (auto simp: ida_ok_def inj_on_def dom_def)
  ultimately show ?thesis using assms(1) by (simp add: ida_ok_def)
qed

section \<open>The owners of the three idas\<close>

text \<open>Both kinds of devices take their minor numbers from one ida.\<close>

definition minor_owner :: "('q, 'i, 'y) char_bus_scheme \<Rightarrow> addr + addr \<Rightarrow> nat option" where
  "minor_owner s = case_sum (\<lambda>p. map_option ed_minor (eptdevs s p)) (\<lambda>c. map_option cd_minor (ctrldevs s c))"

definition ept_id_owner :: "('q, 'i, 'y) char_bus_scheme \<Rightarrow> addr \<Rightarrow> nat option" where
  "ept_id_owner s = (\<lambda>p. map_option ed_id (eptdevs s p))"

definition ctrl_id_owner :: "('q, 'i, 'y) char_bus_scheme \<Rightarrow> addr \<Rightarrow> nat option" where
  "ctrl_id_owner s = (\<lambda>c. map_option cd_id (ctrldevs s c))"

definition ids_ok :: "('q, 'i, 'y) char_bus_scheme \<Rightarrow> bool" where
  "ids_ok s \<longleftrightarrow> ida_ok (minor_ida s) (minor_owner s) \<and> ida_ok (ept_ida s) (ept_id_owner s) \<and>
     ida_ok (ctrl_ida s) (ctrl_id_owner s)"

named_theorems owners

lemma minor_owner_upd [owners]:
  "eptdevs s' = (eptdevs s)(p \<mapsto> e) \<Longrightarrow> ctrldevs s' = ctrldevs s \<Longrightarrow>
   minor_owner s' = (minor_owner s)(Inl p \<mapsto> ed_minor e)"
  "eptdevs s' = (eptdevs s)(p := None) \<Longrightarrow> ctrldevs s' = ctrldevs s \<Longrightarrow>
   minor_owner s' = (minor_owner s)(Inl p := None)"
  "eptdevs s' = eptdevs s \<Longrightarrow> ctrldevs s' = (ctrldevs s)(c \<mapsto> d) \<Longrightarrow>
   minor_owner s' = (minor_owner s)(Inr c \<mapsto> cd_minor d)"
  "eptdevs s' = eptdevs s \<Longrightarrow> ctrldevs s' = (ctrldevs s)(c := None) \<Longrightarrow>
   minor_owner s' = (minor_owner s)(Inr c := None)"
  by (auto simp: minor_owner_def fun_eq_iff split: sum.splits)

lemma id_owner_upd [owners]:
  "eptdevs s' = (eptdevs s)(p \<mapsto> e) \<Longrightarrow> ept_id_owner s' = (ept_id_owner s)(p \<mapsto> ed_id e)"
  "eptdevs s' = (eptdevs s)(p := None) \<Longrightarrow> ept_id_owner s' = (ept_id_owner s)(p := None)"
  "eptdevs s' = eptdevs s \<Longrightarrow> ept_id_owner s' = ept_id_owner s"
  "ctrldevs s' = (ctrldevs s)(c \<mapsto> d) \<Longrightarrow> ctrl_id_owner s' = (ctrl_id_owner s)(c \<mapsto> cd_id d)"
  "ctrldevs s' = (ctrldevs s)(c := None) \<Longrightarrow> ctrl_id_owner s' = (ctrl_id_owner s)(c := None)"
  "ctrldevs s' = ctrldevs s \<Longrightarrow> ctrl_id_owner s' = ctrl_id_owner s"
  by (auto simp: ept_id_owner_def ctrl_id_owner_def fun_eq_iff)

lemma owner_at [simp]:
  "eptdevs s p = Some e \<Longrightarrow> minor_owner s (Inl p) = Some (ed_minor e)"
  "ctrldevs s c = Some d \<Longrightarrow> minor_owner s (Inr c) = Some (cd_minor d)"
  "eptdevs s p = None \<Longrightarrow> minor_owner s (Inl p) = None"
  "ctrldevs s c = None \<Longrightarrow> minor_owner s (Inr c) = None"
  "eptdevs s p = Some e \<Longrightarrow> ept_id_owner s p = Some (ed_id e)"
  "ctrldevs s c = Some d \<Longrightarrow> ctrl_id_owner s c = Some (cd_id d)"
  "eptdevs s p = None \<Longrightarrow> ept_id_owner s p = None"
  "ctrldevs s c = None \<Longrightarrow> ctrl_id_owner s c = None"
  by (simp_all add: minor_owner_def ept_id_owner_def ctrl_id_owner_def)

lemma ids_ok_same:
  assumes "ids_ok s" and "minor_ida s' = minor_ida s" and "ept_ida s' = ept_ida s" and "ctrl_ida s' = ctrl_ida s"
    and "minor_owner s' = minor_owner s" and "ept_id_owner s' = ept_id_owner s" and "ctrl_id_owner s' = ctrl_id_owner s"
  shows "ids_ok s'"
  using assms by (simp add: ids_ok_def)

text \<open>Writing a device without changing its numbers.\<close>

lemma ids_ok_eptdev:
  assumes "ids_ok s" and "eptdevs s p = Some e" and "ed_minor e' = ed_minor e" and "ed_id e' = ed_id e"
  shows "ids_ok (set_eptdev p e' s)"
proof (rule ids_ok_same [OF assms(1)])
  show "minor_owner (set_eptdev p e' s) = minor_owner s"
    by (subst minor_owner_upd(1) [of _ s p e']) (use assms(2-4) in \<open>simp_all add: set_eptdev_def fun_upd_idem\<close>)
  show "ept_id_owner (set_eptdev p e' s) = ept_id_owner s"
    by (subst id_owner_upd(1) [of _ s p e']) (use assms(2-4) in \<open>simp_all add: set_eptdev_def fun_upd_idem\<close>)
  show "ctrl_id_owner (set_eptdev p e' s) = ctrl_id_owner s"
    by (rule id_owner_upd(6)) (simp add: set_eptdev_def)
qed (simp_all add: set_eptdev_def)

lemma ids_ok_ctrldev:
  assumes "ids_ok s" and "ctrldevs s c = Some d" and "cd_minor d' = cd_minor d" and "cd_id d' = cd_id d"
  shows "ids_ok (s\<lparr>ctrldevs := (ctrldevs s)(c \<mapsto> d')\<rparr>)"
proof (rule ids_ok_same [OF assms(1)])
  let ?s = "s\<lparr>ctrldevs := (ctrldevs s)(c \<mapsto> d')\<rparr>"
  show "minor_owner ?s = minor_owner s"
    by (subst minor_owner_upd(3) [of _ s c d']) (use assms(2-4) in \<open>simp_all add: fun_upd_idem\<close>)
  show "ctrl_id_owner ?s = ctrl_id_owner s"
    by (subst id_owner_upd(4) [of _ s c d']) (use assms(2-4) in \<open>simp_all add: fun_upd_idem\<close>)
  show "ept_id_owner ?s = ept_id_owner s" by (rule id_owner_upd(3)) simp
qed simp_all

section \<open>What the bus operations leave alone\<close>

lemma char_more:
  assumes "rpmsg_bus.more s' = rpmsg_bus.more s"
  shows "eptdevs s' = eptdevs s" and "ctrldevs s' = ctrldevs s" and "minor_ida s' = minor_ida s"
    and "ept_ida s' = ept_ida s" and "ctrl_ida s' = ctrl_ida s"
  using assms by (cases s; cases s'; simp)+

lemma ept_release_more [simp]:
  "rpmsg_bus.more (ept_release p s) = rpmsg_bus.more s" "rpdevs (ept_release p s) = rpdevs s"
  by (simp_all add: ept_release_def)

lemma do_create_more:
  assumes "do_rpmsg_create_ept K kz d cb pr a s = Returns (r, s')"
  shows "rpmsg_bus.more s' = rpmsg_bus.more s"
  using assms
  by (auto simp: do_rpmsg_create_ept_def Let_def ept_kref_put_def split: option.splits prod.splits if_splits)

lemma do_destroy_more:
  assumes "do_rpmsg_destroy_ept K p s = Returns s'"
  shows "rpmsg_bus.more s' = rpmsg_bus.more s"
  using assms
  by (auto simp: do_rpmsg_destroy_ept_def ept_unbind_def ept_clear_cb_def ept_kref_put_def split: if_splits)

lemma ids_ok_more: "rpmsg_bus.more s' = rpmsg_bus.more s \<Longrightarrow> ids_ok s' = ids_ok s"
  using char_more [of s' s]
  by (simp add: ids_ok_def minor_owner_def ept_id_owner_def ctrl_id_owner_def)

section \<open>The invariant\<close>

text \<open>
  Every device has a reference; an endpoint that an endpoint device holds is allocated,
  has this one reference, and leads back to the device.
\<close>

definition refs_ok :: "('q, 'i, 'y) char_bus_scheme \<Rightarrow> bool" where
  "refs_ok s \<longleftrightarrow> (\<forall>p e. eptdevs s p = Some e \<longrightarrow> 0 < ed_refs e) \<and> (\<forall>c d. ctrldevs s c = Some d \<longrightarrow> 0 < cd_refs d)"

definition links_ok :: "('q, 'i, 'y) char_bus_scheme \<Rightarrow> bool" where
  "links_ok s \<longleftrightarrow>
     (\<forall>p e q. eptdevs s p = Some e \<longrightarrow> ed_ept e = Some q \<longrightarrow>
        (\<exists>x. epts s q = Some x \<and> ep_priv x = Priv_eptdev p \<and> ep_refcount x = 1))"

definition char_inv :: "('q, 'i, 'z) kernel_scheme \<Rightarrow> ('q, 'i, 'y) char_bus_scheme \<Rightarrow> bool" where
  "char_inv K s \<longleftrightarrow> epts_wf K s \<and> ids_ok s \<and> refs_ok s \<and> links_ok s"

lemma set_eptdev_fields [simp]:
  "vrp (set_eptdev p e s) = vrp s" "epts (set_eptdev p e s) = epts s" "mem (set_eptdev p e s) = mem s"
  "rpdevs (set_eptdev p e s) = rpdevs s" "eptdevs (set_eptdev p e s) = (eptdevs s)(p \<mapsto> e)"
  "ctrldevs (set_eptdev p e s) = ctrldevs s" "minor_ida (set_eptdev p e s) = minor_ida s"
  "ept_ida (set_eptdev p e s) = ept_ida s" "ctrl_ida (set_eptdev p e s) = ctrl_ida s"
  by (simp_all add: set_eptdev_def)

lemma epts_wf_frame: "endpoints (vrp s') = endpoints (vrp s) \<Longrightarrow> epts s' = epts s \<Longrightarrow> epts_wf K s' = epts_wf K s"
  by (simp add: epts_wf_def bound_at_def)

text \<open>Writing a device: its numbers stay, and its endpoint stays or goes.\<close>

lemma char_inv_eptdev:
  assumes "char_inv K s" and "eptdevs s p = Some e" and "ed_minor e' = ed_minor e" and "ed_id e' = ed_id e"
    and "0 < ed_refs e'" and "ed_ept e' = ed_ept e \<or> ed_ept e' = None"
  shows "char_inv K (set_eptdev p e' s)"
proof -
  have "epts_wf K (set_eptdev p e' s)" using assms(1) epts_wf_frame [of "set_eptdev p e' s" s K]
    by (simp add: char_inv_def)
  moreover have "ids_ok (set_eptdev p e' s)" using assms(1) by (intro ids_ok_eptdev [OF _ assms(2-4)]) (simp add: char_inv_def)
  moreover have "refs_ok (set_eptdev p e' s)" using assms(1,5) by (simp add: char_inv_def refs_ok_def)
  moreover have "links_ok (set_eptdev p e' s)"
    using assms(1,2,6) by (auto simp: char_inv_def links_ok_def)
  ultimately show ?thesis by (simp add: char_inv_def)
qed

lemma char_inv_ctrldev:
  assumes "char_inv K s" and "ctrldevs s c = Some d" and "cd_minor d' = cd_minor d" and "cd_id d' = cd_id d"
    and "0 < cd_refs d'"
  shows "char_inv K (s\<lparr>ctrldevs := (ctrldevs s)(c \<mapsto> d')\<rparr>)"
proof -
  let ?s = "s\<lparr>ctrldevs := (ctrldevs s)(c \<mapsto> d')\<rparr>"
  have "epts_wf K ?s" using assms(1) epts_wf_frame [of ?s s K] by (simp add: char_inv_def)
  moreover have "ids_ok ?s" using assms(1) by (intro ids_ok_ctrldev [OF _ assms(2-4)]) (simp add: char_inv_def)
  moreover have "refs_ok ?s" using assms(1,5) by (simp add: char_inv_def refs_ok_def)
  moreover have "links_ok ?s" using assms(1) by (simp add: char_inv_def links_ok_def)
  ultimately show ?thesis by (simp add: char_inv_def)
qed

section \<open>References\<close>

lemma get_eptdev_inv:
  assumes "char_inv K s" and "get_eptdev p s = Returns s'"
  shows "char_inv K s'"
  using assms char_inv_eptdev [OF assms(1)] by (auto simp: get_eptdev_def)

lemma eptdev_freed:
  assumes "char_inv K s" and "eptdevs s p = Some e"
  shows "char_inv K (s\<lparr>ept_ida := ept_ida s - {ed_id e}, minor_ida := minor_ida s - {ed_minor e},
                  eptdevs := (eptdevs s)(p := None)\<rparr>)" (is "char_inv K ?s")
proof -
  have o: "minor_owner ?s = (minor_owner s)(Inl p := None)" "ept_id_owner ?s = (ept_id_owner s)(p := None)"
    "ctrl_id_owner ?s = ctrl_id_owner s"
    by (rule owners; simp)+
  have "ids_ok ?s"
    using assms(1) ida_ok_remove [of "minor_ida s" "minor_owner s" "Inl p" "ed_minor e"]
      ida_ok_remove [of "ept_ida s" "ept_id_owner s" p "ed_id e"] assms(2)
    by (simp add: ids_ok_def o char_inv_def)
  moreover have "epts_wf K ?s" using assms(1) epts_wf_frame [of ?s s K] by (simp add: char_inv_def)
  ultimately show ?thesis using assms(1) by (simp add: char_inv_def refs_ok_def links_ok_def)
qed

lemma put_eptdev_inv:
  assumes "char_inv K s" and "put_eptdev p s = Returns s'"
  shows "char_inv K s'"
proof -
  obtain e where e: "eptdevs s p = Some e" using assms(2) by (auto simp: put_eptdev_def)
  show ?thesis
  proof (cases "ed_refs e - 1 = 0")
    case True
    with assms(2) e eptdev_freed [OF assms(1) e] show ?thesis
      by (simp add: put_eptdev_def rpmsg_eptdev_release_device_def)
  next
    case False
    with assms(2) e have "s' = set_eptdev p (e\<lparr>ed_refs := ed_refs e - 1\<rparr>) s" by (simp add: put_eptdev_def)
    with False char_inv_eptdev [OF assms(1) e] show ?thesis by simp
  qed
qed

lemma ctrldev_freed:
  assumes "char_inv K s" and "ctrldevs s c = Some d"
  shows "char_inv K (s\<lparr>ctrl_ida := ctrl_ida s - {cd_id d}, minor_ida := minor_ida s - {cd_minor d},
                  ctrldevs := (ctrldevs s)(c := None)\<rparr>)" (is "char_inv K ?s")
proof -
  have o: "minor_owner ?s = (minor_owner s)(Inr c := None)" "ept_id_owner ?s = ept_id_owner s"
    "ctrl_id_owner ?s = (ctrl_id_owner s)(c := None)"
    by (rule owners; simp)+
  have "ids_ok ?s"
    using assms(1) ida_ok_remove [of "minor_ida s" "minor_owner s" "Inr c" "cd_minor d"]
      ida_ok_remove [of "ctrl_ida s" "ctrl_id_owner s" c "cd_id d"] assms(2)
    by (simp add: ids_ok_def o char_inv_def)
  moreover have "epts_wf K ?s" using assms(1) epts_wf_frame [of ?s s K] by (simp add: char_inv_def)
  ultimately show ?thesis using assms(1) by (simp add: char_inv_def refs_ok_def links_ok_def)
qed

lemma put_ctrldev_inv:
  assumes "char_inv K s" and "put_ctrldev c s = Returns s'"
  shows "char_inv K s'"
proof -
  obtain d where d: "ctrldevs s c = Some d" using assms(2) by (auto simp: put_ctrldev_def)
  show ?thesis
  proof (cases "cd_refs d - 1 = 0")
    case True
    with assms(2) d ctrldev_freed [OF assms(1) d] show ?thesis
      by (simp add: put_ctrldev_def rpmsg_ctrldev_release_device_def)
  next
    case False
    with assms(2) d have "s' = s\<lparr>ctrldevs := (ctrldevs s)(c \<mapsto> d\<lparr>cd_refs := cd_refs d - 1\<rparr>)\<rparr>"
      by (simp add: put_ctrldev_def)
    with False char_inv_ctrldev [OF assms(1) d] show ?thesis by simp
  qed
qed

section \<open>Closing, opening, reading and writing\<close>

lemma destroy_inv:
  assumes inv: "char_inv K s" and e: "eptdevs s p = Some e" "ed_ept e = Some q"
    and "virtio_rpmsg_destroy_ept K q s = Returns s'"
  shows "char_inv K (set_eptdev p (e\<lparr>ed_ept := None\<rparr>) s')" and "eptdevs s' = eptdevs s"
proof -
  obtain x where x: "epts s q = Some x" "ep_priv x = Priv_eptdev p" "ep_refcount x = 1"
    using inv e unfolding char_inv_def links_ok_def by blast
  have "virtio_rpmsg_destroy_ept K q s = do_rpmsg_destroy_ept K q s"
    using assms(4) x(1) by (auto simp: virtio_rpmsg_destroy_ept_def split: option.splits)
  with assms(4) do_destroy_drop [OF x(1,3), of K] have s': "s' = s\<lparr>vrp := (vrp s)\<lparr>endpoints :=
      idr_remove K (endpoints (vrp s)) (ep_addr x)\<rparr>, epts := (epts s)(q := None)\<rparr>" by simp
  then show dev: "eptdevs s' = eptdevs s" by simp
  have wf: "epts_wf K s" and ids: "ids_ok s" and refs: "refs_ok s" and links: "links_ok s"
    using inv by (simp_all add: char_inv_def)
  let ?t = "set_eptdev p (e\<lparr>ed_ept := None\<rparr>) s'"
  have "bound_at K s' = (bound_at K s)(ep_addr x := None)"
    using idr_find_remove [OF epts_wf_laws [OF wf]] by (simp add: s' bound_at_def)
  from destroy_keeps_wf [OF wf x(1) this] have "epts_wf K s'" by (simp add: s')
  then have "epts_wf K ?t" using epts_wf_frame [of ?t s' K] by simp
  moreover have "ids_ok s'" using ids ids_ok_more [of s' s] by (simp add: s')
  then have "ids_ok ?t" by (rule ids_ok_eptdev) (use e dev in simp_all)
  moreover have "refs_ok ?t" using refs e by (simp add: refs_ok_def s')
  moreover have "links_ok ?t"
    unfolding links_ok_def
  proof (intro allI impI)
    fix p' e' q' assume "eptdevs ?t p' = Some e'" and q': "ed_ept e' = Some q'"
    then have e': "eptdevs s p' = Some e'" "p' \<noteq> p" by (auto simp: s' split: if_splits)
    with links q' obtain y where y: "epts s q' = Some y" "ep_priv y = Priv_eptdev p'" "ep_refcount y = 1"
      unfolding links_ok_def by blast
    with x e' have "q' \<noteq> q" by auto
    with y show "\<exists>y. epts ?t q' = Some y \<and> ep_priv y = Priv_eptdev p' \<and> ep_refcount y = 1"
      by (simp add: s')
  qed
  ultimately show "char_inv K ?t" by (simp add: char_inv_def)
qed

lemma eptdev_close_inv:
  assumes "char_inv K s" and "op_destroy_ept EO = virtio_rpmsg_destroy_ept K" and "eptdev_close EO p s = Returns s'"
  shows "char_inv K s'"
proof -
  obtain e where e: "eptdevs s p = Some e" using assms(3) by (auto simp: eptdev_close_def)
  show ?thesis
  proof (cases "ed_ept e")
    case None
    with assms e show ?thesis by (simp add: eptdev_close_def)
  next
    case (Some q)
    with assms(2,3) e obtain s1 e1 where d: "virtio_rpmsg_destroy_ept K q s = Returns s1" "eptdevs s1 p = Some e1"
      "s' = set_eptdev p (e1\<lparr>ed_ept := None\<rparr>) s1"
      by (auto simp: eptdev_close_def rpmsg_destroy_ept_def)
    with destroy_inv [OF assms(1) e Some d(1)] e show ?thesis by simp
  qed
qed

lemma device_del_inv:
  assumes "char_inv K s" and "device_del_eptdev p s = Returns s'"
  shows "char_inv K s'"
proof -
  obtain e where e: "eptdevs s p = Some e" using assms(2) by (auto simp: device_del_eptdev_def)
  with assms(1) have "0 < ed_refs e" unfolding char_inv_def refs_ok_def by blast
  with char_inv_eptdev [OF assms(1) e, of "e\<lparr>ed_added := False\<rparr>"] assms(2) e show ?thesis
    by (simp add: device_del_eptdev_def)
qed

lemma eptdev_destroy_inv:
  assumes "char_inv K s" and "op_destroy_ept EO = virtio_rpmsg_destroy_ept K"
    and "rpmsg_eptdev_destroy EO p s = Returns (r, s')"
  shows "char_inv K s'"
proof -
  obtain s1 s2 where "eptdev_close EO p s = Returns s1" "device_del_eptdev p s1 = Returns s2"
    "put_eptdev p s2 = Returns s'"
    using assms(3) by (auto simp: rpmsg_eptdev_destroy_def)
  from put_eptdev_inv [OF device_del_inv [OF eptdev_close_inv [OF assms(1,2) this(1)] this(2)] this(3)]
  show ?thesis .
qed

lemma eptdev_release_inv:
  assumes "char_inv K s" and "op_destroy_ept EO = virtio_rpmsg_destroy_ept K"
    and "rpmsg_eptdev_release EO p s = Returns (r, s')"
  shows "char_inv K s'"
proof -
  obtain s1 e where c: "eptdev_close EO p s = Returns s1" "eptdevs s1 p = Some e"
    "put_eptdev p (set_eptdev p (e\<lparr>ed_queue := []\<rparr>) s1) = Returns s'"
    using assms(3) by (auto simp: rpmsg_eptdev_release_def)
  have i: "char_inv K s1" by (rule eptdev_close_inv [OF assms(1,2) c(1)])
  then have "0 < ed_refs e" using c(2) unfolding char_inv_def refs_ok_def by blast
  with char_inv_eptdev [OF i c(2), of "e\<lparr>ed_queue := []\<rparr>"]
  have "char_inv K (set_eptdev p (e\<lparr>ed_queue := []\<rparr>) s1)" by simp
  from put_eptdev_inv [OF this c(3)] show ?thesis .
qed

lemma ept_cb_cases:
  assumes "rpmsg_ept_cb skb rpdev a n pr src s = Returns (r, s')"
  obtains "s' = s" | p e where "eptdevs s p = Some e" and "\<exists>q. s' = set_eptdev p (e\<lparr>ed_queue := q\<rparr>) s"
  using assms by (auto simp: rpmsg_ept_cb_def split: if_splits priv.splits)

lemma ept_cb_inv:
  assumes "char_inv K s" and "rpmsg_ept_cb skb rpdev buf len pr src s = Returns (r, s')"
  shows "char_inv K s'"
  using assms(2)
proof (cases rule: ept_cb_cases)
  case (2 p e)
  then obtain q where s': "s' = set_eptdev p (e\<lparr>ed_queue := q\<rparr>) s" by blast
  have "0 < ed_refs e" using assms(1) 2(1) unfolding char_inv_def refs_ok_def by blast
  with char_inv_eptdev [OF assms(1) 2(1), of "e\<lparr>ed_queue := q\<rparr>"] show ?thesis by (simp add: s')
qed (use assms(1) in simp)

lemma virtio_create_channel:
  "virtio_rpmsg_create_ept K kz d cb pr ch s = Returns (q, s') \<Longrightarrow> channel_ok d s"
  by (auto simp: virtio_rpmsg_create_ept_def channel_ok_def)

lemma create_ept_links:
  assumes inv: "char_inv K s" and "eptdevs s p = Some e" and fresh: "\<And>x. kz = Some x \<Longrightarrow> epts s x = None"
    and mk: "virtio_rpmsg_create_ept K kz d cb (Priv_eptdev p) ch s = Returns (r, s')"
  shows "char_inv K s'" and "eptdevs s' = eptdevs s"
    and "r = Some q \<Longrightarrow> char_inv K (set_eptdev p (e\<lparr>ed_ept := Some q\<rparr>) s')"
proof -
  have ch: "channel_ok d s" by (rule virtio_create_channel [OF mk])
  have wf: "epts_wf K s" and ids: "ids_ok s" and refs: "refs_ok s" and links: "links_ok s"
    using inv by (simp_all add: char_inv_def)
  have "do_rpmsg_create_ept K kz (Some d) cb (Priv_eptdev p) (ch_src ch) s = Returns (r, s')"
    using mk by (simp only: virtio_create_eq [OF ch])
  from do_create_more [OF this] have more: "rpmsg_bus.more s' = rpmsg_bus.more s" .
  note m = char_more [OF more]
  show "eptdevs s' = eptdevs s" by (rule m(1))
  have ids': "ids_ok s'" using ids ids_ok_more [OF more] by simp
  have refs': "refs_ok s'" using refs by (simp add: refs_ok_def m)
  have heap: "epts_wf K s' \<and> (case r of None \<Rightarrow> epts s' = epts s | Some q \<Rightarrow> epts s q = None \<and>
      (\<exists>x. epts s' = (epts s)(q \<mapsto> x) \<and> ep_priv x = Priv_eptdev p \<and> ep_refcount x = 1))"
  proof (cases r)
    case None
    with mk vb.create_None [OF wf ch fresh] show ?thesis by auto
  next
    case (Some q)
    with mk have "virtio_rpmsg_create_ept K kz d cb (Priv_eptdev p) ch s = Returns (Some q, s')" by simp
    from vb.create_Some [OF wf ch fresh this] obtain a where "kz = Some q" "epts_wf K s'"
      "epts s' = (epts s)(q \<mapsto> \<lparr>ep_rpdev = Some d, ep_cb = Some cb, ep_priv = Priv_eptdev p, ep_addr = a, ep_refcount = 1\<rparr>)"
      by blast
    moreover from this(1) have "epts s q = None" by (rule fresh)
    ultimately show ?thesis unfolding Some option.case
      by (intro conjI exI [where x = "\<lparr>ep_rpdev = Some d, ep_cb = Some cb, ep_priv = Priv_eptdev p, ep_addr = a,
          ep_refcount = 1\<rparr>"]) simp_all
  qed
  then have wf': "epts_wf K s'" by blast
  have keep: "epts s' y = Some x" if "epts s y = Some x" for x y
    using heap that by (cases r) auto
  have links': "links_ok s'" using links keep unfolding links_ok_def m by blast
  show inv': "char_inv K s'" using wf' ids' refs' links' by (simp add: char_inv_def)
  assume r: "r = Some q"
  let ?t = "set_eptdev p (e\<lparr>ed_ept := Some q\<rparr>) s'"
  have q: "\<exists>x. epts s' q = Some x \<and> ep_priv x = Priv_eptdev p \<and> ep_refcount x = 1"
    using heap by (auto simp: r)
  have e: "eptdevs s' p = Some e" using assms(2) m by simp
  have "ids_ok ?t" by (rule ids_ok_eptdev [OF ids' e]) simp_all
  moreover have "epts_wf K ?t" using wf' epts_wf_frame [of ?t s' K] by simp
  moreover have "refs_ok ?t" using refs' e by (auto simp: refs_ok_def)
  moreover have "links_ok ?t" using links' q by (auto simp: links_ok_def)
  ultimately show "char_inv K ?t" by (simp add: char_inv_def)
qed

lemma eptdev_open_inv:
  assumes inv: "char_inv K s" and DO: "op_create_ept DO = virtio_rpmsg_create_ept K"
    and fresh: "\<And>x. kz = Some x \<Longrightarrow> epts s x = None" and ret: "rpmsg_eptdev_open DO kz p s = Returns (r, s')"
  shows "char_inv K s'"
proof -
  obtain e s1 ept s2 where get: "get_eptdev p s = Returns s1" and e: "eptdevs s1 p = Some e"
    and mk: "virtio_rpmsg_create_ept K kz (ed_rpdev e) Rpmsg_ept_cb (Priv_eptdev p) (ed_chinfo e) s1 = Returns (ept, s2)"
    and rest: "(if ept = None then bind_outcome (put_eptdev p s2) (\<lambda>s3. Returns (- EINVAL, s3))
         else bind_outcome (deref (eptdevs s2) p) (\<lambda>e2. Returns (0, set_eptdev p (e2\<lparr>ed_ept := ept\<rparr>) s2))) = Returns (r, s')"
    using ret by (auto simp: rpmsg_eptdev_open_def rpmsg_create_ept_def DO)
  have i1: "char_inv K s1" by (rule get_eptdev_inv [OF inv get])
  have fresh1: "\<And>x. kz = Some x \<Longrightarrow> epts s1 x = None" using fresh get by (auto simp: get_eptdev_def)
  note c = create_ept_links [OF i1 e fresh1 mk]
  show ?thesis
  proof (cases ept)
    case None
    with rest put_eptdev_inv [OF c(1)] show ?thesis by auto
  next
    case (Some q)
    with rest c(2,3) e show ?thesis by auto
  qed
qed

section \<open>Creating devices\<close>

text \<open>
  A number of the ida is one that was free; a creation that fails has changed nothing, and
  one that succeeds has added a device with one reference.
\<close>

lemma eptdev_create_cases:
  assumes d: "ctrldevs s c = Some d" and fresh: "\<forall>p. kz = Some p \<longrightarrow> eptdevs s p = None"
    and m: "0 \<le> minor \<longrightarrow> nat minor \<notin> minor_ida s" and i: "0 \<le> eid \<longrightarrow> nat eid \<notin> ept_ida s"
  obtains (failed) r where "rpmsg_eptdev_create kz minor eid cdev add c ch s = Returns (r, s)" and "r \<noteq> 0"
  | (created) p s' where "rpmsg_eptdev_create kz minor eid cdev add c ch s = Returns (0, s')" and "kz = Some p"
    and "0 \<le> minor" and "0 \<le> eid"
    and "s' = set_eptdev p \<lparr>ed_rpdev = cd_rpdev d, ed_chinfo = ch, ed_ept = None, ed_queue = [], ed_refs = 1,
        ed_minor = nat minor, ed_id = nat eid, ed_added = True\<rparr>
        (s\<lparr>minor_ida := insert (nat minor) (minor_ida s), ept_ida := insert (nat eid) (ept_ida s)\<rparr>)"
proof (cases kz)
  case None
  then show thesis using d failed [of "- ENOMEM"] by (simp add: rpmsg_eptdev_create_def)
next
  case (Some p)
  have p: "(eptdevs s)(p := None) = eptdevs s" using fresh [rule_format, OF Some] by (simp add: fun_upd_idem)
  note defs = rpmsg_eptdev_create_def Let_def Some d set_eptdev_def put_eptdev_def rpmsg_eptdev_release_device_def p
  consider "minor < 0" | "0 \<le> minor" "eid < 0" | "0 \<le> minor" "0 \<le> eid" "cdev \<noteq> 0"
    | "0 \<le> minor" "0 \<le> eid" "cdev = 0" "add \<noteq> 0" | "0 \<le> minor" "0 \<le> eid" "cdev = 0" "add = 0"
    by linarith
  then show thesis
  proof cases
    case 1
    have "rpmsg_eptdev_create kz minor eid cdev add c ch s = Returns (minor, s)" using 1 by (simp add: defs)
    then show thesis by (rule failed) (use 1 in linarith)
  next
    case 2
    have "rpmsg_eptdev_create kz minor eid cdev add c ch s = Returns (eid, s)" using 2 m by (simp add: defs)
    then show thesis by (rule failed) (use 2 in linarith)
  next
    case 3
    have "rpmsg_eptdev_create kz minor eid cdev add c ch s = Returns (cdev, s)" using 3 m i by (simp add: defs)
    then show thesis by (rule failed) (rule 3)
  next
    case 4
    have "rpmsg_eptdev_create kz minor eid cdev add c ch s = Returns (add, s)" using 4 m i by (simp add: defs)
    then show thesis by (rule failed) (rule 4)
  next
    case 5
    then show thesis using Some by (intro created) (simp_all add: defs)
  qed
qed

lemma eptdev_create_inv:
  assumes inv: "char_inv K s" and fresh: "\<forall>p. kz = Some p \<longrightarrow> eptdevs s p = None"
    and m: "0 \<le> minor \<longrightarrow> nat minor \<notin> minor_ida s" and i: "0 \<le> eid \<longrightarrow> nat eid \<notin> ept_ida s"
    and ret: "rpmsg_eptdev_create kz minor eid cdev add c ch s = Returns (r, s')"
  shows "char_inv K s'"
proof -
  obtain d where d: "ctrldevs s c = Some d" using ret by (auto simp: rpmsg_eptdev_create_def)
  show ?thesis
  proof (cases rule: eptdev_create_cases [OF d fresh m i, where cdev = cdev and add = add and ch = ch,
        case_names failed created])
    case (failed r')
    with ret inv show ?thesis by simp
  next
    case (created p t)
    let ?e = "\<lparr>ed_rpdev = cd_rpdev d, ed_chinfo = ch, ed_ept = None, ed_queue = [], ed_refs = 1,
        ed_minor = nat minor, ed_id = nat eid, ed_added = True\<rparr>"
    let ?u = "s\<lparr>minor_ida := insert (nat minor) (minor_ida s), ept_ida := insert (nat eid) (ept_ida s)\<rparr>"
    have s': "s' = set_eptdev p ?e ?u" using created(1,5) ret by simp
    have p: "eptdevs s p = None" by (rule fresh [rule_format, OF created(2)])
    have o: "minor_owner s' = (minor_owner s)(Inl p \<mapsto> nat minor)" "ept_id_owner s' = (ept_id_owner s)(p \<mapsto> nat eid)"
      "ctrl_id_owner s' = ctrl_id_owner s"
      using minor_owner_upd(1) [of s' s p ?e] id_owner_upd(1) [of s' s p ?e] id_owner_upd(6) [of s' s]
      by (simp_all add: s')
    have "ids_ok s'"
      using inv p m [rule_format, OF created(3)] i [rule_format, OF created(4)]
      unfolding ids_ok_def o by (simp add: char_inv_def ids_ok_def s' ida_ok_insert)
    moreover have "epts_wf K s'" using inv epts_wf_frame [of s' s K] by (simp add: char_inv_def s')
    moreover have "refs_ok s'" using inv by (simp add: char_inv_def refs_ok_def s')
    moreover have "links_ok s'" using inv by (simp add: char_inv_def links_ok_def s')
    ultimately show ?thesis by (simp add: char_inv_def)
  qed
qed

lemma ctrldev_ioctl_inv:
  assumes "char_inv K s" and "\<forall>p. kz = Some p \<longrightarrow> eptdevs s p = None"
    and "0 \<le> minor \<longrightarrow> nat minor \<notin> minor_ida s" and "0 \<le> eid \<longrightarrow> nat eid \<notin> ept_ida s"
    and "rpmsg_ctrldev_ioctl kz minor eid cdev add cmd info c s = Returns (r, s')"
  shows "char_inv K s'"
  using assms(5) eptdev_create_inv [OF assms(1-4)] assms(1)
  by (auto simp: rpmsg_ctrldev_ioctl_def split: if_splits option.splits)

lemma ctrldev_open_inv:
  assumes "char_inv K s" and "rpmsg_ctrldev_open c s = Returns (r, s')"
  shows "char_inv K s'"
  using assms(2) char_inv_ctrldev [OF assms(1)] by (auto simp: rpmsg_ctrldev_open_def)

lemma ctrldev_release_inv:
  assumes "char_inv K s" and "rpmsg_ctrldev_release c s = Returns (r, s')"
  shows "char_inv K s'"
  using assms(2) put_ctrldev_inv [OF assms(1)] by (auto simp: rpmsg_ctrldev_release_def)

lemma char_inv_rpdevs: "char_inv K s \<Longrightarrow> char_inv K (s\<lparr>rpdevs := h\<rparr>)"
  using epts_wf_frame [of "s\<lparr>rpdevs := h\<rparr>" s K] ids_ok_more [of "s\<lparr>rpdevs := h\<rparr>" s]
  by (simp add: char_inv_def refs_ok_def links_ok_def)

lemma chrdev_probe_cases:
  assumes r: "rpdevs s rpdev = Some r" and fresh: "\<forall>c. kz = Some c \<longrightarrow> ctrldevs s c = None"
    and m: "0 \<le> minor \<longrightarrow> nat minor \<notin> minor_ida s" and i: "0 \<le> cid \<longrightarrow> nat cid \<notin> ctrl_ida s"
  obtains (failed) err where "rpmsg_chrdev_probe kz minor cid cdev add rpdev s = Returns (err, s)" and "err \<noteq> 0"
  | (add_failed) c where "kz = Some c" and "add \<noteq> 0" and "rpmsg_chrdev_probe kz minor cid cdev add rpdev s =
      Returns (add, s\<lparr>rpdevs := (rpdevs s)(rpdev \<mapsto> r\<lparr>rp_drvdata := Some c\<rparr>)\<rparr>)"
  | (probed) c s' where "kz = Some c" and "0 \<le> minor" and "0 \<le> cid"
    and "rpmsg_chrdev_probe kz minor cid cdev add rpdev s =
      Returns (0, s'\<lparr>rpdevs := (rpdevs s)(rpdev \<mapsto> r\<lparr>rp_drvdata := Some c\<rparr>)\<rparr>)"
    and "s' = s\<lparr>minor_ida := insert (nat minor) (minor_ida s), ctrl_ida := insert (nat cid) (ctrl_ida s),
        ctrldevs := (ctrldevs s)(c \<mapsto>
          \<lparr>cd_rpdev = rpdev, cd_refs = 1, cd_minor = nat minor, cd_id = nat cid, cd_added = True\<rparr>)\<rparr>"
proof (cases kz)
  case None
  then show thesis using failed [of "- ENOMEM"] by (simp add: rpmsg_chrdev_probe_def)
next
  case (Some c)
  have c: "(ctrldevs s)(c := None) = ctrldevs s" using fresh [rule_format, OF Some] by (simp add: fun_upd_idem)
  note defs = rpmsg_chrdev_probe_def Let_def Some put_ctrldev_def rpmsg_ctrldev_release_device_def c r
  consider "minor < 0" | "0 \<le> minor" "cid < 0" | "0 \<le> minor" "0 \<le> cid" "cdev \<noteq> 0"
    | "0 \<le> minor" "0 \<le> cid" "cdev = 0" "add \<noteq> 0" | "0 \<le> minor" "0 \<le> cid" "cdev = 0" "add = 0"
    by linarith
  then show thesis
  proof cases
    case 1
    have "rpmsg_chrdev_probe kz minor cid cdev add rpdev s = Returns (minor, s)" using 1 by (simp add: defs)
    then show thesis by (rule failed) (use 1 in linarith)
  next
    case 2
    have "rpmsg_chrdev_probe kz minor cid cdev add rpdev s = Returns (cid, s)" using 2 m by (simp add: defs)
    then show thesis by (rule failed) (use 2 in linarith)
  next
    case 3
    have "rpmsg_chrdev_probe kz minor cid cdev add rpdev s = Returns (cdev, s)" using 3 m i by (simp add: defs)
    then show thesis by (rule failed) (rule 3)
  next
    case 4
    have "rpmsg_chrdev_probe kz minor cid cdev add rpdev s =
        Returns (add, s\<lparr>rpdevs := (rpdevs s)(rpdev \<mapsto> r\<lparr>rp_drvdata := Some c\<rparr>)\<rparr>)"
      using 4 m i by (simp add: defs)
    with Some 4(4) show thesis by (rule add_failed)
  next
    case 5
    show thesis by (rule probed [OF Some 5(1,2) _ refl]) (use 5 in \<open>simp add: defs\<close>)
  qed
qed

lemma chrdev_probe_inv:
  assumes inv: "char_inv K s" and fresh: "\<forall>c. kz = Some c \<longrightarrow> ctrldevs s c = None"
    and m: "0 \<le> minor \<longrightarrow> nat minor \<notin> minor_ida s" and i: "0 \<le> cid \<longrightarrow> nat cid \<notin> ctrl_ida s"
    and r: "rpdevs s rpdev = Some r" and ret: "rpmsg_chrdev_probe kz minor cid cdev add rpdev s = Returns (err, s')"
  shows "char_inv K s'"
proof (cases rule: chrdev_probe_cases [OF r fresh m i, where cdev = cdev and add = add, case_names failed add_failed probed])
  case (failed err')
  with ret inv show ?thesis by simp
next
  case (add_failed c)
  with ret char_inv_rpdevs [OF inv] show ?thesis by simp
next
  case (probed c t)
  let ?d = "\<lparr>cd_rpdev = rpdev, cd_refs = 1, cd_minor = nat minor, cd_id = nat cid, cd_added = True\<rparr>"
  have c: "ctrldevs s c = None" by (rule fresh [rule_format, OF probed(1)])
  note t = probed(5)
  have o: "minor_owner t = (minor_owner s)(Inr c \<mapsto> nat minor)" "ept_id_owner t = ept_id_owner s"
    "ctrl_id_owner t = (ctrl_id_owner s)(c \<mapsto> nat cid)"
    using minor_owner_upd(3) [of t s c ?d] id_owner_upd(4) [of t s c ?d] id_owner_upd(3) [of t s]
    by (simp_all add: t)
  have "ids_ok t"
    using inv c m [rule_format, OF probed(2)] i [rule_format, OF probed(3)]
    unfolding ids_ok_def o by (simp add: char_inv_def ids_ok_def t ida_ok_insert)
  moreover have "epts_wf K t" using inv epts_wf_frame [of t s K] by (simp add: char_inv_def t)
  moreover have "refs_ok t" using inv by (simp add: char_inv_def refs_ok_def t)
  moreover have "links_ok t" using inv by (simp add: char_inv_def links_ok_def t)
  ultimately have "char_inv K t" by (simp add: char_inv_def)
  with probed(4) ret char_inv_rpdevs show ?thesis by fastforce
qed

lemma destroy_eptdevs_inv:
  assumes "char_inv K s" and "op_destroy_ept EO = virtio_rpmsg_destroy_ept K" and "destroy_eptdevs EO ps s = Returns s'"
  shows "char_inv K s'"
  using assms(1,3)
proof (induction ps arbitrary: s)
  case (Cons p ps)
  from Cons.prems(2) obtain r s1 where "rpmsg_eptdev_destroy EO p s = Returns (r, s1)"
    and rest: "destroy_eptdevs EO ps s1 = Returns s'" by auto
  from Cons.IH [OF eptdev_destroy_inv [OF Cons.prems(1) assms(2) this(1)] rest] show ?case .
qed simp

lemma chrdev_remove_inv:
  assumes inv: "char_inv K s" and EO: "op_destroy_ept EO = virtio_rpmsg_destroy_ept K"
    and ret: "rpmsg_chrdev_remove EO children rpdev s = Returns s'"
  shows "char_inv K s'"
proof -
  obtain c s1 d where "destroy_eptdevs EO children s = Returns s1" and d: "ctrldevs s1 c = Some d"
    and put: "put_ctrldev c (s1\<lparr>ctrldevs := (ctrldevs s1)(c \<mapsto> d\<lparr>cd_added := False\<rparr>)\<rparr>) = Returns s'"
    using ret by (auto simp: rpmsg_chrdev_remove_def split: option.splits)
  then have i: "char_inv K s1" using destroy_eptdevs_inv [OF inv EO] by blast
  then have "0 < cd_refs d" using d unfolding char_inv_def refs_ok_def by blast
  then have "char_inv K (s1\<lparr>ctrldevs := (ctrldevs s1)(c \<mapsto> d\<lparr>cd_added := False\<rparr>)\<rparr>)"
    using char_inv_ctrldev [OF i d] by simp
  from put_ctrldev_inv [OF this put] show ?thesis .
qed

end
