(* ===== verification/CharSystem.thy ===== *)
theory CharSystem
  imports CharIds
begin

text \<open>
  The character device as a system: every file operation, ioctl, callback, probe and remove
  is a step, and the invariant of CharIds holds in every state they reach.
\<close>

section \<open>The steps\<close>

lemma core_send_frame:
  assumes "waits_alone W"
    and "rpmsg_send (virtio_endpoint_ops K W) ept data len s = Returns (r, s') \<or>
         rpmsg_trysend (virtio_endpoint_ops K W) ept data len s = Returns (r, s')"
  shows "endpoints (vrp s') = endpoints (vrp s) \<and> epts s' = epts s \<and> rpmsg_bus.more s' = rpmsg_bus.more s"
proof (cases ept)
  case None
  with assms(2) show ?thesis by (auto simp: rpmsg_send_def rpmsg_trysend_def ept_dispatch_def)
next
  case (Some p)
  with assms(2) obtain rd a dst w where
    "rpmsg_send_offchannel_raw K W rd a dst data len w s = Returns (r, s')"
    by (auto simp: rpmsg_send_def rpmsg_trysend_def ept_dispatch_def virtio_endpoint_ops_def
        virtio_rpmsg_send_def virtio_rpmsg_trysend_def)
  from send_raw_objects [OF this] send_raw_endpoints [OF assms(1) this] show ?thesis by simp
qed

lemma char_inv_frame:
  assumes "char_inv K s" and "endpoints (vrp s') = endpoints (vrp s)" and "epts s' = epts s"
    and "rpmsg_bus.more s' = rpmsg_bus.more s"
  shows "char_inv K s'"
  using assms(1) epts_wf_frame [OF assms(2,3), of K] ids_ok_more [OF assms(4)] char_more [OF assms(4)] assms(3)
  by (simp add: char_inv_def refs_ok_def links_ok_def)

lemma write_inv:
  assumes inv: "char_inv K s" and W: "waits_alone W"
    and ret: "rpmsg_eptdev_write_iter (virtio_endpoint_ops K W) nonblock kz data len intr p s = Returns (r, s')"
  shows "char_inv K s'"
proof -
  consider "s' = s" | ept d n x where "rpmsg_send (virtio_endpoint_ops K W) ept d n s = Returns (x, s') \<or>
         rpmsg_trysend (virtio_endpoint_ops K W) ept d n s = Returns (x, s')"
    using ret by (auto simp: rpmsg_eptdev_write_iter_def split: if_splits option.splits)
  then show ?thesis
  proof cases
    case 1
    with inv show ?thesis by simp
  next
    case 2
    with core_send_frame [OF W 2] char_inv_frame [OF inv] show ?thesis by blast
  qed
qed

lemma take_inv:
  assumes "char_inv K s" and "eptdev_take copies room p s = Returns (r, bs, s')"
  shows "char_inv K s'"
proof -
  obtain e where e: "eptdevs s p = Some e" using assms(2) by (auto simp: eptdev_take_def)
  then have "0 < ed_refs e" using assms(1) unfolding char_inv_def refs_ok_def by blast
  moreover have "s' = s \<or> (\<exists>q. s' = set_eptdev p (e\<lparr>ed_queue := q\<rparr>) s)"
    using assms(2) e by (auto simp: eptdev_take_def Let_def split: list.splits if_splits)
  ultimately show ?thesis using assms(1) char_inv_eptdev [OF assms(1) e] by auto
qed

text \<open>A reader whose wait nobody ends is one that a signal interrupts.\<close>

lemma read_inv:
  assumes "char_inv K s" and "rpmsg_eptdev_read_iter nonblock [] (\<lambda>t. t) copies room p s = Returns (r, bs, s')"
  shows "char_inv K s'"
proof -
  have "s' = s \<or> eptdev_take copies room p s = Returns (r, bs, s')"
    using assms(2) by (auto simp: rpmsg_eptdev_read_iter_def split: if_splits)
  with assms(1) take_inv [OF assms(1)] show ?thesis by blast
qed

text \<open>
  What an ida hands out was free, and what an allocator hands out is not in use.
\<close>

inductive char_step ::
  "('q, 'i, 'z) kernel_scheme \<Rightarrow> (nat \<Rightarrow> ('q, 'i) wait_script) \<Rightarrow>
   ('q, 'i, 'y) char_bus_scheme \<Rightarrow> ('q, 'i, 'y) char_bus_scheme \<Rightarrow> bool"
  for K :: "('q, 'i, 'z) kernel_scheme" and W :: "nat \<Rightarrow> ('q, 'i) wait_script" where
  probe: "\<forall>c. kz = Some c \<longrightarrow> ctrldevs s c = None \<Longrightarrow> 0 \<le> minor \<longrightarrow> nat minor \<notin> minor_ida s \<Longrightarrow>
    0 \<le> cid \<longrightarrow> nat cid \<notin> ctrl_ida s \<Longrightarrow> rpdevs s rpdev \<noteq> None \<Longrightarrow>
    rpmsg_chrdev_probe kz minor cid cdev add rpdev s = Returns (r, s') \<Longrightarrow> char_step K W s s'"
| remove: "rpmsg_chrdev_remove (virtio_endpoint_ops K W) children rpdev s = Returns s' \<Longrightarrow> char_step K W s s'"
| ctrl_open: "rpmsg_ctrldev_open c s = Returns (r, s') \<Longrightarrow> char_step K W s s'"
| ctrl_release: "rpmsg_ctrldev_release c s = Returns (r, s') \<Longrightarrow> char_step K W s s'"
| ctrl_ioctl: "\<forall>p. kz = Some p \<longrightarrow> eptdevs s p = None \<Longrightarrow> 0 \<le> minor \<longrightarrow> nat minor \<notin> minor_ida s \<Longrightarrow>
    0 \<le> eid \<longrightarrow> nat eid \<notin> ept_ida s \<Longrightarrow>
    rpmsg_ctrldev_ioctl kz minor eid cdev add cmd info c s = Returns (r, s') \<Longrightarrow> char_step K W s s'"
| ept_open: "(\<And>x. kz = Some x \<Longrightarrow> epts s x = None) \<Longrightarrow>
    rpmsg_eptdev_open (virtio_rpmsg_ops K W) kz p s = Returns (r, s') \<Longrightarrow> char_step K W s s'"
| ept_release: "rpmsg_eptdev_release (virtio_endpoint_ops K W) p s = Returns (r, s') \<Longrightarrow> char_step K W s s'"
| ept_ioctl: "rpmsg_eptdev_ioctl (virtio_endpoint_ops K W) cmd p s = Returns (r, s') \<Longrightarrow> char_step K W s s'"
| arrive: "rpmsg_ept_cb skb rpdev buf len pr src s = Returns (r, s') \<Longrightarrow> char_step K W s s'"
| ept_read: "rpmsg_eptdev_read_iter nonblock [] (\<lambda>t. t) copies room p s = Returns (r, bs, s') \<Longrightarrow> char_step K W s s'"
| ept_write: "rpmsg_eptdev_write_iter (virtio_endpoint_ops K W) nonblock mm data len intr p s = Returns (r, s') \<Longrightarrow>
    char_step K W s s'"

text \<open>The module has just been loaded: no device exists.\<close>

definition char_start ::
  "('q, 'i, 'z) kernel_scheme \<Rightarrow> (nat \<Rightarrow> ('q, 'i) wait_script) \<Rightarrow> ('q, 'i, 'y) char_bus_scheme \<Rightarrow> bool" where
  "char_start K W s \<longleftrightarrow> waits_alone W \<and> epts_wf K s \<and> eptdevs s = Map.empty \<and> ctrldevs s = Map.empty \<and>
     minor_ida s = {} \<and> ept_ida s = {} \<and> ctrl_ida s = {}"

lemma virtio_ops_simps [simp]:
  "op_create_ept (virtio_rpmsg_ops K W) = virtio_rpmsg_create_ept K"
  "op_destroy_ept (virtio_endpoint_ops K W) = virtio_rpmsg_destroy_ept K"
  by (simp_all add: virtio_rpmsg_ops_def virtio_endpoint_ops_def)

lemma char_start_inv:
  assumes "char_start K W s"
  shows "char_inv K s"
proof -
  have "minor_owner s = Map.empty" "ept_id_owner s = Map.empty" "ctrl_id_owner s = Map.empty"
    using assms by (simp_all add: char_start_def minor_owner_def ept_id_owner_def ctrl_id_owner_def fun_eq_iff
        split: sum.splits)
  then have "ids_ok s" using assms by (simp add: ids_ok_def ida_ok_def char_start_def)
  with assms show ?thesis by (simp add: char_inv_def refs_ok_def links_ok_def char_start_def)
qed

lemma char_step_inv:
  assumes "char_step K W s s'" and "char_inv K s" and "waits_alone W"
  shows "char_inv K s'"
  using assms(1)
proof cases
  case (probe kz minor cid rpdev cdev add r)
  then obtain x where "rpdevs s rpdev = Some x" by blast
  from chrdev_probe_inv [OF assms(2) probe(1-3) this probe(5)] show ?thesis .
next
  case remove
  from chrdev_remove_inv [OF assms(2) virtio_ops_simps(2) this] show ?thesis .
next
  case ctrl_open
  from ctrldev_open_inv [OF assms(2) this] show ?thesis .
next
  case ctrl_release
  from ctrldev_release_inv [OF assms(2) this] show ?thesis .
next
  case ctrl_ioctl
  from ctrldev_ioctl_inv [OF assms(2) this] show ?thesis .
next
  case ept_open
  from eptdev_open_inv [OF assms(2) virtio_ops_simps(1) this] show ?thesis .
next
  case ept_release
  from eptdev_release_inv [OF assms(2) virtio_ops_simps(2) this] show ?thesis .
next
  case (ept_ioctl cmd p r)
  show ?thesis
    using ept_ioctl eptdev_destroy_inv [OF assms(2) virtio_ops_simps(2)] assms(2)
    by (auto simp: rpmsg_eptdev_ioctl_def split: if_splits)
next
  case arrive
  from ept_cb_inv [OF assms(2) this] show ?thesis .
next
  case ept_read
  from read_inv [OF assms(2) this] show ?thesis .
next
  case ept_write
  from write_inv [OF assms(2,3) this] show ?thesis .
qed

interpretation chardev: inductive_invariant "char_start K W" "char_step K W" "\<lambda>s. waits_alone W \<and> char_inv K s"
  for K :: "('q, 'i, 'z) kernel_scheme" and W :: "nat \<Rightarrow> ('q, 'i) wait_script"
  by unfold_locales (auto simp: char_start_def intro: char_start_inv char_step_inv)

section \<open>The properties of the system\<close>

lemma char_reachable_inv:
  "reachable (char_start K W) (char_step K W) s \<Longrightarrow> char_inv K s"
  using chardev.reachable_inv by blast


abbreviation sim_waits :: "nat \<Rightarrow> (sim_vq, (u32 \<times> addr) list) wait_script" where
  "sim_waits \<equiv> \<lambda>i. ([], Timed_out)"

lemma sim_char_start: "char_start sim_kernel sim_waits sim_char_empty"
  using sim_char_wf(1)
  by (simp add: char_start_def waits_alone_def sim_char_empty_def epts_wf_def bound_at_def)

lemma sim_reachable:
  "\<exists>s :: (sim_vq, (u32 \<times> addr) list) char_bus. reachable (char_start sim_kernel sim_waits) (char_step sim_kernel sim_waits) s \<and>
     ctrldevs s 30 = Some sim_ctrldev \<and> eptdevs s 20 = Some sim_eptdev"
proof -
  let ?s = "sim_char_empty\<lparr>minor_ida := {0}, ctrl_ida := {0}, ctrldevs := [30 \<mapsto> sim_ctrldev],
    rpdevs := [1 \<mapsto> sim_rpdev\<lparr>rp_drvdata := Some 30\<rparr>]\<rparr>"
  let ?t = "set_eptdev 20 sim_eptdev (?s\<lparr>minor_ida := {0, 1}, ept_ida := {0}\<rparr>)"
  have "char_step sim_kernel sim_waits sim_char_empty ?s"
    by (rule char_step.probe [where kz = "Some 30" and minor = 0 and cid = 0 and cdev = 0 and add = 0 and rpdev = 1 and r = 0])
      (simp_all add: sim_char_empty_def rpmsg_chrdev_probe_def sim_ctrldev_def)
  with sim_char_start have s: "reachable (char_start sim_kernel sim_waits) (char_step sim_kernel sim_waits) ?s"
    by (blast intro: reachable.intros)
  have n: "(strncpy (lit ''echo'') 32)[31 := 0] = strncpy (lit ''echo'') 32" by (simp add: strncpy_def lit_def Let_def numeral_eq_Suc)
  have "char_step sim_kernel sim_waits ?s ?t"
    by (rule char_step.ctrl_ioctl [where kz = "Some 20" and minor = 1 and eid = 0 and cdev = 0 and add = 0 and c = 30
          and cmd = RPMSG_CREATE_EPT_IOCTL and info = "Some (strncpy (lit ''echo'') 32, RPMSG_ADDR_ANY, 7)" and r = 0])
      (simp_all add: sim_char_empty_def rpmsg_ctrldev_ioctl_def rpmsg_eptdev_create_def sim_ctrldev_def
        sim_eptdev_def RPMSG_NAME_SIZE_def n set_eptdev_def insert_commute)
  with s have "reachable (char_start sim_kernel sim_waits) (char_step sim_kernel sim_waits) ?t" by (rule next_state)
  then show ?thesis by (intro exI [of _ ?t]) simp
qed




end
