(* ===== verification/CharProps.thy ===== *)
theory CharProps
  imports CharSystem
begin

text \<open>
  What the file operations of the character device do: received messages come out in the
  order they went in, opening and releasing undo each other, failed creations leave nothing
  behind; and the orders of calls for which the code has no guard.
\<close>

section \<open>The queue of received messages\<close>

text \<open>
  The abstract device is a list of messages; arriving appends one, reading takes the first
  and cuts it to the room of the reader. \<open>ok\<close> and \<open>copies\<close> are the answers of the
  allocator and of the copy to the user.
\<close>

datatype queue_event = Arrive bytes addr nat bool | Read bool bool nat

fun queue_spec :: "queue_event \<Rightarrow> u8 list list \<Rightarrow> (int \<times> u8 list) \<times> u8 list list" where
  "queue_spec (Arrive m a n ok) q = (if ok then ((0, []), q @ [load m a n]) else ((- ENOMEM, []), q))"
| "queue_spec (Read nonblock copies room) [] = ((if nonblock then - EAGAIN else - ERESTARTSYS, []), [])"
| "queue_spec (Read nonblock copies room) (b # q) =
     ((if copies then (int (min room (length b)), take room b) else (- EFAULT, [])), q)"

fun queue_specs :: "queue_event list \<Rightarrow> u8 list list \<Rightarrow> (int \<times> u8 list) list \<times> u8 list list" where
  "queue_specs [] q = ([], q)"
| "queue_specs (ev # evs) q =
     (case queue_spec ev q of (out, q1) \<Rightarrow> case queue_specs evs q1 of (outs, q2) \<Rightarrow> (out # outs, q2))"

text \<open>The code on the same events: the receive callback, and a read that nobody wakes.\<close>

fun dev_event :: "addr \<Rightarrow> queue_event \<Rightarrow> ('q, 'i, 'y) char_bus_scheme \<Rightarrow>
    ((int \<times> u8 list) \<times> ('q, 'i, 'y) char_bus_scheme) outcome" where
  "dev_event p (Arrive m a n ok) s =
     bind_outcome (rpmsg_ept_cb ok None a (int n) (Priv_eptdev p) 0 (s\<lparr>mem := m\<rparr>)) (\<lambda>(r, s1). Returns ((r, []), s1))"
| "dev_event p (Read nonblock copies room) s =
     bind_outcome (rpmsg_eptdev_read_iter nonblock [] (\<lambda>t. t) copies room p s) (\<lambda>(r, bs, s1). Returns ((r, bs), s1))"

fun dev_events :: "addr \<Rightarrow> queue_event list \<Rightarrow> ('q, 'i, 'y) char_bus_scheme \<Rightarrow>
    ((int \<times> u8 list) list \<times> ('q, 'i, 'y) char_bus_scheme) outcome" where
  "dev_events p [] s = Returns ([], s)"
| "dev_events p (ev # evs) s =
     bind_outcome (dev_event p ev s) (\<lambda>(out, s1).
     bind_outcome (dev_events p evs s1) (\<lambda>(outs, s2). Returns (out # outs, s2)))"

lemma take_min_length [simp]: "take (min n (length xs)) xs = take n xs"
  by (simp add: min_def)

lemma dev_event_refines:
  assumes "eptdevs s p = Some e" and "ed_ept e \<noteq> None" and "queue_spec ev (ed_queue e) = (out, q)"
  shows "\<exists>s'. dev_event p ev s = Returns (out, s') \<and> eptdevs s' p = Some (e\<lparr>ed_queue := q\<rparr>)"
proof (cases ev)
  case (Arrive m a n ok)
  with assms show ?thesis by (cases ok) (auto simp: rpmsg_ept_cb_def)
next
  case (Read nonblock copies room)
  show ?thesis
  proof (cases "ed_queue e")
    case Nil
    with assms Read show ?thesis by (auto simp: rpmsg_eptdev_read_iter_def readable_def)
  next
    case (Cons b bs)
    with assms Read show ?thesis
      by (cases copies) (auto simp: rpmsg_eptdev_read_iter_def eptdev_take_def Let_def min.commute)
  qed
qed

text \<open>
  The queue of an open endpoint device is a FIFO: whatever messages arrive and whatever
  reads are made, in any order, the results of the reads and the bytes they deliver are
  those of the abstract list, a message is delivered whole or cut to the room of the
  reader, and a message whose copy to the user fails is lost.
\<close>

lemma eptdev_is_fifo:
  assumes "eptdevs s p = Some e" and "ed_ept e \<noteq> None"
  shows "\<exists>s'. dev_events p evs s = Returns (fst (queue_specs evs (ed_queue e)), s') \<and>
    eptdevs s' p = Some (e\<lparr>ed_queue := snd (queue_specs evs (ed_queue e))\<rparr>)"
  using assms
proof (induction evs arbitrary: s e)
  case (Cons ev evs)
  obtain out q where sp: "queue_spec ev (ed_queue e) = (out, q)" by fastforce
  from dev_event_refines [OF Cons.prems sp] obtain s1 where
    s1: "dev_event p ev s = Returns (out, s1)" "eptdevs s1 p = Some (e\<lparr>ed_queue := q\<rparr>)" by blast
  from Cons.IH [OF s1(2)] Cons.prems(2) obtain s2 where
    "dev_events p evs s1 = Returns (fst (queue_specs evs q), s2)"
    "eptdevs s2 p = Some (e\<lparr>ed_queue := snd (queue_specs evs q)\<rparr>)" by auto
  with s1(1) sp show ?case by (simp add: case_prod_beta)
qed simp

lemma eptdev_is_fifo_witness:
  "\<exists>s'. dev_events 20 [Arrive (bytes_of [1, 2, 3]) 0 3 True, Arrive (bytes_of [7]) 0 1 True, Read True True 2,
       Read True True 9, Read True True 9]
      (sim_char\<lparr>eptdevs := [20 \<mapsto> sim_eptdev\<lparr>ed_ept := Some 2\<rparr>]\<rparr>) =
    Returns ([(0, []), (0, []), (2, [1, 2]), (1, [7]), (- EAGAIN, [])], s')"
proof -
  let ?s = "sim_char\<lparr>eptdevs := [20 \<mapsto> sim_eptdev\<lparr>ed_ept := Some 2\<rparr>]\<rparr>"
  let ?evs = "[Arrive (bytes_of [1, 2, 3]) 0 3 True, Arrive (bytes_of [7]) 0 1 True, Read True True 2,
       Read True True 9, Read True True 9]"
  have "ed_queue (sim_eptdev\<lparr>ed_ept := Some 2\<rparr>) = []" by (simp add: sim_eptdev_def)
  moreover have "load (bytes_of [1, 2, 3]) 0 3 = [1, 2, 3]" "load (bytes_of [7]) 0 1 = [7]"
    by (simp_all add: load_def bytes_of_def upt_rec)
  ultimately have "fst (queue_specs ?evs (ed_queue (sim_eptdev\<lparr>ed_ept := Some 2\<rparr>))) =
      [(0, []), (0, []), (2, [1, 2]), (1, [7]), (- EAGAIN, [])]" by simp
  then show ?thesis using eptdev_is_fifo [of ?s 20 "sim_eptdev\<lparr>ed_ept := Some 2\<rparr>" ?evs] by auto
qed

section \<open>Opening and closing\<close>

text \<open>What closing needs of the endpoint an open device holds.\<close>

definition holds_ept where
  "holds_ept K s e q x \<longleftrightarrow> epts_wf K s \<and> ed_ept e = Some q \<and> epts s q = Some x \<and> ep_refcount x = 1 \<and>
     (\<exists>d. ep_rpdev x = Some d \<and> channel_ok d s)"

lemma virtio_destroy_more: "virtio_rpmsg_destroy_ept K p s = Returns s' \<Longrightarrow> rpmsg_bus.more s' = rpmsg_bus.more s"
  by (auto simp: virtio_rpmsg_destroy_ept_def dest: do_destroy_more split: option.splits)

lemma close_open:
  assumes e: "eptdevs s p = Some e" and h: "holds_ept K s e q x"
  shows "\<exists>s'. eptdev_close (virtio_endpoint_ops K W) p s = Returns s' \<and> epts_wf K s' \<and>
    bound_at K s' = (bound_at K s)(ep_addr x := None) \<and> epts s' = (epts s)(q := None) \<and>
    eptdevs s' = (eptdevs s)(p \<mapsto> e\<lparr>ed_ept := None\<rparr>) \<and> (\<forall>d. channel_ok d s' = channel_ok d s)"
proof -
  obtain d where x: "epts_wf K s" "ed_ept e = Some q" "epts s q = Some x" "ep_refcount x = 1" "ep_rpdev x = Some d"
    "channel_ok d s" using h by (auto simp: holds_ept_def)
  obtain t where t: "virtio_rpmsg_destroy_ept K q s = Returns t" "epts_wf K t"
    "bound_at K t = (bound_at K s)(ep_addr x := None)" "epts t = (epts s)(q := None)"
    "\<forall>d'. channel_ok d' t = channel_ok d' s"
    using vb.destroy_drop [OF x(1,3,5,6,4)] by blast
  have dev: "eptdevs t = eptdevs s" by (rule char_more(1) [OF virtio_destroy_more [OF t(1)]])
  have "eptdev_close (virtio_endpoint_ops K W) p s = Returns (set_eptdev p (e\<lparr>ed_ept := None\<rparr>) t)"
    using e x(2,3) t(1) dev by (simp add: eptdev_close_def rpmsg_destroy_ept_def)
  moreover have "epts_wf K (set_eptdev p (e\<lparr>ed_ept := None\<rparr>) t)"
    using t(2) epts_wf_frame [of "set_eptdev p (e\<lparr>ed_ept := None\<rparr>) t" t K] by simp
  moreover have "bound_at K (set_eptdev p (e\<lparr>ed_ept := None\<rparr>) t) = bound_at K t" by (simp add: bound_at_def)
  moreover have "channel_ok d' (set_eptdev p (e\<lparr>ed_ept := None\<rparr>) t) = channel_ok d' t" for d'
    by (simp add: channel_ok_def)
  ultimately show ?thesis using t(3-5) dev by simp
qed

lemma release_open:
  assumes e: "eptdevs s p = Some e" and h: "holds_ept K s e q x" and "1 < ed_refs e"
  shows "\<exists>s'. rpmsg_eptdev_release (virtio_endpoint_ops K W) p s = Returns (0, s') \<and> epts_wf K s' \<and>
    bound_at K s' = (bound_at K s)(ep_addr x := None) \<and> epts s' = (epts s)(q := None) \<and>
    eptdevs s' = (eptdevs s)(p \<mapsto> e\<lparr>ed_ept := None, ed_queue := [], ed_refs := ed_refs e - 1\<rparr>) \<and>
    (\<forall>d. channel_ok d s' = channel_ok d s)"
proof -
  obtain t where t: "eptdev_close (virtio_endpoint_ops K W) p s = Returns t" "epts_wf K t"
    "bound_at K t = (bound_at K s)(ep_addr x := None)" "epts t = (epts s)(q := None)"
    "eptdevs t = (eptdevs s)(p \<mapsto> e\<lparr>ed_ept := None\<rparr>)" "\<forall>d. channel_ok d t = channel_ok d s"
    using close_open [OF e h] by blast
  let ?u = "set_eptdev p (e\<lparr>ed_ept := None, ed_queue := [], ed_refs := ed_refs e - 1\<rparr>) t"
  have "rpmsg_eptdev_release (virtio_endpoint_ops K W) p s = Returns (0, ?u)"
    using t(1,5) assms(3) by (simp add: rpmsg_eptdev_release_def put_eptdev_def set_eptdev_def)
  moreover have "epts_wf K ?u" using t(2) epts_wf_frame [of ?u t K] by simp
  moreover have "bound_at K ?u = bound_at K t" by (simp add: bound_at_def)
  moreover have "channel_ok d ?u = channel_ok d t" for d by (simp add: channel_ok_def)
  ultimately show ?thesis using t(3-6) by (intro exI [of _ ?u]) simp
qed

lemma release_closed:
  assumes "eptdevs s p = Some e" and "ed_ept e = None" and "1 < ed_refs e"
  shows "rpmsg_eptdev_release (virtio_endpoint_ops K W) p s =
    Returns (0, set_eptdev p (e\<lparr>ed_queue := [], ed_refs := ed_refs e - 1\<rparr>) s)"
  using assms by (simp add: rpmsg_eptdev_release_def eptdev_close_def put_eptdev_def set_eptdev_def)

lemma open_cases:
  assumes e: "eptdevs s p = Some e" and wf: "epts_wf K s" and ch: "channel_ok (ed_rpdev e) s" and refs: "0 < ed_refs e"
    and fresh: "\<And>x. kz = Some x \<Longrightarrow> epts s x = None"
  obtains (no_ept) s' where "rpmsg_eptdev_open (virtio_rpmsg_ops K W) kz p s = Returns (- EINVAL, s')"
    and "bound_at K s' = bound_at K s" and "epts s' = epts s" and "eptdevs s' = eptdevs s"
  | (opened) s' q a x where "rpmsg_eptdev_open (virtio_rpmsg_ops K W) kz p s = Returns (0, s')"
    and "kz = Some q" and "bound_at K s a = None" and "bound_at K s' = (bound_at K s)(a \<mapsto> q)"
    and "epts s' = (epts s)(q \<mapsto> x)" and "ep_addr x = a" and "ep_priv x = Priv_eptdev p" and "ep_cb x = Some Rpmsg_ept_cb"
    and "ch_src (ed_chinfo e) \<noteq> RPMSG_ADDR_ANY \<Longrightarrow> a = ch_src (ed_chinfo e)"
    and "eptdevs s' = (eptdevs s)(p \<mapsto> e\<lparr>ed_refs := ed_refs e + 1, ed_ept := Some q\<rparr>)"
    and "holds_ept K s' (e\<lparr>ed_refs := ed_refs e + 1, ed_ept := Some q\<rparr>) q x" and "\<And>d. channel_ok d s' = channel_ok d s"
proof -
  let ?e1 = "e\<lparr>ed_refs := ed_refs e + 1\<rparr>" and ?s1 = "set_eptdev p (e\<lparr>ed_refs := ed_refs e + 1\<rparr>) s"
  have wf1: "epts_wf K ?s1" using wf epts_wf_frame [of ?s1 s K] by simp
  have ch1: "channel_ok d ?s1 = channel_ok d s" for d by (simp add: channel_ok_def)
  then have ok1: "channel_ok (ed_rpdev e) ?s1" using ch by simp
  have b1: "bound_at K ?s1 = bound_at K s" by (simp add: bound_at_def)
  have fresh1: "\<And>x. kz = Some x \<Longrightarrow> epts ?s1 x = None" using fresh by simp
  obtain r t where mk: "virtio_rpmsg_create_ept K kz (ed_rpdev e) Rpmsg_ept_cb (Priv_eptdev p) (ed_chinfo e) ?s1 = Returns (r, t)"
    using vb.create_returns [OF wf1 ok1] by blast
  have "do_rpmsg_create_ept K kz (Some (ed_rpdev e)) Rpmsg_ept_cb (Priv_eptdev p) (ch_src (ed_chinfo e)) ?s1 = Returns (r, t)"
    using mk by (simp only: virtio_create_eq [OF ok1])
  from char_more(1) [OF do_create_more [OF this]] have dev: "eptdevs t = (eptdevs s)(p \<mapsto> ?e1)" by simp
  have get: "get_eptdev p s = Returns ?s1" using e by (simp add: get_eptdev_def)
  show thesis
  proof (cases r)
    case None
    note t = vb.create_None [OF wf1 ok1 fresh1 mk [unfolded None], unfolded b1 set_eptdev_fields]
    have "put_eptdev p t = Returns (set_eptdev p e t)"
      using dev refs by (simp add: put_eptdev_def)
    with None mk get have "rpmsg_eptdev_open (virtio_rpmsg_ops K W) kz p s = Returns (- EINVAL, set_eptdev p e t)"
      by (simp add: rpmsg_eptdev_open_def rpmsg_create_ept_def)
    then show thesis by (rule no_ept) (use t dev e in \<open>simp_all add: bound_at_def fun_upd_idem\<close>)
  next
    case (Some q)
    with mk have "virtio_rpmsg_create_ept K kz (ed_rpdev e) Rpmsg_ept_cb (Priv_eptdev p) (ed_chinfo e) ?s1 = Returns (Some q, t)"
      by simp
    from vb.create_Some [OF wf1 ok1 fresh1 this] obtain a where c: "kz = Some q" "epts_wf K t" "bound_at K s a = None"
      "bound_at K t = (bound_at K s)(a \<mapsto> q)"
      "epts t = (epts s)(q \<mapsto> \<lparr>ep_rpdev = Some (ed_rpdev e), ep_cb = Some Rpmsg_ept_cb, ep_priv = Priv_eptdev p, ep_addr = a, ep_refcount = 1\<rparr>)"
      "ch_src (ed_chinfo e) \<noteq> RPMSG_ADDR_ANY \<Longrightarrow> a = ch_src (ed_chinfo e)"
      unfolding b1 set_eptdev_fields by metis
    let ?t = "set_eptdev p (?e1\<lparr>ed_ept := Some q\<rparr>) t"
    have "rpmsg_eptdev_open (virtio_rpmsg_ops K W) kz p s = Returns (0, ?t)"
      using Some mk get dev by (simp add: rpmsg_eptdev_open_def rpmsg_create_ept_def)
    moreover have cht: "channel_ok d ?t = channel_ok d s" for d
      using vb.create_dev [OF wf1 ok1 mk, of d] ch1 [of d] by (simp add: channel_ok_def)
    moreover have "epts_wf K ?t" using c(2) epts_wf_frame [of ?t t K] by simp
    ultimately show thesis
      by (intro opened [of ?t q a "\<lparr>ep_rpdev = Some (ed_rpdev e), ep_cb = Some Rpmsg_ept_cb, ep_priv = Priv_eptdev p,
        ep_addr = a, ep_refcount = 1\<rparr>"]) (use c(1,3-6) dev ch in \<open>simp_all add: bound_at_def holds_ept_def\<close>)
  qed
qed

text \<open>
  C27. Opening an endpoint device and releasing it undo each other: an open that fails
  leaves the address table, the endpoints and the device as they were; one that succeeds
  binds an endpoint of the device, and releasing the file again unbinds and frees it, drops
  the messages that were not read, and restores the rest.
\<close>

theorem open_then_release:
  assumes "eptdevs s p = Some e" and "epts_wf K s" and "channel_ok (ed_rpdev e) s" and "0 < ed_refs e"
    and "\<And>x. kz = Some x \<Longrightarrow> epts s x = None" and "ed_ept e = None"
  shows "\<exists>r s'. rpmsg_eptdev_open (virtio_rpmsg_ops K W) kz p s = Returns (r, s') \<and>
    (if r = 0 then \<exists>q x. kz = Some q \<and> bound_at K s' = (bound_at K s)(ep_addr x \<mapsto> q) \<and> epts s' = (epts s)(q \<mapsto> x) \<and>
         ep_cb x = Some Rpmsg_ept_cb \<and> ep_priv x = Priv_eptdev p \<and>
         (\<exists>s''. rpmsg_eptdev_release (virtio_endpoint_ops K W) p s' = Returns (0, s'') \<and>
            bound_at K s'' = bound_at K s \<and> epts s'' = epts s \<and> eptdevs s'' = (eptdevs s)(p \<mapsto> e\<lparr>ed_queue := []\<rparr>))
     else r = - EINVAL \<and> bound_at K s' = bound_at K s \<and> epts s' = epts s \<and> eptdevs s' = eptdevs s)"
proof (rule open_cases [OF assms(1-4), of kz W, OF assms(5)])
  fix s' q a x
  let ?e = "e\<lparr>ed_refs := ed_refs e + 1, ed_ept := Some q\<rparr>"
  assume o: "rpmsg_eptdev_open (virtio_rpmsg_ops K W) kz p s = Returns (0, s')" "kz = Some q" "bound_at K s a = None"
    "bound_at K s' = (bound_at K s)(a \<mapsto> q)" "epts s' = (epts s)(q \<mapsto> x)" "ep_addr x = a" "ep_priv x = Priv_eptdev p"
    "ep_cb x = Some Rpmsg_ept_cb" "eptdevs s' = (eptdevs s)(p \<mapsto> ?e)" "holds_ept K s' ?e q x"
  have e: "eptdevs s' p = Some ?e" and r: "1 < ed_refs ?e" using o(9) assms(4) by simp_all
  obtain s'' where rel: "rpmsg_eptdev_release (virtio_endpoint_ops K W) p s' = Returns (0, s'')"
    "bound_at K s'' = (bound_at K s')(ep_addr x := None)" "epts s'' = (epts s')(q := None)"
    "eptdevs s'' = (eptdevs s')(p \<mapsto> ?e\<lparr>ed_ept := None, ed_queue := [], ed_refs := ed_refs ?e - 1\<rparr>)"
    using release_open [OF e o(10) r, of W] by blast
  have "bound_at K s'' = bound_at K s" "epts s'' = epts s"
    using rel(2,3) o(3-6) assms(5) [OF o(2)] by (simp_all add: fun_upd_idem)
  moreover have "eptdevs s'' = (eptdevs s)(p \<mapsto> e\<lparr>ed_queue := []\<rparr>)"
    using rel(4) o(9) assms(6) by (cases e) simp
  ultimately show ?thesis using o rel(1) by auto
qed auto

lemma sim_eptdev_at: "eptdevs sim_char 20 = Some sim_eptdev" by simp

theorem open_then_release_witness:
  "\<exists>r s'. rpmsg_eptdev_open (virtio_rpmsg_ops sim_kernel sim_waits) (Some 3) 20 sim_char = Returns (r, s') \<and>
     (if r = 0 then \<exists>s''. rpmsg_eptdev_release (virtio_endpoint_ops sim_kernel sim_waits) 20 s' = Returns (0, s'') \<and>
        epts s'' = epts sim_char else epts s' = epts sim_char)"
proof -
  have e: "channel_ok (ed_rpdev sim_eptdev) sim_char" "0 < ed_refs sim_eptdev" "ed_ept sim_eptdev = None"
    using sim_char_wf(2) by (simp_all add: sim_eptdev_def)
  have "\<And>x. Some 3 = Some x \<Longrightarrow> epts sim_char x = None" by simp
  from open_then_release [OF sim_eptdev_at sim_char_wf(1) e(1,2), where kz = "Some 3" and W = sim_waits, OF this e(3)]
  show ?thesis by (auto split: if_splits)
qed

section \<open>Orders of calls without a guard\<close>

lemma open_ok:
  assumes "eptdevs s p = Some e" and "epts_wf K s" and "channel_ok (ed_rpdev e) s" and "0 < ed_refs e"
    and "epts s k = None" and ret: "rpmsg_eptdev_open (virtio_rpmsg_ops K W) (Some k) p s = Returns (0, s')"
  obtains x where "bound_at K s (ep_addr x) = None" and "bound_at K s' = (bound_at K s)(ep_addr x \<mapsto> k)"
    and "epts s' = (epts s)(k \<mapsto> x)" and "ep_priv x = Priv_eptdev p" and "ep_cb x = Some Rpmsg_ept_cb"
    and "eptdevs s' = (eptdevs s)(p \<mapsto> e\<lparr>ed_refs := ed_refs e + 1, ed_ept := Some k\<rparr>)"
    and "holds_ept K s' (e\<lparr>ed_refs := ed_refs e + 1, ed_ept := Some k\<rparr>) k x" and "\<And>d. channel_ok d s' = channel_ok d s"
proof -
  have fresh: "\<And>y. Some k = Some y \<Longrightarrow> epts s y = None" using assms(5) by simp
  show thesis
  proof (rule open_cases [OF assms(1-4), where kz = "Some k" and W = W, OF fresh])
    fix t assume "rpmsg_eptdev_open (virtio_rpmsg_ops K W) (Some k) p s = Returns (- EINVAL, t)"
    with ret show thesis by simp
  next
    fix t q a x
    let ?e = "e\<lparr>ed_refs := ed_refs e + 1, ed_ept := Some q\<rparr>"
    assume o: "rpmsg_eptdev_open (virtio_rpmsg_ops K W) (Some k) p s = Returns (0, t)" "Some k = Some q"
      "bound_at K s a = None" "bound_at K t = (bound_at K s)(a \<mapsto> q)" "epts t = (epts s)(q \<mapsto> x)" "ep_addr x = a"
      "ep_priv x = Priv_eptdev p" "ep_cb x = Some Rpmsg_ept_cb" "eptdevs t = (eptdevs s)(p \<mapsto> ?e)"
      "holds_ept K t ?e q x" "\<And>d. channel_ok d t = channel_ok d s"
    have "t = s'" "q = k" using ret o(1,2) by simp_all
    with o(3-11) show thesis by (intro that [of x]) simp_all
  qed
qed


lemma destroy_closed:
  assumes "eptdevs s p = Some e" and "ed_ept e = None"
  shows "rpmsg_eptdev_destroy (virtio_endpoint_ops K W) p s =
    Returns (0, if ed_refs e \<le> 1 then s\<lparr>ept_ida := ept_ida s - {ed_id e}, minor_ida := minor_ida s - {ed_minor e},
                  eptdevs := (eptdevs s)(p := None)\<rparr>
      else set_eptdev p (e\<lparr>ed_added := False, ed_refs := ed_refs e - 1\<rparr>) s)"
  using assms
  by (simp add: rpmsg_eptdev_destroy_def eptdev_close_def device_del_eptdev_def put_eptdev_def
      rpmsg_eptdev_release_device_def set_eptdev_def)

text \<open>
  Nothing keeps a program from asking twice for the destruction of its endpoint device:
  each \<open>RPMSG_DESTROY_EPT_IOCTL\<close> puts the reference of the device, so that with one file
  open the second frees the object under the open file, and the close of that file touches
  freed memory.
\<close>

lemma destroy_ioctl_twice:
  assumes "eptdevs s p = Some e" and "ed_ept e = None" and "ed_refs e = 2"
  shows "\<exists>s1 s2. rpmsg_eptdev_ioctl (virtio_endpoint_ops K W) RPMSG_DESTROY_EPT_IOCTL p s = Returns (0, s1) \<and>
    rpmsg_eptdev_ioctl (virtio_endpoint_ops K W) RPMSG_DESTROY_EPT_IOCTL p s1 = Returns (0, s2) \<and>
    eptdevs s2 p = None \<and> rpmsg_eptdev_release (virtio_endpoint_ops K W) p s2 = Faults"
proof -
  let ?e1 = "e\<lparr>ed_added := False, ed_refs := 1\<rparr>"
  let ?s1 = "set_eptdev p ?e1 s"
  have 1: "rpmsg_eptdev_destroy (virtio_endpoint_ops K W) p s = Returns (0, ?s1)"
    using destroy_closed [OF assms(1,2), of K W] assms(3) by simp
  have "eptdevs ?s1 p = Some ?e1" "ed_ept ?e1 = None" "ed_refs ?e1 = 1" using assms(2) by simp_all
  from destroy_closed [OF this(1,2), of K W] this(3) obtain s2 where
    "rpmsg_eptdev_destroy (virtio_endpoint_ops K W) p ?s1 = Returns (0, s2)" "eptdevs s2 p = None" by simp
  with 1 show ?thesis
    by (auto simp: rpmsg_eptdev_ioctl_def rpmsg_eptdev_release_def eptdev_close_def)
qed

lemma destroy_ioctl_twice_witness:
  "\<exists>s1 s2. rpmsg_eptdev_ioctl (virtio_endpoint_ops sim_kernel sim_waits) RPMSG_DESTROY_EPT_IOCTL 20
       (set_eptdev 20 (sim_eptdev\<lparr>ed_refs := 2\<rparr>) sim_char) = Returns (0, s1) \<and>
     rpmsg_eptdev_ioctl (virtio_endpoint_ops sim_kernel sim_waits) RPMSG_DESTROY_EPT_IOCTL 20 s1 = Returns (0, s2) \<and>
     rpmsg_eptdev_release (virtio_endpoint_ops sim_kernel sim_waits) 20 s2 = Faults"
  using destroy_ioctl_twice [of "set_eptdev 20 (sim_eptdev\<lparr>ed_refs := 2\<rparr>) sim_char" 20 "sim_eptdev\<lparr>ed_refs := 2\<rparr>"
      sim_kernel sim_waits]
  by (auto simp: sim_eptdev_def)

text \<open>
  C35. Nothing keeps a second program from opening an endpoint device that is open. When any
  address will do, the second open replaces the endpoint of the first without destroying
  it: after both files are closed the first endpoint is still bound, its callback and its
  pointer to the device in place, and once the device is destroyed the next message for
  that address makes the callback write to freed memory.
\<close>

theorem second_open_leaks:
  assumes "eptdevs s p = Some e" and "epts_wf K s" and "channel_ok (ed_rpdev e) s" and "ed_refs e = 1"
    and "k \<noteq> k'" and "epts s k = None" and "epts s k' = None"
    and "rpmsg_eptdev_open (virtio_rpmsg_ops K W) (Some k) p s = Returns (0, s1)"
    and "rpmsg_eptdev_open (virtio_rpmsg_ops K W) (Some k') p s1 = Returns (0, s2)"
  shows "\<exists>a x s3 s4 s5. rpmsg_eptdev_release (virtio_endpoint_ops K W) p s2 = Returns (0, s3) \<and>
    rpmsg_eptdev_release (virtio_endpoint_ops K W) p s3 = Returns (0, s4) \<and>
    rpmsg_eptdev_destroy (virtio_endpoint_ops K W) p s4 = Returns (0, s5) \<and>
    bound_at K s5 a = Some k \<and> epts s5 k = Some x \<and> ep_cb x = Some Rpmsg_ept_cb \<and>
    rpmsg_ept_cb True (ep_rpdev x) buf n (ep_priv x) src s5 = Faults"
proof -
  have refs: "0 < ed_refs e" using assms(4) by simp
  obtain x where o1: "bound_at K s1 = (bound_at K s)(ep_addr x \<mapsto> k)" "epts s1 = (epts s)(k \<mapsto> x)"
    "ep_priv x = Priv_eptdev p" "ep_cb x = Some Rpmsg_ept_cb"
    "eptdevs s1 = (eptdevs s)(p \<mapsto> e\<lparr>ed_refs := ed_refs e + 1, ed_ept := Some k\<rparr>)"
    "holds_ept K s1 (e\<lparr>ed_refs := ed_refs e + 1, ed_ept := Some k\<rparr>) k x" "\<And>d. channel_ok d s1 = channel_ok d s"
    by (rule open_ok [OF assms(1-3) refs assms(6,8)]) (blast intro: that)
  let ?e1 = "e\<lparr>ed_refs := ed_refs e + 1, ed_ept := Some k\<rparr>"
  have p1: "eptdevs s1 p = Some ?e1" using o1(5) by simp
  have wf1: "epts_wf K s1" using o1(6) by (simp add: holds_ept_def)
  have ch1: "channel_ok (ed_rpdev ?e1) s1" using assms(3) o1(7) by simp
  have refs1: "0 < ed_refs ?e1" and fresh1: "epts s1 k' = None" using assms(5,7) o1(2) by simp_all
  obtain y where o2: "bound_at K s1 (ep_addr y) = None" "bound_at K s2 = (bound_at K s1)(ep_addr y \<mapsto> k')"
    "epts s2 = (epts s1)(k' \<mapsto> y)"
    "eptdevs s2 = (eptdevs s1)(p \<mapsto> ?e1\<lparr>ed_refs := ed_refs ?e1 + 1, ed_ept := Some k'\<rparr>)"
    "holds_ept K s2 (?e1\<lparr>ed_refs := ed_refs ?e1 + 1, ed_ept := Some k'\<rparr>) k' y"
    by (rule open_ok [OF p1 wf1 ch1 refs1 fresh1 assms(9)]) (blast intro: that)
  let ?e2 = "?e1\<lparr>ed_refs := ed_refs ?e1 + 1, ed_ept := Some k'\<rparr>"
  have p2: "eptdevs s2 p = Some ?e2" "1 < ed_refs ?e2" using o2(4) assms(4) by simp_all
  let ?e3 = "?e2\<lparr>ed_ept := None, ed_queue := [], ed_refs := ed_refs ?e2 - 1\<rparr>"
  obtain s3 where s3: "rpmsg_eptdev_release (virtio_endpoint_ops K W) p s2 = Returns (0, s3)"
    "bound_at K s3 = (bound_at K s2)(ep_addr y := None)" "epts s3 = (epts s2)(k' := None)"
    "eptdevs s3 = (eptdevs s2)(p \<mapsto> ?e3)"
    using release_open [OF p2(1) o2(5) p2(2), of W] by blast
  have p3: "eptdevs s3 p = Some ?e3" "ed_ept ?e3 = None" "1 < ed_refs ?e3" using s3(4) assms(4) by simp_all
  let ?e4 = "?e3\<lparr>ed_queue := [], ed_refs := ed_refs ?e3 - 1\<rparr>"
  let ?s4 = "set_eptdev p ?e4 s3"
  note s4 = release_closed [OF p3, of K W]
  have p4: "eptdevs ?s4 p = Some ?e4" "ed_ept ?e4 = None" "ed_refs ?e4 = 1" using assms(4) by simp_all
  obtain s5 where s5: "rpmsg_eptdev_destroy (virtio_endpoint_ops K W) p ?s4 = Returns (0, s5)" "eptdevs s5 p = None"
    "vrp s5 = vrp s3" "epts s5 = epts s3"
    using destroy_closed [OF p4(1,2), of K W] p4(3) by simp
  have "ep_addr x \<noteq> ep_addr y" using o1(1) o2(1) by auto
  then have "bound_at K s5 (ep_addr x) = Some k" using s5(3) s3(2) o2(2) o1(1) by (simp add: bound_at_def)
  moreover have "epts s5 k = Some x" using s5(4) s3(3) o2(3) o1(2) assms(5) by simp
  moreover have "rpmsg_ept_cb True (ep_rpdev x) buf n (ep_priv x) src s5 = Faults"
    using o1(3) s5(2) by (simp add: rpmsg_ept_cb_def)
  ultimately show ?thesis using s3(1) s4 s5(1) o1(4) by blast
qed

lemma sim_create_any:
  assumes "rpdevs s 1 = Some sim_rpdev" and "endpoints (vrp s) = [(1024, 2)] \<or> endpoints (vrp s) = [(1025, 3), (1024, 2)]"
    and "ch_src ch = RPMSG_ADDR_ANY"
  shows "\<exists>s'. virtio_rpmsg_create_ept sim_kernel (Some k) 1 cb pr ch s = Returns (Some k, s') \<and>
    endpoints (vrp s') = (if endpoints (vrp s) = [(1024, 2)] then (1025, k) # endpoints (vrp s) else (1026, k) # endpoints (vrp s)) \<and>
    rpdevs s' = rpdevs s \<and> rpmsg_bus.more s' = rpmsg_bus.more s"
  using assms(2)
proof
  assume "endpoints (vrp s) = [(1024, 2)]"
  with assms(1,3) show ?thesis
    by (simp add: virtio_rpmsg_create_ept_def do_rpmsg_create_ept_def id_range_def rpmsg_consts
        sim_kernel_def sim_idr_alloc_def sim_rpdev_def upto_rec1 Let_def)
next
  assume "endpoints (vrp s) = [(1025, 3), (1024, 2)]"
  with assms(1,3) show ?thesis
    by (simp add: virtio_rpmsg_create_ept_def do_rpmsg_create_ept_def id_range_def rpmsg_consts
        sim_kernel_def sim_idr_alloc_def sim_rpdev_def upto_rec1 Let_def)
qed

lemma sim_open:
  assumes "eptdevs s 20 = Some e" and "ed_rpdev e = 1" and "ch_src (ed_chinfo e) = RPMSG_ADDR_ANY" and "rpdevs s 1 = Some sim_rpdev"
    and "endpoints (vrp s) = [(1024, 2)] \<or> endpoints (vrp s) = [(1025, 3), (1024, 2)]"
  shows "\<exists>s'. rpmsg_eptdev_open (virtio_rpmsg_ops sim_kernel sim_waits) (Some k) 20 s = Returns (0, s') \<and>
    endpoints (vrp s') = (if endpoints (vrp s) = [(1024, 2)] then (1025, k) # endpoints (vrp s) else (1026, k) # endpoints (vrp s)) \<and>
    rpdevs s' = rpdevs s \<and> eptdevs s' 20 = Some (e\<lparr>ed_refs := ed_refs e + 1, ed_ept := Some k\<rparr>)"
proof -
  let ?s = "set_eptdev 20 (e\<lparr>ed_refs := ed_refs e + 1\<rparr>) s"
  have 1: "rpdevs ?s 1 = Some sim_rpdev" "endpoints (vrp ?s) = [(1024, 2)] \<or> endpoints (vrp ?s) = [(1025, 3), (1024, 2)]"
    using assms(4,5) by simp_all
  obtain t where t: "virtio_rpmsg_create_ept sim_kernel (Some k) 1 Rpmsg_ept_cb (Priv_eptdev 20) (ed_chinfo e) ?s = Returns (Some k, t)"
    "endpoints (vrp t) = (if endpoints (vrp s) = [(1024, 2)] then (1025, k) # endpoints (vrp s) else (1026, k) # endpoints (vrp s))"
    "rpdevs t = rpdevs s" "rpmsg_bus.more t = rpmsg_bus.more ?s"
    using sim_create_any [OF 1 assms(3)] by (metis set_eptdev_fields(1,4))
  have "get_eptdev 20 s = Returns ?s" using assms(1) by (simp add: get_eptdev_def)
  moreover have "eptdevs t 20 = Some (e\<lparr>ed_refs := ed_refs e + 1\<rparr>)" using char_more(1) [OF t(4)] by simp
  ultimately show ?thesis
    using t(1-3) assms(2) by (simp add: rpmsg_eptdev_open_def rpmsg_create_ept_def)
qed

theorem second_open_leaks_witness:
  "\<exists>(s5 :: (sim_vq, (u32 \<times> addr) list) char_bus) a x. bound_at sim_kernel s5 a = Some 3 \<and> epts s5 3 = Some x \<and>
     rpmsg_ept_cb True (ep_rpdev x) 4112 8 (ep_priv x) 7 s5 = Faults"
proof -
  have e: "ed_rpdev sim_eptdev = 1" "ch_src (ed_chinfo sim_eptdev) = RPMSG_ADDR_ANY" "ed_refs sim_eptdev = 1"
    by (simp_all add: sim_eptdev_def)
  have i: "endpoints (vrp sim_char) = [(1024, 2)]" by (simp add: sim_vrp_def)
  obtain s1 where s1: "rpmsg_eptdev_open (virtio_rpmsg_ops sim_kernel sim_waits) (Some 3) 20 sim_char = Returns (0, s1)"
    "endpoints (vrp s1) = [(1025, 3), (1024, 2)]" "rpdevs s1 1 = Some sim_rpdev"
    "eptdevs s1 20 = Some (sim_eptdev\<lparr>ed_refs := ed_refs sim_eptdev + 1, ed_ept := Some 3\<rparr>)"
    using sim_open [OF sim_eptdev_at e(1,2), of 3] i by auto
  obtain s2 where s2: "rpmsg_eptdev_open (virtio_rpmsg_ops sim_kernel sim_waits) (Some 4) 20 s1 = Returns (0, s2)"
    using sim_open [OF s1(4) _ _ s1(3), of 4] s1(2) e by auto
  have ch: "channel_ok (ed_rpdev sim_eptdev) sim_char" using sim_char_wf(2) by (simp add: e)
  have k: "(3 :: addr) \<noteq> 4" "epts sim_char 3 = None" "epts sim_char 4 = None" by simp_all
  from second_open_leaks [OF sim_eptdev_at sim_char_wf(1) ch e(3) k s1(1) s2, of 4112 8 7] show ?thesis by blast
qed

section \<open>Creating and probing\<close>

text \<open>
  C28. \<open>RPMSG_CREATE_EPT_IOCTL\<close> is all or nothing: it fails and has changed nothing, whichever
  of its five allocations and registrations fails, or it adds one endpoint device of the
  channel with one reference, no endpoint, the addresses of the request and its name cut to
  31 bytes, and takes one minor number and one id for it.
\<close>

theorem create_ioctl_all_or_nothing:
  assumes "ctrldevs s c = Some d" and "\<forall>p. kz = Some p \<longrightarrow> eptdevs s p = None"
    and "0 \<le> minor \<longrightarrow> nat minor \<notin> minor_ida s" and "0 \<le> eid \<longrightarrow> nat eid \<notin> ept_ida s"
  shows "\<exists>r s'. rpmsg_ctrldev_ioctl kz minor eid cdev add RPMSG_CREATE_EPT_IOCTL (Some (name, src, dst)) c s = Returns (r, s') \<and>
    (if r = 0 then \<exists>p e. kz = Some p \<and> eptdevs s' = (eptdevs s)(p \<mapsto> e) \<and>
         minor_ida s' = insert (ed_minor e) (minor_ida s) \<and> ept_ida s' = insert (ed_id e) (ept_ida s) \<and>
         ed_rpdev e = cd_rpdev d \<and> ed_refs e = 1 \<and> ed_ept e = None \<and> ed_queue e = [] \<and>
         ed_chinfo e = \<lparr>ch_name = name[31 := 0], ch_src = src, ch_dst = dst\<rparr>
     else s' = s)"
proof -
  let ?ch = "\<lparr>ch_name = name[31 := 0], ch_src = src, ch_dst = dst\<rparr>"
  have ioctl: "rpmsg_ctrldev_ioctl kz minor eid cdev add RPMSG_CREATE_EPT_IOCTL (Some (name, src, dst)) c s =
      rpmsg_eptdev_create kz minor eid cdev add c ?ch s"
    by (simp add: rpmsg_ctrldev_ioctl_def RPMSG_NAME_SIZE_def)
  show ?thesis
  proof (cases rule: eptdev_create_cases [OF assms, where cdev = cdev and add = add and ch = ?ch, case_names failed created])
    case (failed r)
    then show ?thesis unfolding ioctl by simp
  next
    case (created p s')
    then show ?thesis
      unfolding ioctl by (intro exI [of _ 0] exI [of _ s'] conjI)
        (simp, fastforce intro!: exI [of _ "\<lparr>ed_rpdev = cd_rpdev d, ed_chinfo = ?ch, ed_ept = None, ed_queue = [],
          ed_refs = 1, ed_minor = nat minor, ed_id = nat eid, ed_added = True\<rparr>"])
  qed
qed

theorem create_ioctl_all_or_nothing_witness:
  "\<exists>s'. rpmsg_ctrldev_ioctl (Some 21) 2 1 0 (- 12) RPMSG_CREATE_EPT_IOCTL (Some (lit ''echo'', 5, 7)) 30 sim_char =
     Returns (- 12, s') \<and> s' = sim_char"
proof -
  have 1: "rpmsg_ctrldev_ioctl (Some 21) 2 1 0 (- 12) RPMSG_CREATE_EPT_IOCTL (Some (lit ''echo'', 5, 7)) 30 sim_char =
      Returns (r, s') \<Longrightarrow> r = - 12" for r s'
    by (auto simp: rpmsg_ctrldev_ioctl_def rpmsg_eptdev_create_def Let_def)
  show ?thesis
    using create_ioctl_all_or_nothing [of sim_char 30 sim_ctrldev "Some 21" 2 1 0 "- 12" "lit ''echo''" 5 7] 1
    by (fastforce split: if_splits)
qed

text \<open>
  When \<open>device_add\<close> fails in the probe of the control device, the object has been freed by
  the last \<open>put_device\<close>, and the driver data of the device still points to it.
\<close>

lemma probe_add_failed_dangles:
  assumes "rpdevs s rpdev = Some r" and "ctrldevs s c = None" and "0 \<le> minor" and "nat minor \<notin> minor_ida s"
    and "0 \<le> cid" and "nat cid \<notin> ctrl_ida s" and "add \<noteq> 0"
  shows "\<exists>s'. rpmsg_chrdev_probe (Some c) minor cid 0 add rpdev s = Returns (add, s') \<and>
    (\<exists>r'. rpdevs s' rpdev = Some r' \<and> rp_drvdata r' = Some c) \<and> ctrldevs s' c = None"
proof -
  have "(ctrldevs s)(c := None) = ctrldevs s" using assms(2) by (simp add: fun_upd_idem)
  with assms show ?thesis
    by (simp add: rpmsg_chrdev_probe_def Let_def put_ctrldev_def rpmsg_ctrldev_release_device_def)
qed

section \<open>Writing\<close>

lemma write_is_send:
  assumes "eptdevs s p = Some e" and "ed_ept e = Some q" and "epts s q = Some x" and "ep_rpdev x = Some d"
    and "rpdevs s d = Some r"
  shows "rpmsg_eptdev_write_iter (virtio_endpoint_ops K W) nonblock True (Some bs) len False p s =
    bind_outcome (rpmsg_send_offchannel_raw K W r (ep_addr x) (rp_dst r) (bytes_of bs) (int_of_u32 (of_nat len)) (\<not> nonblock) s)
      (\<lambda>(ret, s1). Returns (if ret < 0 then ret else int len, s1))"
  using assms
  by (simp add: rpmsg_eptdev_write_iter_def rpmsg_send_def rpmsg_trysend_def ept_dispatch_def virtio_endpoint_ops_def
      virtio_rpmsg_send_def virtio_rpmsg_trysend_def ept_and_rpdev_def)

text \<open>
  A write goes to the destination of the channel, whatever destination the endpoint
  device was created with: two devices that differ in it send the same message. On a channel
  without a destination, as the one the module makes for testing, every write is
  \<open>-EINVAL\<close>.
\<close>

lemma write_ignores_dst:
  assumes "eptdevs s p = Some e" and "ed_ept e = Some q" and "epts s q = Some x" and "ep_rpdev x = Some d"
    and "rpdevs s d = Some r" and "rp_container r = Virtio_rpmsg_channel"
  shows "rpmsg_eptdev_write_iter (virtio_endpoint_ops K W) nonblock True (Some bs) len False p s =
      bind_outcome (rpmsg_send_offchannel_raw K W r (ep_addr x) (rp_dst r) (bytes_of bs) (int_of_u32 (of_nat len)) (\<not> nonblock) s)
        (\<lambda>(ret, s1). Returns (if ret < 0 then ret else int len, s1)) \<and>
    (rp_dst r = RPMSG_ADDR_ANY \<longrightarrow>
      rpmsg_eptdev_write_iter (virtio_endpoint_ops K W) nonblock True (Some bs) len False p s = Returns (- EINVAL, s))"
proof -
  have "rpmsg_send_offchannel_raw K W r (ep_addr x) (rp_dst r) (bytes_of bs) (int_of_u32 (of_nat len)) (\<not> nonblock) s =
      Returns (- EINVAL, s)" if "rp_dst r = RPMSG_ADDR_ANY"
    using assms(6) that by (simp add: rpmsg_send_offchannel_raw_def)
  with write_is_send [OF assms(1-5), of K W nonblock bs len] show ?thesis by simp
qed

lemma write_ignores_dst_witness:
  "rpmsg_eptdev_write_iter (virtio_endpoint_ops sim_kernel sim_waits) False True (Some [1, 2]) 2 False 20
     (sim_char\<lparr>eptdevs := [20 \<mapsto> sim_eptdev\<lparr>ed_ept := Some 2\<rparr>], rpdevs := [1 \<mapsto> sim_rpdev\<lparr>rp_dst := RPMSG_ADDR_ANY\<rparr>]\<rparr>) =
   Returns (- EINVAL, sim_char\<lparr>eptdevs := [20 \<mapsto> sim_eptdev\<lparr>ed_ept := Some 2\<rparr>],
     rpdevs := [1 \<mapsto> sim_rpdev\<lparr>rp_dst := RPMSG_ADDR_ANY\<rparr>]\<rparr>)"
  by (subst write_ignores_dst [where e = "sim_eptdev\<lparr>ed_ept := Some 2\<rparr>" and q = 2 and x = sim_ept and d = 1 and
        r = "sim_rpdev\<lparr>rp_dst := RPMSG_ADDR_ANY\<rparr>", THEN conjunct2, THEN mp])
    (simp_all add: sim_ept_def sim_rpdev_def RPMSG_ADDR_ANY_def)

end
