(* ===== verification/EptLife.thy ===== *)
theory EptLife
  imports Endpoints
begin

text \<open>
  The life of endpoints under concurrency. Receivers run the three regions of
  \<open>rpmsg_recv_single\<close> that touch an endpoint (find and take a reference, call back under
  \<open>cb_lock\<close>, drop the reference) while the owners of endpoints create and destroy them in
  the three regions of \<open>__rpmsg_destroy_ept\<close>. Each region is one step of any thread at any
  time. What is proved: no step touches a freed endpoint, the reference count is the number
  of its users, and no callback starts once it has been cleared.
\<close>

section \<open>The system\<close>

datatype rx_pc = Rx_idle | Rx_found addr | Rx_called addr

datatype owner_pc = Owned | Unbound | Cleared | Gone

record ('q, 'i) life_system =
  lf_bus :: "('q, 'i) rpmsg_bus"
  rx_of :: "nat \<Rightarrow> rx_pc"
  owner_of :: "addr \<Rightarrow> owner_pc"
  calls :: "(addr \<times> rx_cb) list"

fun uses :: "addr \<Rightarrow> rx_pc \<Rightarrow> bool" where
  "uses p Rx_idle = False"
| "uses p (Rx_found q) = (p = q)"
| "uses p (Rx_called q) = (p = q)"

text \<open>The callback a receiver finds under \<open>cb_lock\<close>.\<close>

definition ept_callback :: "addr \<Rightarrow> ('q, 'i, 'y) rpmsg_bus_scheme \<Rightarrow> rx_cb option outcome" where
  "ept_callback p s = bind_outcome (deref (epts s) p) (\<lambda>e. Returns (ep_cb e))"

inductive life_step ::
  "('q, 'i) kernel \<Rightarrow> ('q, 'i) life_system \<Rightarrow> ('q, 'i) life_system \<Rightarrow> bool"
  for K :: "('q, 'i) kernel" where
  find: "rx_of s t = Rx_idle \<Longrightarrow> ept_find_get K a (lf_bus s) = Returns (Some p, b) \<Longrightarrow>
    life_step K s (s\<lparr>lf_bus := b, rx_of := (rx_of s)(t := Rx_found p)\<rparr>)"
| call: "rx_of s t = Rx_found p \<Longrightarrow> ept_callback p (lf_bus s) = Returns c \<Longrightarrow>
    life_step K s (s\<lparr>rx_of := (rx_of s)(t := Rx_called p),
      calls := (case c of None \<Rightarrow> calls s | Some cb \<Rightarrow> (p, cb) # calls s)\<rparr>)"
| put: "rx_of s t = Rx_called p \<Longrightarrow> ept_kref_put p (lf_bus s) = Returns b \<Longrightarrow>
    life_step K s (s\<lparr>lf_bus := b, rx_of := (rx_of s)(t := Rx_idle)\<rparr>)"
| unbind: "owner_of s p = Owned \<Longrightarrow> ept_unbind K p (lf_bus s) = Returns b \<Longrightarrow>
    life_step K s (s\<lparr>lf_bus := b, owner_of := (owner_of s)(p := Unbound)\<rparr>)"
| clear: "owner_of s p = Unbound \<Longrightarrow> ept_clear_cb p (lf_bus s) = Returns b \<Longrightarrow>
    life_step K s (s\<lparr>lf_bus := b, owner_of := (owner_of s)(p := Cleared)\<rparr>)"
| drop: "owner_of s p = Cleared \<Longrightarrow> ept_kref_put p (lf_bus s) = Returns b \<Longrightarrow>
    life_step K s (s\<lparr>lf_bus := b, owner_of := (owner_of s)(p := Gone)\<rparr>)"
| create: "epts (lf_bus s) p = None \<Longrightarrow>
    do_rpmsg_create_ept K (Some p) d cb pr a (lf_bus s) = Returns (r, b) \<Longrightarrow>
    life_step K s (s\<lparr>lf_bus := b, owner_of := (owner_of s)(p := if r = None then Gone else Owned)\<rparr>)"

definition life_init :: "('q, 'i) kernel \<Rightarrow> ('q, 'i) life_system \<Rightarrow> bool" where
  "life_init K s \<longleftrightarrow>
     idr_laws K \<and> bound_at K (lf_bus s) = (\<lambda>_. None) \<and> epts (lf_bus s) = (\<lambda>_. None) \<and>
     (\<forall>t. rx_of s t = Rx_idle) \<and> (\<forall>p. owner_of s p = Gone) \<and> calls s = []"

text \<open>A thread whose next region would dereference freed memory.\<close>

definition life_faults :: "('q, 'i) kernel \<Rightarrow> ('q, 'i) life_system \<Rightarrow> bool" where
  "life_faults K s \<longleftrightarrow>
     (\<exists>a. ept_find_get K a (lf_bus s) = Faults) \<or>
     (\<exists>t p. rx_of s t = Rx_found p \<and> ept_callback p (lf_bus s) = Faults) \<or>
     (\<exists>t p. rx_of s t = Rx_called p \<and> ept_kref_put p (lf_bus s) = Faults) \<or>
     (\<exists>p. owner_of s p = Owned \<and> ept_unbind K p (lf_bus s) = Faults) \<or>
     (\<exists>p. owner_of s p = Unbound \<and> ept_clear_cb p (lf_bus s) = Faults) \<or>
     (\<exists>p. owner_of s p = Cleared \<and> ept_kref_put p (lf_bus s) = Faults)"

section \<open>The invariant\<close>

text \<open>
  Over the parts of the state: the address table, the heap, the receivers and the owners.
\<close>

definition table_ok :: "(u32 \<rightharpoonup> addr) \<Rightarrow> (addr \<rightharpoonup> rpmsg_endpoint) \<Rightarrow> (addr \<Rightarrow> owner_pc) \<Rightarrow> bool" where
  "table_ok bnd h own \<longleftrightarrow>
     (\<forall>a p. bnd a = Some p \<longrightarrow> own p = Owned \<and> (\<exists>e. h p = Some e \<and> ep_addr e = a)) \<and>
     (\<forall>p. own p \<noteq> Gone \<longrightarrow> h p \<noteq> None) \<and>
     (\<forall>p e. h p = Some e \<longrightarrow> own p = Cleared \<or> own p = Gone \<longrightarrow> ep_cb e = None)"

definition count_ok :: "(addr \<rightharpoonup> rpmsg_endpoint) \<Rightarrow> (nat \<Rightarrow> rx_pc) \<Rightarrow> (addr \<Rightarrow> owner_pc) \<Rightarrow> bool" where
  "count_ok h rx own \<longleftrightarrow>
     (\<forall>p. finite {t. uses p (rx t)} \<and>
       (case h p of None \<Rightarrow> own p = Gone \<and> (\<forall>t. \<not> uses p (rx t))
        | Some e \<Rightarrow> 0 < ep_refcount e \<and>
            ep_refcount e = card {t. uses p (rx t)} + (if own p = Gone then 0 else 1)))"

definition life_inv :: "('q, 'i) kernel \<Rightarrow> ('q, 'i) life_system \<Rightarrow> bool" where
  "life_inv K s \<longleftrightarrow> idr_laws K \<and>
     table_ok (bound_at K (lf_bus s)) (epts (lf_bus s)) (owner_of s) \<and>
     count_ok (epts (lf_bus s)) (rx_of s) (owner_of s)"

lemma count_okD:
  assumes "count_ok h rx own"
  shows "finite {t. uses p (rx t)}"
    and "h p = None \<Longrightarrow> own p = Gone" and "h p = None \<Longrightarrow> \<not> uses p (rx t)"
    and "h p = Some e \<Longrightarrow> 0 < ep_refcount e"
    and "h p = Some e \<Longrightarrow> ep_refcount e = card {t. uses p (rx t)} + (if own p = Gone then 0 else 1)"
proof -
  have "finite {t. uses p (rx t)} \<and>
    (case h p of None \<Rightarrow> own p = Gone \<and> (\<forall>t. \<not> uses p (rx t))
     | Some e \<Rightarrow> 0 < ep_refcount e \<and>
         ep_refcount e = card {t. uses p (rx t)} + (if own p = Gone then 0 else 1))"
    using assms unfolding count_ok_def by (rule spec)
  then show "finite {t. uses p (rx t)}"
    and "h p = None \<Longrightarrow> own p = Gone" and "h p = None \<Longrightarrow> \<not> uses p (rx t)"
    and "h p = Some e \<Longrightarrow> 0 < ep_refcount e"
    and "h p = Some e \<Longrightarrow> ep_refcount e = card {t. uses p (rx t)} + (if own p = Gone then 0 else 1)"
    by auto
qed

lemma table_okD:
  assumes "table_ok bnd h own"
  shows "bnd a = Some p \<Longrightarrow> own p = Owned" and "bnd a = Some p \<Longrightarrow> \<exists>e. h p = Some e \<and> ep_addr e = a"
    and "own p \<noteq> Gone \<Longrightarrow> h p \<noteq> None"
    and "h p = Some e \<Longrightarrow> own p = Cleared \<or> own p = Gone \<Longrightarrow> ep_cb e = None"
  using assms unfolding table_ok_def by blast+

lemma table_okI:
  assumes "\<And>a p. bnd a = Some p \<Longrightarrow> own p = Owned \<and> (\<exists>e. h p = Some e \<and> ep_addr e = a)"
    and "\<And>p. own p \<noteq> Gone \<Longrightarrow> h p \<noteq> None"
    and "\<And>p e. h p = Some e \<Longrightarrow> own p = Cleared \<or> own p = Gone \<Longrightarrow> ep_cb e = None"
  shows "table_ok bnd h own"
  using assms unfolding table_ok_def by blast

lemma life_init_inv: "life_init K s \<Longrightarrow> life_inv K s"
  by (simp add: life_init_def life_inv_def table_ok_def count_ok_def)

subsection \<open>What a change of one endpoint needs\<close>

lemma uses_upd_other:
  "\<not> uses q x \<Longrightarrow> \<not> uses q (rx t) \<Longrightarrow> {u. uses q ((rx(t := x)) u)} = {u. uses q (rx u)}"
  by (rule card_upd_same) simp

lemma count_ok_take:
  assumes "count_ok h rx own" and "h p = Some e" and "rx t = Rx_idle"
  shows "count_ok (h(p \<mapsto> e\<lparr>ep_refcount := ep_refcount e + 1\<rparr>)) (rx(t := Rx_found p)) own"
  unfolding count_ok_def
proof (intro allI conjI)
  fix q
  show "finite {u. uses q ((rx(t := Rx_found p)) u)}"
    by (rule finite_upd) (rule count_okD(1) [OF assms(1)])
  have ne: "card {u. uses q ((rx(t := Rx_found p)) u)} = card {u. uses q (rx u)}" if "q \<noteq> p"
    using that assms(3) by (simp only: uses_upd_other uses.simps not_False_eq_True)
  have eq: "card {u. uses p ((rx(t := Rx_found p)) u)} = Suc (card {u. uses p (rx u)})"
    by (rule card_upd_in [of "uses p" rx "Rx_found p" t]) (use assms count_okD(1) in auto)
  show "case (h(p \<mapsto> e\<lparr>ep_refcount := ep_refcount e + 1\<rparr>)) q of
      None \<Rightarrow> own q = Gone \<and> (\<forall>u. \<not> uses q ((rx(t := Rx_found p)) u))
    | Some e \<Rightarrow> 0 < ep_refcount e \<and>
        ep_refcount e = card {u. uses q ((rx(t := Rx_found p)) u)} + (if own q = Gone then 0 else 1)"
  proof (cases "q = p")
    case True
    with eq assms(2) count_okD(5) [OF assms(1,2)] show ?thesis by simp
  next
    case False
    with ne count_okD [OF assms(1), of q] show ?thesis by (auto split: option.splits)
  qed
qed

lemma count_ok_move:
  assumes "count_ok h rx own" and "rx t = Rx_found p"
  shows "count_ok h (rx(t := Rx_called p)) own"
proof -
  have "uses q ((rx(t := Rx_called p)) u) = uses q (rx u)" for q u
    using assms(2) by simp
  then show ?thesis using assms(1) by (simp only: count_ok_def simp_thms)
qed

text \<open>A reference given back, by a receiver or by the owner: the heap after \<open>kref_put\<close>.\<close>

definition put_heap :: "(addr \<rightharpoonup> rpmsg_endpoint) \<Rightarrow> addr \<Rightarrow> rpmsg_endpoint \<Rightarrow> (addr \<rightharpoonup> rpmsg_endpoint)" where
  "put_heap h p e = (if ep_refcount e - 1 = 0 then h(p := None)
                     else h(p \<mapsto> e\<lparr>ep_refcount := ep_refcount e - 1\<rparr>))"

lemma ept_kref_put_heap:
  assumes "ept_kref_put p b = Returns b'"
  obtains e where "epts b p = Some e" and "epts b' = put_heap (epts b) p e" and "bound_at K b' = bound_at K b"
proof -
  from assms obtain e where e: "epts b p = Some e"
    by (auto simp: ept_kref_put_def)
  with assms have "epts b' = put_heap (epts b) p e \<and> bound_at K b' = bound_at K b"
    by (auto simp: ept_kref_put_def put_heap_def ept_release_def)
  with e that show thesis by blast
qed

lemma put_heap_other [simp]: "q \<noteq> p \<Longrightarrow> put_heap h p e q = h q"
  by (simp add: put_heap_def)

lemma put_heap_SomeD: "put_heap h p e p = Some e' \<Longrightarrow> e' = e\<lparr>ep_refcount := ep_refcount e - 1\<rparr> \<and> 1 < ep_refcount e"
  by (auto simp: put_heap_def split: if_splits)

lemma count_ok_put_rx:
  assumes ok: "count_ok h rx own" and e: "h p = Some e" and rx: "rx t = Rx_called p"
  shows "count_ok (put_heap h p e) (rx(t := Rx_idle)) own"
proof -
  define rx' where "rx' = rx(t := Rx_idle)"
  have fin: "finite {u. uses q (rx' u)}" for q
    unfolding rx'_def by (rule finite_upd) (rule count_okD(1) [OF ok])
  have other: "{u. uses q (rx' u)} = {u. uses q (rx u)}" if "q \<noteq> p" for q
    using that rx unfolding rx'_def by (simp only: uses_upd_other uses.simps not_False_eq_True)
  have "Suc (card {u. uses p (rx' u)}) = card {u. uses p (rx u)}"
    unfolding rx'_def
    by (rule card_upd_out [of "uses p" rx Rx_idle t]) (use rx count_okD(1) [OF ok] in auto)
  with count_okD(5) [OF ok e]
  have rc: "ep_refcount e - 1 = card {u. uses p (rx' u)} + (if own p = Gone then 0 else 1)"
    by simp
  have same: "case put_heap h p e p of None \<Rightarrow> own p = Gone \<and> (\<forall>u. \<not> uses p (rx' u))
    | Some e \<Rightarrow> 0 < ep_refcount e \<and> ep_refcount e = card {u. uses p (rx' u)} + (if own p = Gone then 0 else 1)"
  proof (cases "ep_refcount e - 1 = 0")
    case False
    with rc show ?thesis by (auto simp: put_heap_def)
  next
    case True
    with rc have "card {u. uses p (rx' u)} = 0" and "own p = Gone"
      by (simp_all split: if_splits)
    moreover from this fin [of p] have "{u. uses p (rx' u)} = {}" by simp
    ultimately show ?thesis using True by (simp add: put_heap_def)
  qed
  have "count_ok (put_heap h p e) rx' own"
    unfolding count_ok_def
  proof (intro allI conjI)
    fix q
    show "finite {u. uses q (rx' u)}" by (rule fin)
    show "case put_heap h p e q of None \<Rightarrow> own q = Gone \<and> (\<forall>u. \<not> uses q (rx' u))
      | Some e \<Rightarrow> 0 < ep_refcount e \<and> ep_refcount e = card {u. uses q (rx' u)} + (if own q = Gone then 0 else 1)"
      using same count_okD [OF ok, of q] other [of q] by (cases "q = p") (auto split: option.splits)
  qed
  then show ?thesis by (simp only: rx'_def)
qed

lemma count_ok_put_owner:
  assumes ok: "count_ok h rx own" and e: "h p = Some e" and own: "own p \<noteq> Gone"
  shows "count_ok (put_heap h p e) rx (own(p := Gone))"
  unfolding count_ok_def
proof (intro allI conjI)
  fix q
  show fin: "finite {u. uses q (rx u)}" by (rule count_okD(1) [OF ok])
  show "case put_heap h p e q of
      None \<Rightarrow> (own(p := Gone)) q = Gone \<and> (\<forall>u. \<not> uses q (rx u))
    | Some e \<Rightarrow> 0 < ep_refcount e \<and>
        ep_refcount e = card {u. uses q (rx u)} + (if (own(p := Gone)) q = Gone then 0 else 1)"
  proof (cases "q = p")
    case True
    have rc: "ep_refcount e - 1 = card {u. uses p (rx u)}"
      using count_okD(5) [OF ok e] own by simp
    show ?thesis
    proof (cases "ep_refcount e - 1 = 0")
      case False
      with True rc show ?thesis by (simp add: put_heap_def)
    next
      case zero: True
      with rc fin True have "{u. uses p (rx u)} = {}" by simp
      with zero True show ?thesis by (simp add: put_heap_def)
    qed
  next
    case False
    with count_okD [OF ok, of q] show ?thesis by (auto split: option.splits)
  qed
qed

subsection \<open>Every step keeps the invariant\<close>

lemma ept_find_get_heap:
  assumes "ept_find_get K a b = Returns (Some p, b')"
  obtains e where "epts b p = Some e" and "bound_at K b a = Some p" and "bound_at K b' = bound_at K b"
    and "epts b' = (epts b)(p \<mapsto> e\<lparr>ep_refcount := ep_refcount e + 1\<rparr>)"
  using assms
  by (auto simp: ept_find_get_def ept_kref_get_def bound_at_def split: option.splits)

lemma table_ok_edit:
  assumes "table_ok bnd h own" and "h p = Some e" and "ep_addr e' = ep_addr e"
    and "own p = Cleared \<or> own p = Gone \<Longrightarrow> ep_cb e' = None"
  shows "table_ok bnd (h(p \<mapsto> e')) own"
  by (rule table_okI)
    (use table_okD [OF assms(1)] assms(2-) in \<open>fastforce split: if_splits\<close>)+

lemma table_ok_put:
  assumes "table_ok bnd h own" and "h p = Some e" and "1 < ep_refcount e \<or> own p = Gone"
  shows "table_ok bnd (put_heap h p e) own"
  unfolding put_heap_def
  by (rule table_okI)
    (use table_okD [OF assms(1)] assms(2-) in \<open>fastforce split: if_splits\<close>)+

lemma table_ok_unbind:
  assumes "table_ok bnd h own" and "h p = Some e" and "own p = Owned"
  shows "table_ok (bnd(ep_addr e := None)) h (own(p := Unbound))"
  by (rule table_okI)
    (use table_okD [OF assms(1)] assms(2-) in \<open>fastforce split: if_splits\<close>)+

lemma table_ok_clear:
  assumes "table_ok bnd h own" and "h p = Some e" and "own p = Unbound"
  shows "table_ok bnd (h(p \<mapsto> e\<lparr>ep_cb := None\<rparr>)) (own(p := Cleared))"
  by (rule table_okI)
    (use table_okD [OF assms(1)] assms(2-) in \<open>fastforce split: if_splits\<close>)+

lemma table_ok_gone:
  assumes "table_ok bnd h own" and "own p = Cleared"
  shows "table_ok bnd h (own(p := Gone))"
  by (rule table_okI)
    (use table_okD [OF assms(1)] assms(2-) in \<open>fastforce split: if_splits\<close>)+

lemma table_ok_create:
  assumes "table_ok bnd h own" and "h p = None" and "ep_addr e = a"
  shows "table_ok (bnd(a \<mapsto> p)) (h(p \<mapsto> e)) (own(p := Owned))"
  by (rule table_okI)
    (use table_okD [OF assms(1)] assms(2-) in \<open>fastforce split: if_splits\<close>)+

lemma table_ok_same_owner:
  "own p = x \<Longrightarrow> table_ok bnd h (own(p := x)) = table_ok bnd h own"
  by (simp add: fun_upd_idem)

lemma count_ok_edit:
  assumes "count_ok h rx own" and "h p = Some e" and "ep_refcount e' = ep_refcount e"
    and "(x = Gone) = (own p = Gone)"
  shows "count_ok (h(p \<mapsto> e')) rx (own(p := x))"
  unfolding count_ok_def
proof (intro allI conjI)
  fix q
  show "finite {u. uses q (rx u)}" by (rule count_okD(1) [OF assms(1)])
  show "case (h(p \<mapsto> e')) q of None \<Rightarrow> (own(p := x)) q = Gone \<and> (\<forall>u. \<not> uses q (rx u))
    | Some e \<Rightarrow> 0 < ep_refcount e \<and>
        ep_refcount e = card {u. uses q (rx u)} + (if (own(p := x)) q = Gone then 0 else 1)"
    using assms(2-) count_okD [OF assms(1), of q]
    by (cases "q = p") (auto split: option.splits)
qed

lemma count_ok_create:
  assumes "count_ok h rx own" and "h p = None" and "ep_refcount e = 1"
  shows "count_ok (h(p \<mapsto> e)) rx (own(p := Owned))"
  unfolding count_ok_def
proof (intro allI conjI)
  fix q
  show "finite {u. uses q (rx u)}" by (rule count_okD(1) [OF assms(1)])
  have "{u. uses p (rx u)} = {}" using count_okD(3) [OF assms(1,2)] by simp
  then show "case (h(p \<mapsto> e)) q of None \<Rightarrow> (own(p := Owned)) q = Gone \<and> (\<forall>u. \<not> uses q (rx u))
    | Some e \<Rightarrow> 0 < ep_refcount e \<and>
        ep_refcount e = card {u. uses q (rx u)} + (if (own(p := Owned)) q = Gone then 0 else 1)"
    using assms(3) count_okD [OF assms(1), of q]
    by (cases "q = p") (auto split: option.splits)
qed

lemma life_create_step:
  assumes inv: "idr_laws K" "table_ok (bound_at K b) (epts b) own" "count_ok (epts b) rx own"
    and free: "epts b p = None" and mk: "do_rpmsg_create_ept K (Some p) d cb pr a b = Returns (r, b')"
  shows "table_ok (bound_at K b') (epts b') (own(p := if r = None then Gone else Owned)) \<and>
    count_ok (epts b') rx (own(p := if r = None then Gone else Owned))"
proof (cases r)
  case None
  have "bound_at K b' = bound_at K b" and "epts b' = epts b"
    using do_create_None(1,2) [OF inv(1) mk [unfolded None]] free by simp_all
  moreover have "own(p := Gone) = own" using count_okD(2) [OF inv(3) free] by (simp add: fun_upd_idem)
  ultimately show ?thesis using None inv by simp
next
  case (Some q)
  from do_create_Some [OF inv(1) mk [unfolded Some]] obtain x where q: "Some p = Some q"
    and tab: "bound_at K b' = (bound_at K b)(x \<mapsto> q)"
    and heap: "epts b' = (epts b)(q \<mapsto> \<lparr>ep_rpdev = d, ep_cb = Some cb, ep_priv = pr, ep_addr = x, ep_refcount = 1\<rparr>)"
    by blast
  show ?thesis
    unfolding tab heap using q free Some
    by (intro conjI) (simp_all add: table_ok_create [OF inv(2)] count_ok_create [OF inv(3)])
qed

lemma life_step_inv:
  assumes "life_inv K s" and "life_step K s s'"
  shows "life_inv K s'"
  using assms(2,1)
proof (cases rule: life_step.cases)
  case (find t a p b)
  from find(3) obtain e where e: "epts (lf_bus s) p = Some e" "bound_at K b = bound_at K (lf_bus s)"
    "epts b = (epts (lf_bus s))(p \<mapsto> e\<lparr>ep_refcount := ep_refcount e + 1\<rparr>)"
    by (rule ept_find_get_heap)
  have ok: "count_ok (epts (lf_bus s)) (rx_of s) (owner_of s)"
    "table_ok (bound_at K (lf_bus s)) (epts (lf_bus s)) (owner_of s)"
    using assms(1) by (simp_all add: life_inv_def)
  have "table_ok (bound_at K b) (epts b) (owner_of s)"
    unfolding e(2,3) by (rule table_ok_edit [OF ok(2) e(1)]) (use table_okD(4) [OF ok(2) e(1)] in simp_all)
  moreover have "count_ok (epts b) ((rx_of s)(t := Rx_found p)) (owner_of s)"
    unfolding e(3) by (rule count_ok_take) (use ok e find in simp_all)
  ultimately show ?thesis
    using assms(1) find(1) by (simp add: life_inv_def)
next
  case (call t p c)
  with assms(1) show ?thesis by (simp add: life_inv_def count_ok_move)
next
  case (put t p b)
  from put(3) obtain e where e: "epts (lf_bus s) p = Some e"
    "epts b = put_heap (epts (lf_bus s)) p e" "bound_at K b = bound_at K (lf_bus s)"
    by (rule ept_kref_put_heap)
  have ok: "count_ok (epts (lf_bus s)) (rx_of s) (owner_of s)"
    "table_ok (bound_at K (lf_bus s)) (epts (lf_bus s)) (owner_of s)"
    using assms(1) by (simp_all add: life_inv_def)
  have "0 < card {u. uses p (rx_of s u)}"
    using put(2) count_okD(1) [OF ok(1), of p] by (auto simp: card_gt_0_iff intro: exI [of _ t])
  then have "1 < ep_refcount e \<or> owner_of s p = Gone"
    using count_okD(5) [OF ok(1) e(1)] by simp
  with ok e put(1,2) assms(1) show ?thesis
    by (simp add: life_inv_def count_ok_put_rx table_ok_put)
next
  case (unbind p b)
  from unbind(3) obtain e where e: "epts (lf_bus s) p = Some e" and "epts b = epts (lf_bus s)"
    and "endpoints (vrp b) = idr_remove K (endpoints (vrp (lf_bus s))) (ep_addr e)"
    by (auto simp: ept_unbind_def)
  moreover from this have "bound_at K b = (bound_at K (lf_bus s))(ep_addr e := None)"
    using idr_find_remove assms(1) by (auto simp: bound_at_def life_inv_def)
  moreover have "count_ok (epts (lf_bus s)) (rx_of s) ((owner_of s)(p := Unbound))"
    using count_ok_edit [of "epts (lf_bus s)" "rx_of s" "owner_of s" p e e Unbound] e unbind(2) assms(1)
    by (simp add: life_inv_def fun_upd_idem)
  ultimately show ?thesis
    using assms(1) unbind(1,2) table_ok_unbind by (simp add: life_inv_def)
next
  case (clear p b)
  from clear(3) obtain e where e: "epts (lf_bus s) p = Some e"
    and "epts b = (epts (lf_bus s))(p \<mapsto> e\<lparr>ep_cb := None\<rparr>)" and "bound_at K b = bound_at K (lf_bus s)"
    by (auto simp: ept_clear_cb_def)
  then show ?thesis
    using assms(1) clear(1,2) by (simp add: life_inv_def table_ok_clear count_ok_edit)
next
  case (drop p b)
  from drop(3) obtain e where e: "epts (lf_bus s) p = Some e"
    "epts b = put_heap (epts (lf_bus s)) p e" "bound_at K b = bound_at K (lf_bus s)"
    by (rule ept_kref_put_heap)
  then show ?thesis
    using assms(1) drop(1,2) by (simp add: life_inv_def table_ok_gone table_ok_put count_ok_put_owner)
next
  case (create p d cb pr a r b)
  with assms(1) life_create_step [of K "lf_bus s" "owner_of s" "rx_of s" p d cb pr a r b]
  show ?thesis by (auto simp: life_inv_def)
qed

interpretation life: inductive_invariant "life_init K" "life_step K" "life_inv K" for K :: "('q, 'i) kernel"
  by unfold_locales (auto intro: life_init_inv life_step_inv)

lemma life_inv_parts:
  assumes "life_inv K s"
  shows "table_ok (bound_at K (lf_bus s)) (epts (lf_bus s)) (owner_of s)"
    and "count_ok (epts (lf_bus s)) (rx_of s) (owner_of s)" and "idr_laws K"
  using assms by (simp_all add: life_inv_def)

lemma live_no_fault:
  assumes "epts b p \<noteq> None"
  shows "ept_callback p b \<noteq> Faults" and "ept_kref_put p b \<noteq> Faults"
    and "ept_unbind K p b \<noteq> Faults" and "ept_clear_cb p b \<noteq> Faults"
  using assms by (auto simp: ept_callback_def ept_kref_put_def ept_unbind_def ept_clear_cb_def split: if_splits)

lemma life_no_fault:
  assumes "life_inv K s"
  shows "\<not> life_faults K s"
proof -
  note tab = table_okD [OF life_inv_parts(1) [OF assms]] and cnt = count_okD [OF life_inv_parts(2) [OF assms]]
  have used: "epts (lf_bus s) p \<noteq> None" if "rx_of s t = Rx_found p \<or> rx_of s t = Rx_called p" for t p
    using that cnt(3) [of p t] by (cases "epts (lf_bus s) p") auto
  have owned: "epts (lf_bus s) p \<noteq> None" if "owner_of s p \<noteq> Gone" for p
    using that cnt(2) [of p] by blast
  have find: "ept_find_get K a (lf_bus s) \<noteq> Faults" for a
    using tab(2) [of a] by (auto simp: ept_find_get_def ept_kref_get_def bound_at_def split: option.splits)
  have rx: "ept_callback p (lf_bus s) \<noteq> Faults" if "rx_of s t = Rx_found p" for t p
    by (rule live_no_fault, rule used [of t], simp add: that)
  have rx': "ept_kref_put p (lf_bus s) \<noteq> Faults" if "rx_of s t = Rx_called p" for t p
    by (rule live_no_fault, rule used [of t], simp add: that)
  have own: "ept_unbind K p (lf_bus s) \<noteq> Faults" "ept_clear_cb p (lf_bus s) \<noteq> Faults"
    "ept_kref_put p (lf_bus s) \<noteq> Faults" if "owner_of s p \<noteq> Gone" for p
    by (rule live_no_fault, rule owned [OF that])+
  show ?thesis
    unfolding life_faults_def
    by (intro notI, elim disjE exE conjE) (simp_all add: find rx rx' own)
qed

section \<open>A run of the system\<close>

text \<open>
  An endpoint is created at address 53, receiver 0 finds it, and the owner unbinds it and
  clears its callback before the receiver gets to call it.
\<close>

definition sim_life ::
  "(u32 \<times> addr) list \<Rightarrow> (addr \<rightharpoonup> rpmsg_endpoint) \<Rightarrow> (nat \<Rightarrow> rx_pc) \<Rightarrow> (addr \<Rightarrow> owner_pc) \<Rightarrow>
   (sim_vq, (u32 \<times> addr) list) life_system" where
  "sim_life i h rx own =
     \<lparr>lf_bus = sim_bus\<lparr>vrp := sim_vrp\<lparr>endpoints := i\<rparr>, epts := h\<rparr>, rx_of = rx, owner_of = own, calls = []\<rparr>"

definition sim_new_ept :: rpmsg_endpoint where
  "sim_new_ept = \<lparr>ep_rpdev = Some 1, ep_cb = Some Rpmsg_ept_cb, ep_priv = Priv_null, ep_addr = 53, ep_refcount = 1\<rparr>"

lemma sim_life_init: "life_init sim_kernel (sim_life [] (\<lambda>_. None) (\<lambda>_. Rx_idle) (\<lambda>_. Gone))"
  using sim_idr_laws by (simp add: life_init_def sim_life_def bound_at_def sim_kernel_def fun_eq_iff)

lemma sim_life_create:
  "life_step sim_kernel (sim_life [] (\<lambda>_. None) (\<lambda>_. Rx_idle) (\<lambda>_. Gone))
     (sim_life [(53, 3)] [3 \<mapsto> sim_new_ept] (\<lambda>_. Rx_idle) ((\<lambda>_. Gone)(3 := Owned)))"
proof -
  have "do_rpmsg_create_ept sim_kernel (Some 3) (Some 1) Rpmsg_ept_cb Priv_null 53
      (lf_bus (sim_life [] (\<lambda>_. None) (\<lambda>_. Rx_idle) (\<lambda>_. Gone))) =
    Returns (Some 3, sim_bus\<lparr>vrp := sim_vrp\<lparr>endpoints := [(53, 3)]\<rparr>, epts := [3 \<mapsto> sim_new_ept]\<rparr>)"
    by (simp add: do_rpmsg_create_ept_def id_range_def rpmsg_consts int_of_u32_def sim_kernel_def
        sim_idr_alloc_def sim_life_def sim_new_ept_def upto_rec1 Let_def)
  from life_step.create [OF _ this] show ?thesis by (simp add: sim_life_def)
qed

lemma sim_life_find:
  "life_step sim_kernel (sim_life [(53, 3)] [3 \<mapsto> sim_new_ept] (\<lambda>_. Rx_idle) own)
     (sim_life [(53, 3)] [3 \<mapsto> sim_new_ept\<lparr>ep_refcount := 2\<rparr>] ((\<lambda>_. Rx_idle)(0 := Rx_found 3)) own)"
proof -
  have "ept_find_get sim_kernel 53 (lf_bus (sim_life [(53, 3)] [3 \<mapsto> sim_new_ept] (\<lambda>_. Rx_idle) own)) =
    Returns (Some 3, sim_bus\<lparr>vrp := sim_vrp\<lparr>endpoints := [(53, 3)]\<rparr>, epts := [3 \<mapsto> sim_new_ept\<lparr>ep_refcount := 2\<rparr>]\<rparr>)"
    by (simp add: ept_find_get_def ept_kref_get_def sim_kernel_def sim_life_def sim_new_ept_def numeral_2_eq_2)
  from life_step.find [of _ 0, OF _ this] show ?thesis by (simp add: sim_life_def)
qed

lemma sim_life_unbind:
  "life_step sim_kernel
     (sim_life [(53, 3)] [3 \<mapsto> sim_new_ept\<lparr>ep_refcount := 2\<rparr>] rx ((\<lambda>_. Gone)(3 := Owned)))
     (sim_life [] [3 \<mapsto> sim_new_ept\<lparr>ep_refcount := 2\<rparr>] rx ((\<lambda>_. Gone)(3 := Unbound)))"
proof -
  have "ept_unbind sim_kernel 3
      (lf_bus (sim_life [(53, 3)] [3 \<mapsto> sim_new_ept\<lparr>ep_refcount := 2\<rparr>] rx ((\<lambda>_. Gone)(3 := Owned)))) =
    Returns (sim_bus\<lparr>vrp := sim_vrp\<lparr>endpoints := []\<rparr>, epts := [3 \<mapsto> sim_new_ept\<lparr>ep_refcount := 2\<rparr>]\<rparr>)"
    by (simp add: ept_unbind_def sim_kernel_def sim_life_def sim_new_ept_def)
  from life_step.unbind [OF _ this] show ?thesis by (simp add: sim_life_def)
qed

lemma sim_life_clear:
  "life_step sim_kernel
     (sim_life [] [3 \<mapsto> sim_new_ept\<lparr>ep_refcount := 2\<rparr>] rx ((\<lambda>_. Gone)(3 := Unbound)))
     (sim_life [] [3 \<mapsto> sim_new_ept\<lparr>ep_refcount := 2, ep_cb := None\<rparr>] rx ((\<lambda>_. Gone)(3 := Cleared)))"
proof -
  have "ept_clear_cb 3 (lf_bus (sim_life [] [3 \<mapsto> sim_new_ept\<lparr>ep_refcount := 2\<rparr>] rx ((\<lambda>_. Gone)(3 := Unbound)))) =
    Returns (sim_bus\<lparr>vrp := sim_vrp\<lparr>endpoints := []\<rparr>, epts := [3 \<mapsto> sim_new_ept\<lparr>ep_refcount := 2, ep_cb := None\<rparr>]\<rparr>)"
    by (simp add: ept_clear_cb_def sim_life_def)
  from life_step.clear [OF _ this] show ?thesis by (simp add: sim_life_def)
qed

definition sim_cleared :: "(sim_vq, (u32 \<times> addr) list) life_system" where
  "sim_cleared = sim_life [] [3 \<mapsto> sim_new_ept\<lparr>ep_refcount := 2, ep_cb := None\<rparr>]
     ((\<lambda>_. Rx_idle)(0 := Rx_found 3)) ((\<lambda>_. Gone)(3 := Cleared))"

lemma sim_cleared_reachable: "reachable (life_init sim_kernel) (life_step sim_kernel) sim_cleared"
  unfolding sim_cleared_def
  by (rule reachable.next_state, rule reachable.next_state, rule reachable.next_state,
      rule reachable.next_state, rule reachable.start)
    (rule sim_life_init sim_life_create sim_life_find sim_life_unbind sim_life_clear)+

lemma sim_call_after_clear:
  "life_step sim_kernel sim_cleared (sim_cleared\<lparr>rx_of := (rx_of sim_cleared)(0 := Rx_called 3)\<rparr>)"
proof -
  have "ept_callback 3 (lf_bus sim_cleared) = Returns None"
    by (simp add: ept_callback_def sim_cleared_def sim_life_def)
  from life_step.call [of _ 0, OF _ this, of sim_kernel] show ?thesis by (simp add: sim_cleared_def sim_life_def)
qed

section \<open>The properties of the life cycle\<close>

text \<open>
  C7. Whatever receivers and owners do, no locked region ever dereferences a freed
  endpoint, and every endpoint the address table leads to is one that is still allocated.
\<close>

theorem ept_no_use_after_free:
  assumes "reachable (life_init K) (life_step K) s"
  shows "\<not> life_faults K s \<and> (\<forall>a p. bound_at K (lf_bus s) a = Some p \<longrightarrow> epts (lf_bus s) p \<noteq> None)"
proof -
  from life.reachable_inv [OF assms] have inv: "life_inv K s" .
  then show ?thesis
    using life_no_fault [OF inv] table_okD(2) [OF life_inv_parts(1) [OF inv]] by fastforce
qed

theorem ept_no_use_after_free_witness:
  "\<not> life_faults sim_kernel sim_cleared \<and> rx_of sim_cleared 0 = Rx_found 3"
  using ept_no_use_after_free [OF sim_cleared_reachable] by (simp add: sim_cleared_def sim_life_def)

text \<open>
  C22. The reference count of an allocated endpoint is the number of receivers that use it
  plus one for an owner that has not dropped it; it is freed when both are gone, and not
  before.
\<close>

theorem ept_refcount_users:
  assumes "reachable (life_init K) (life_step K) s"
  shows "case epts (lf_bus s) p of
      None \<Rightarrow> owner_of s p = Gone \<and> (\<forall>t. \<not> uses p (rx_of s t))
    | Some e \<Rightarrow> 0 < ep_refcount e \<and>
        ep_refcount e = card {t. uses p (rx_of s t)} + (if owner_of s p = Gone then 0 else 1)"
  using life_inv_parts(2) [OF life.reachable_inv [OF assms]] unfolding count_ok_def by blast

theorem ept_refcount_users_witness:
  "card {t. uses 3 (rx_of sim_cleared t)} = 1 \<and> owner_of sim_cleared 3 = Cleared"
  using ept_refcount_users [OF sim_cleared_reachable, of 3]
  by (simp add: sim_cleared_def sim_life_def sim_new_ept_def)

text \<open>
  C23. Once an owner has cleared the callback of its endpoint, no receiver starts it again,
  not even one that found the endpoint before it was unbound.
\<close>

theorem no_callback_after_clear:
  assumes "reachable (life_init K) (life_step K) s" and "owner_of s p = Cleared \<or> owner_of s p = Gone"
    and "life_step K s s'"
  shows "filter (\<lambda>c. fst c = p) (calls s') = filter (\<lambda>c. fst c = p) (calls s)"
  using assms(3)
proof (cases rule: life_step.cases)
  case (call t q c)
  then obtain e where e: "epts (lf_bus s) q = Some e" "c = ep_cb e" by (auto simp: ept_callback_def)
  note inv = life.reachable_inv [OF assms(1)]
  show ?thesis
  proof (cases "q = p")
    case True
    with e have "c = None" using table_okD(4) [OF life_inv_parts(1) [OF inv] e(1)] assms(2) by simp
    with call show ?thesis by simp
  next
    case False
    with call show ?thesis by (simp split: option.splits)
  qed
qed simp_all

theorem no_callback_after_clear_witness:
  "filter (\<lambda>c. fst c = 3) (calls (sim_cleared\<lparr>rx_of := (rx_of sim_cleared)(0 := Rx_called 3)\<rparr>)) =
   filter (\<lambda>c. fst c = 3) (calls sim_cleared)"
  by (rule no_callback_after_clear [OF sim_cleared_reachable _ sim_call_after_clear])
    (simp add: sim_cleared_def sim_life_def)

end
