(* ===== verification/System.thy ===== *)
theory System
  imports VirtioProbe CharProps TxSenders EptLife
begin

text \<open>
  The parts together: the receive path with the callbacks it can really call, which are
  those of the name service, of the character device and of other drivers. The locale
  \<open>rx_callbacks\<close> is interpreted on them, so that what it says of \<open>rpmsg_recv_done\<close> holds of
  the whole stack.
\<close>

section \<open>The callbacks\<close>

text \<open>
  The call through \<open>ept->cb\<close>. \<open>alloc\<close> and \<open>skb\<close> are what the allocators answer in a state,
  \<open>drv\<close> the callbacks of other drivers. The return value of a callback is dropped.
\<close>

definition module_callbacks ::
  "('q, 'i, 'y) char_bus_scheme driver_core \<Rightarrow> (('q, 'i, 'y) char_bus_scheme \<Rightarrow> addr option) \<Rightarrow>
   (('q, 'i, 'y) char_bus_scheme \<Rightarrow> bool) \<Rightarrow>
   (nat \<Rightarrow> addr option \<Rightarrow> addr \<Rightarrow> int \<Rightarrow> priv \<Rightarrow> u32 \<Rightarrow> ('q, 'i, 'y) char_bus_scheme \<Rightarrow>
      ('q, 'i, 'y) char_bus_scheme outcome) \<Rightarrow>
   ('q, 'i, 'y) char_bus_scheme invoker" where
  "module_callbacks D alloc skb drv cb rpdev data len pr src s =
     (case cb of
        Rpmsg_ns_cb \<Rightarrow> bind_outcome (rpmsg_ns_cb D (alloc s) rpdev data len pr src s) (\<lambda>(_, s1). Returns s1)
      | Rpmsg_ept_cb \<Rightarrow> bind_outcome (rpmsg_ept_cb (skb s) rpdev data len pr src s) (\<lambda>(_, s1). Returns s1)
      | Driver_cb i \<Rightarrow> drv i rpdev data len pr src s)"

section \<open>What the callbacks need\<close>

text \<open>
  The private pointer of an endpoint fits its callback: the remote processor for the name
  service, an allocated endpoint device for the character device.
\<close>

definition cb_ok :: "rx_cb \<Rightarrow> priv \<Rightarrow> ('q, 'i, 'y) char_bus_scheme \<Rightarrow> bool" where
  "cb_ok cb pr s =
     (case cb of Rpmsg_ns_cb \<Rightarrow> pr = Priv_vrp
      | Rpmsg_ept_cb \<Rightarrow> (case pr of Priv_eptdev p \<Rightarrow> eptdevs s p \<noteq> None | _ \<Rightarrow> False)
      | Driver_cb _ \<Rightarrow> True)"

definition cbs_ok :: "('q, 'i, 'y) char_bus_scheme \<Rightarrow> bool" where
  "cbs_ok s \<longleftrightarrow> (\<forall>p e cb. epts s p = Some e \<longrightarrow> ep_cb e = Some cb \<longrightarrow> cb_ok cb (ep_priv e) s)"

lemma cb_ok_cong: "eptdevs s' = eptdevs s \<Longrightarrow> cb_ok cb pr s' = cb_ok cb pr s"
  by (simp add: cb_ok_def split: rx_cb.splits priv.splits)

lemma cbs_ok_cong: "epts s' = epts s \<Longrightarrow> eptdevs s' = eptdevs s \<Longrightarrow> cbs_ok s' = cbs_ok s"
  by (simp add: cbs_ok_def cb_ok_cong [of s' s])

lemma epts_wf_cong: "bound_at K s' = bound_at K s \<Longrightarrow> epts s' = epts s \<Longrightarrow> epts_wf K s' = epts_wf K s"
  by (simp add: epts_wf_def)

text \<open>
  What no callback and no driver run from one may do: touch the receive queue, drop the
  reference that the receive path holds, break the address table or the fit of a callback.
\<close>

definition harmless ::
  "('q, 'i, 'z) kernel_scheme \<Rightarrow> ('q, 'i, 'y) char_bus_scheme \<Rightarrow> ('q, 'i, 'y) char_bus_scheme \<Rightarrow> bool" where
  "harmless K s s' \<longleftrightarrow> rvq (vrp s') = rvq (vrp s) \<and>
     (\<forall>p e. epts s p = Some e \<longrightarrow> 2 \<le> ep_refcount e \<longrightarrow>
        (\<exists>e'. epts s' p = Some e' \<and> ep_refcount e' = ep_refcount e)) \<and>
     (epts_wf K s \<and> cbs_ok s \<longrightarrow> epts_wf K s' \<and> cbs_ok s')"

lemma harmless_refl [simp]: "harmless K s s"
  by (simp add: harmless_def)

lemma harmless_trans [trans]:
  assumes "harmless K s t" and "harmless K t u"
  shows "harmless K s u"
  unfolding harmless_def
proof (intro conjI allI impI)
  show "rvq (vrp u) = rvq (vrp s)" using assms by (simp add: harmless_def)
next
  fix p e assume "epts s p = Some e" and "2 \<le> ep_refcount e"
  with assms(1) obtain e' where "epts t p = Some e'" and "ep_refcount e' = ep_refcount e"
    unfolding harmless_def by blast
  with assms(2) \<open>2 \<le> ep_refcount e\<close> show "\<exists>e'. epts u p = Some e' \<and> ep_refcount e' = ep_refcount e"
    unfolding harmless_def by metis
qed (use assms in \<open>auto simp: harmless_def\<close>)

lemma harmless_frame:
  assumes "vrp s' = vrp s" and "epts s' = epts s" and "eptdevs s' = eptdevs s"
  shows "harmless K s s'"
  using assms epts_wf_cong [of K s' s] cbs_ok_cong [of s' s]
  by (simp add: harmless_def bound_at_def)

lemma harmless_mem: "harmless K s (s\<lparr>mem := m\<rparr>)"
  and harmless_rpdevs: "harmless K s (s\<lparr>rpdevs := h\<rparr>)"
  by (rule harmless_frame; simp)+

section \<open>What the rest of the kernel promises\<close>

definition core_harmless ::
  "('q, 'i, 'z) kernel_scheme \<Rightarrow> ('q, 'i, 'y) char_bus_scheme driver_core \<Rightarrow> bool" where
  "core_harmless K D \<longleftrightarrow>
     (\<forall>m s r s'. device_find_child D m s = (r, s') \<longrightarrow> harmless K s s') \<and>
     (\<forall>d n s x s'. device_register D d n s = Returns (x, s') \<longrightarrow> harmless K s s') \<and>
     (\<forall>d s s'. device_unregister D d s = Returns s' \<longrightarrow> harmless K s s') \<and>
     (\<forall>d s s'. put_device D d s = Returns s' \<longrightarrow> harmless K s s')"

lemma core_harmlessD:
  assumes "core_harmless K D"
  shows "device_find_child D m s = (r, s') \<Longrightarrow> harmless K s s'"
    and "device_register D d n s = Returns (x, s') \<Longrightarrow> harmless K s s'"
    and "device_unregister D d s = Returns s' \<Longrightarrow> harmless K s s'"
    and "put_device D d s = Returns s' \<Longrightarrow> harmless K s s'"
  using assms unfolding core_harmless_def by blast+

definition drivers_ok ::
  "('q, 'i, 'z) kernel_scheme \<Rightarrow> (('q, 'i, 'y) char_bus_scheme \<Rightarrow> addr list) \<Rightarrow>
   (nat \<Rightarrow> addr option \<Rightarrow> addr \<Rightarrow> int \<Rightarrow> priv \<Rightarrow> u32 \<Rightarrow> ('q, 'i, 'y) char_bus_scheme \<Rightarrow>
      ('q, 'i, 'y) char_bus_scheme outcome) \<Rightarrow> bool" where
  "drivers_ok K kids drv \<longleftrightarrow>
     (\<forall>i rpdev a n pr src s. epts_wf K s \<longrightarrow> cbs_ok s \<longrightarrow> channels_unique kids s \<longrightarrow>
        (\<exists>s'. drv i rpdev a n pr src s = Returns s' \<and> harmless K s s' \<and> channels_unique kids s'))"

text \<open>Which devices are registered does not hang on the rest of the state.\<close>

definition kids_apart :: "(('q, 'i, 'y) char_bus_scheme \<Rightarrow> addr list) \<Rightarrow> bool" where
  "kids_apart kids \<longleftrightarrow>
     (\<forall>s h v x. kids (s\<lparr>epts := h\<rparr>) = kids s \<and> kids (s\<lparr>vrp := v\<rparr>) = kids s \<and> kids (s\<lparr>eptdevs := x\<rparr>) = kids s)"

definition alloc_law :: "(('q, 'i, 'y) char_bus_scheme \<Rightarrow> addr option) \<Rightarrow> bool" where
  "alloc_law alloc \<longleftrightarrow> (\<forall>s d. alloc s = Some d \<longrightarrow> rpdevs s d = None)"

section \<open>The name service as a callback\<close>

lemma create_channel_harmless:
  assumes D: "core_harmless K D" and "rpmsg_create_channel D kz ch s = Returns (r, s')"
  shows "harmless K s s'"
proof -
  obtain f s1 where find: "device_find_child D (rpmsg_device_match ch) s = (f, s1)" by fastforce
  note h1 = core_harmlessD(1) [OF D find]
  show ?thesis
  proof (cases f)
    case (Some tmp)
    with assms(2) find have "put_device D tmp s1 = Returns s'"
      by (auto simp: rpmsg_create_channel_def rpmsg_find_device_def)
    from harmless_trans [OF h1 core_harmlessD(4) [OF D this]] show ?thesis .
  next
    case None
    show ?thesis
    proof (cases kz)
      case None
      with \<open>f = None\<close> assms(2) find h1 show ?thesis
        by (auto simp: rpmsg_create_channel_def rpmsg_find_device_def)
    next
      case (Some d)
      let ?t = "s1\<lparr>rpdevs := (rpdevs s1)(d \<mapsto> new_channel ch)\<rparr>"
      from Some \<open>f = None\<close> assms(2) find obtain ret where reg: "rpmsg_register_device D d ?t = Returns (ret, s')"
        by (auto simp: rpmsg_create_channel_def rpmsg_find_device_def)
      obtain x t where dr: "device_register D d (rpmsg_dev_name (new_channel ch)) ?t = Returns (x, t)"
        using reg by (cases "device_register D d (rpmsg_dev_name (new_channel ch)) ?t")
          (auto simp: rpmsg_register_device_def)
      have "harmless K t s'"
        using reg dr core_harmlessD(4) [OF D] by (auto simp: rpmsg_register_device_def split: if_splits)
      then show ?thesis
        by (rule harmless_trans [OF harmless_trans [OF harmless_trans [OF h1 harmless_rpdevs]
              core_harmlessD(2) [OF D dr]]])
    qed
  qed
qed

lemma unregister_harmless:
  assumes D: "core_harmless K D" and "rpmsg_unregister_device D ch s = Returns (r, s')"
  shows "harmless K s s'"
proof -
  obtain f s1 where find: "device_find_child D (rpmsg_device_match ch) s = (f, s1)" by fastforce
  note h1 = core_harmlessD(1) [OF D find]
  show ?thesis
  proof (cases f)
    case None
    with assms(2) find h1 show ?thesis by (auto simp: rpmsg_unregister_device_def rpmsg_find_device_def)
  next
    case (Some d)
    with assms(2) find obtain t where "device_unregister D d s1 = Returns t" "put_device D d t = Returns s'"
      by (auto simp: rpmsg_unregister_device_def rpmsg_find_device_def)
    from harmless_trans [OF harmless_trans [OF h1 core_harmlessD(3) [OF D this(1)]] core_harmlessD(4) [OF D this(2)]]
    show ?thesis .
  qed
qed

lemma ns_cb_harmless:
  assumes D: "core_harmless K D" and "rpmsg_ns_cb D kz rpdev data len Priv_vrp src s = Returns (r, s')"
  shows "harmless K s s'"
proof (cases "len \<noteq> 40 \<or> rpdev \<noteq> None")
  case True
  with assms(2) show ?thesis by (auto simp: rpmsg_ns_cb_def sizeofs split: if_splits)
next
  case False
  let ?s = "s\<lparr>mem := (mem s)(data + 31 := 0)\<rparr>"
  have "harmless K ?s s'"
    using False assms(2) create_channel_harmless [OF D] unregister_harmless [OF D]
    by (auto simp: ns_cb_unfold Let_def split: if_splits)
  then show ?thesis by (rule harmless_trans [OF harmless_mem])
qed

section \<open>The character device as a callback\<close>

lemma set_eptdev_harmless:
  assumes "eptdevs s p \<noteq> None"
  shows "harmless K s (set_eptdev p e s)"
proof -
  have cb: "cb_ok cb pr (set_eptdev p e s)" if "cb_ok cb pr s" for cb pr
    using that by (simp add: cb_ok_def split: rx_cb.splits priv.splits)
  then have "cbs_ok s \<Longrightarrow> cbs_ok (set_eptdev p e s)" by (simp add: cbs_ok_def)
  moreover have "epts_wf K (set_eptdev p e s) = epts_wf K s" by (rule epts_wf_cong) (simp_all add: bound_at_def)
  ultimately show ?thesis by (simp add: harmless_def)
qed

lemma ept_cb_harmless:
  assumes "rpmsg_ept_cb skb rpdev a n pr src s = Returns (r, s')"
  shows "harmless K s s'"
  using assms
proof (cases rule: ept_cb_cases)
  case (2 p e)
  then show ?thesis using set_eptdev_harmless [of s p] by auto
qed simp

lemma ept_cb_returns:
  "cb_ok Rpmsg_ept_cb pr s \<Longrightarrow> \<exists>r s'. rpmsg_ept_cb skb rpdev a n pr src s = Returns (r, s')"
  by (cases skb) (auto simp: rpmsg_ept_cb_def cb_ok_def split: priv.splits)

lemma keys_of_apart:
  assumes "kids s' = kids s" and "rpdevs s' = rpdevs s"
  shows "channels_unique kids s' = channels_unique kids s"
proof -
  have "dev_key s' = dev_key s" using assms(2) by (simp add: dev_key_def fun_eq_iff)
  with assms(1) show ?thesis by (simp add: channels_unique_def keys_of_def)
qed

lemma kids_apartD:
  "kids_apart kids \<Longrightarrow> kids (s\<lparr>epts := h\<rparr>) = kids s"
  "kids_apart kids \<Longrightarrow> kids (s\<lparr>vrp := v\<rparr>) = kids s"
  "kids_apart kids \<Longrightarrow> kids (set_eptdev p e s) = kids s"
  by (simp_all add: kids_apart_def set_eptdev_def)

lemma ept_cb_unique:
  assumes "kids_apart kids" and "rpmsg_ept_cb skb rpdev a n pr src s = Returns (r, s')"
  shows "channels_unique kids s' = channels_unique kids s"
  using assms(2)
proof (cases rule: ept_cb_cases)
  case (2 p e)
  then obtain q where "s' = set_eptdev p (e\<lparr>ed_queue := q\<rparr>) s" by blast
  then show ?thesis by (intro keys_of_apart) (simp_all add: kids_apartD(3) [OF assms(1)])
qed simp

section \<open>The whole receive path\<close>

definition bus_laws where
  "bus_laws K queued cb_on used D kids alloc drv \<longleftrightarrow>
     (virtqueue_laws K queued cb_on \<and> used_law K used) \<and> driver_core_laws D kids \<and> core_harmless K D \<and>
     drivers_ok K kids drv \<and> kids_apart kids \<and> alloc_law alloc"

definition bus_ok where
  "bus_ok K queued cb_on used D kids alloc drv s \<longleftrightarrow>
     bus_laws K queued cb_on used D kids alloc drv \<and> epts_wf K s \<and> cbs_ok s \<and> channels_unique kids s"

lemma module_callback_ok:
  assumes laws: "bus_laws K queued cb_on used D kids alloc drv"
    and ok: "epts_wf K s" "cbs_ok s" "channels_unique kids s" and "cb_ok cb pr s"
  shows "\<exists>s'. module_callbacks D alloc skb drv cb rpdev a n pr src s = Returns s' \<and> harmless K s s' \<and>
    channels_unique kids s'"
proof (cases cb)
  case Rpmsg_ns_cb
  have D: "driver_core_laws D kids" "core_harmless K D" and fresh: "\<And>d. alloc s = Some d \<Longrightarrow> rpdevs s d = None"
    using laws by (simp_all add: bus_laws_def alloc_law_def)
  obtain r s' where ret: "rpmsg_ns_cb D (alloc s) rpdev a n Priv_vrp src s = Returns (r, s')" "channels_unique kids s'"
    using ns_cb_returns [OF D(1) ok(3) fresh, where rpdev = rpdev and data = a and len = n and src = src] by blast
  have pr: "pr = Priv_vrp" using Rpmsg_ns_cb assms(5) by (simp add: cb_ok_def)
  from ret ns_cb_harmless [OF D(2) ret(1)] show ?thesis by (simp add: Rpmsg_ns_cb pr module_callbacks_def)
next
  case Rpmsg_ept_cb
  obtain r s' where ret: "rpmsg_ept_cb (skb s) rpdev a n pr src s = Returns (r, s')"
    using ept_cb_returns assms(5) Rpmsg_ept_cb by blast
  have "kids_apart kids" using laws by (simp add: bus_laws_def)
  from ept_cb_unique [OF this ret] ept_cb_harmless [OF ret] ret ok(3) show ?thesis
    by (simp add: Rpmsg_ept_cb module_callbacks_def)
next
  case (Driver_cb i)
  have "drivers_ok K kids drv" using laws by (simp add: bus_laws_def)
  then obtain s' where "drv i rpdev a n pr src s = Returns s'" "harmless K s s'" "channels_unique kids s'"
    using ok unfolding drivers_ok_def by blast
  then show ?thesis by (simp add: Driver_cb module_callbacks_def)
qed

lemma bus_ok_ref:
  assumes "bus_ok K queued cb_on used D kids alloc drv s" and e: "epts s p = Some e" and "0 < k"
  shows "bus_ok K queued cb_on used D kids alloc drv (s\<lparr>epts := (epts s)(p \<mapsto> e\<lparr>ep_refcount := k\<rparr>)\<rparr>)"
proof -
  let ?s = "s\<lparr>epts := (epts s)(p \<mapsto> e\<lparr>ep_refcount := k\<rparr>)\<rparr>"
  have laws: "bus_laws K queued cb_on used D kids alloc drv" and wf: "epts_wf K s" and cbs: "cbs_ok s"
    and u: "channels_unique kids s" using assms(1) by (simp_all add: bus_ok_def)
  have "epts_wf K ?s" using wf e \<open>0 < k\<close> by (fastforce simp: epts_wf_def)
  moreover have "cb_ok cb pr ?s = cb_ok cb pr s" for cb pr by (rule cb_ok_cong) simp
  then have "cbs_ok ?s" using cbs e by (auto simp: cbs_ok_def)
  moreover have "channels_unique kids ?s"
    using u laws by (simp add: keys_of_apart [of kids ?s s] bus_laws_def kids_apartD(1))
  ultimately show ?thesis using laws by (simp add: bus_ok_def)
qed

lemma bus_ok_rvq:
  assumes "bus_ok K queued cb_on used D kids alloc drv s"
  shows "bus_ok K queued cb_on used D kids alloc drv (s\<lparr>vrp := (vrp s)\<lparr>rvq := q\<rparr>\<rparr>)"
proof -
  let ?s = "s\<lparr>vrp := (vrp s)\<lparr>rvq := q\<rparr>\<rparr>"
  have "epts_wf K ?s = epts_wf K s" by (rule epts_wf_cong) (simp_all add: bound_at_def fun_eq_iff)
  moreover have "cbs_ok ?s = cbs_ok s" by (rule cbs_ok_cong) simp_all
  moreover have "channels_unique kids ?s = channels_unique kids s"
    using assms by (intro keys_of_apart) (simp_all add: bus_ok_def bus_laws_def kids_apartD(2))
  ultimately show ?thesis using assms by (simp add: bus_ok_def)
qed

interpretation rxi: rx_callbacks K queued cb_on used "module_callbacks D alloc skb drv"
  "bus_ok K queued cb_on used D kids alloc drv"
  for K :: "('q, 'i, 'z) kernel_scheme" and queued :: "'q \<Rightarrow> addr multiset" and cb_on :: "'q \<Rightarrow> bool"
    and used :: "'q \<Rightarrow> nat" and D :: "('q, 'i, 'y) char_bus_scheme driver_core" and kids alloc skb drv
proof unfold_locales
  fix s :: "('q, 'i, 'y) char_bus_scheme" and p e cb n a src
  assume ok: "bus_ok K queued cb_on used D kids alloc drv s" and e: "epts s p = Some e"
    and two: "2 \<le> ep_refcount e" and cb: "ep_cb e = Some cb"
  have c: "cb_ok cb (ep_priv e) s" using ok e cb by (simp add: bus_ok_def cbs_ok_def)
  from module_callback_ok [OF _ _ _ _ c] ok obtain s' where
    s': "module_callbacks D alloc skb drv cb (ep_rpdev e) a n (ep_priv e) src s = Returns s'"
      "harmless K s s'" "channels_unique kids s'"
    unfolding bus_ok_def by blast
  from s'(2) e two obtain e' where "epts s' p = Some e'" "ep_refcount e' = ep_refcount e"
    unfolding harmless_def by blast
  moreover have "bus_ok K queued cb_on used D kids alloc drv s'"
    using ok s'(2,3) by (simp add: bus_ok_def harmless_def)
  ultimately show "\<exists>s' e'. module_callbacks D alloc skb drv cb (ep_rpdev e) a n (ep_priv e) src s = Returns s' \<and>
      bus_ok K queued cb_on used D kids alloc drv s' \<and> rvq (vrp s') = rvq (vrp s) \<and>
      epts s' p = Some e' \<and> ep_refcount e' = ep_refcount e"
    using s'(1,2) by (auto simp: harmless_def)
next
  fix s :: "('q, 'i, 'y) char_bus_scheme" and q
  assume "bus_ok K queued cb_on used D kids alloc drv s"
  then show "bus_ok K queued cb_on used D kids alloc drv (s\<lparr>vrp := (vrp s)\<lparr>rvq := q\<rparr>\<rparr>)" by (rule bus_ok_rvq)
next
  fix s :: "('q, 'i, 'y) char_bus_scheme" and p e and k :: nat
  assume "bus_ok K queued cb_on used D kids alloc drv s" and "epts s p = Some e" and "0 < k"
  then show "bus_ok K queued cb_on used D kids alloc drv (s\<lparr>epts := (epts s)(p \<mapsto> e\<lparr>ep_refcount := k\<rparr>)\<rparr>)"
    by (rule bus_ok_ref)
qed (simp_all add: bus_ok_def bus_laws_def)

text \<open>A driver core that keeps the list of children in the state.\<close>

record sim_world = "(sim_vq, (u32 \<times> addr) list) char_bus" +
  world_kids :: "addr list"

definition sim_world_core :: "sim_world driver_core" where
  "sim_world_core =
     \<lparr>device_find_child = (\<lambda>m s. (find (\<lambda>d. case rpdevs s d of None \<Rightarrow> False | Some r \<Rightarrow> m r) (world_kids s), s)),
      device_register = (\<lambda>d n s. Returns (0, s\<lparr>world_kids := world_kids s @ [d]\<rparr>)),
      device_unregister = (\<lambda>d s. Returns (s\<lparr>world_kids := remove1 d (world_kids s)\<rparr>)),
      put_device = (\<lambda>d s. Returns s)\<rparr>"

lemma dev_key_world [simp]: "dev_key (s\<lparr>world_kids := k\<rparr>) d = dev_key s d"
  by (simp add: dev_key_def)

lemma sim_world_find: "find_child_law sim_world_core world_kids"
  unfolding find_child_law_def sim_world_core_def
  by (auto simp: find_None_iff dest!: find_SomeD split: option.splits)

lemma harmless_kids: "harmless K s (s\<lparr>world_kids := k\<rparr>)"
  by (rule harmless_frame) simp_all

lemma sim_world_laws:
  "bus_laws sim_kernel sim_queued sv_cb (\<lambda>q. length (sv_used q)) sim_world_core world_kids
     (\<lambda>s. if rpdevs s 8 = None then Some 8 else None) (\<lambda>i d a n pr src s. Returns s)"
proof -
  have "driver_core_laws sim_world_core world_kids"
    unfolding driver_core_laws_def
    by (intro conjI sim_world_find)
      (simp_all add: register_law_def unregister_law_def put_law_def sim_world_core_def)
  moreover have "core_harmless sim_kernel sim_world_core"
    by (simp add: core_harmless_def sim_world_core_def harmless_kids)
  ultimately show ?thesis
    by (simp add: bus_laws_def sim_virtqueue_laws sim_used_law drivers_ok_def kids_apart_def alloc_law_def)
qed

text \<open>
  Two used buffers: a message for the endpoint of the open device at 20 at address 1024,
  and one nobody is bound for.
\<close>

definition sim_world :: "bytes \<Rightarrow> sim_world" where
  "sim_world m = \<lparr>vrp = sim_vrp\<lparr>rvq := sim_queue\<lparr>sv_used := [(4096, 20), (4608, 16)]\<rparr>\<rparr>, mem = m,
     epts = [2 \<mapsto> sim_ept\<lparr>ep_cb := Some Rpmsg_ept_cb, ep_priv := Priv_eptdev 20\<rparr>], rpdevs = [1 \<mapsto> sim_rpdev],
     eptdevs = [20 \<mapsto> sim_eptdev\<lparr>ed_ept := Some 2\<rparr>], ctrldevs = [30 \<mapsto> sim_ctrldev], minor_ida = {0, 1},
     ept_ida = {0}, ctrl_ida = {0}, world_kids = [1]\<rparr>"

lemma sim_world_ok:
  "epts_wf sim_kernel (sim_world m)" "cbs_ok (sim_world m)" "channels_unique world_kids (sim_world m)"
proof -
  show "epts_wf sim_kernel (sim_world m)"
    unfolding epts_wf_def using sim_idr_laws
    by (auto simp: bound_at_def sim_kernel_def sim_world_def sim_vrp_def sim_ept_def split: if_splits)
  show "cbs_ok (sim_world m)" by (simp add: cbs_ok_def cb_ok_def sim_world_def)
  show "channels_unique world_kids (sim_world m)"
    by (simp add: channels_unique_def keys_of_def dev_key_def sim_world_def)
qed

section \<open>The properties of the whole\<close>

text \<open>
  C5. Whatever the remote processor has written into the used buffers, the receive interrupt
  returns: it touches no freed object and does not loop, and it keeps the address table,
  the fit of the callbacks and the channels in order. Afterwards either every used buffer
  has been given back to the queue, or one buffer is lost and the rest wait for the next
  interrupt.
\<close>

theorem recv_done_accounts:
  assumes "bus_laws K queued cb_on used D kids alloc drv"
    and "epts_wf K s" and "cbs_ok s" and "channels_unique kids s"
  shows "\<exists>s'. rpmsg_recv_done K (module_callbacks D alloc skb drv) s = Returns s' \<and>
    epts_wf K s' \<and> cbs_ok s' \<and> channels_unique kids s' \<and>
    (queued (rvq (vrp s')) = queued (rvq (vrp s)) \<and> used (rvq (vrp s')) = 0 \<or>
     (\<exists>a. add_mset a (queued (rvq (vrp s'))) = queued (rvq (vrp s))))"
proof -
  have "bus_ok K queued cb_on used D kids alloc drv s" using assms by (simp add: bus_ok_def)
  from rxi.recv_done_ok [OF this, of skb] show ?thesis unfolding bus_ok_def by blast
qed

theorem recv_done_accounts_witness:
  "\<exists>s'. rpmsg_recv_done sim_kernel (module_callbacks sim_world_core (\<lambda>s. if rpdevs s 8 = None then Some 8 else None)
       (\<lambda>_. True) (\<lambda>i d a n pr src s. Returns s)) (sim_world (\<lambda>_. 0)) = Returns s' \<and> epts_wf sim_kernel s'"
  using recv_done_accounts [OF sim_world_laws sim_world_ok, of "\<lambda>_. True" "\<lambda>_. 0"] by blast

end
