(* ===== verification/EndToEnd.thy ===== *)
theory EndToEnd
  imports System
begin

text \<open>
  Two systems joined: what a program writes to the character device of one side is what a
  program reads from the character device of the other. The transport is the memory both
  processors share: the receiver's buffer holds the bytes of the slot the sender queued.
\<close>

section \<open>The sending half\<close>

lemma send_raw_nonpos:
  assumes "virtqueue_laws K queued cb_on" and "tx_wf queued (vrp s)" and "waits_ok queued waits" and "is_c_int len"
    and "rpmsg_send_offchannel_raw K waits r src dst data len w s = Returns (err, s')"
  shows "err \<le> 0"
proof (cases rule: send_raw_cases [OF assms])
  case (3 v a)
  obtain k q where "virtqueue_add_outbuf K (svq v)
      (rpmsg_sg_init K a (ucast (of_nat sizeof_rpmsg_hdr + size_t_of_int len))) a = (k, q)" by fastforce
  from virtqueue_add_outbufD(1) [OF assms(1) this] this 3(1) show ?thesis
    by (auto simp: send_tx_buf_def Let_def split: if_splits)
qed (auto split: if_splits)

lemma uint_of_nat_u32: "n < 2 ^ 32 \<Longrightarrow> uint (of_nat n :: u32) = int n"
  by (simp add: unsigned_of_nat take_bit_nat_eq_self_iff uint_nat)

lemma int_of_u32_small: "n < 2 ^ 31 \<Longrightarrow> int_of_u32 (of_nat n) = int n"
  using uint_of_nat_u32 [of n] by (simp add: int_of_u32_cases)

lemma write_queues:
  assumes laws: "virtqueue_laws K queued cb_on" and wf: "tx_wf queued (vrp s)" and w: "waits_ok queued W"
    and dev: "eptdevs s p = Some e" "ed_ept e = Some q" "epts s q = Some x" "ep_rpdev x = Some d" "rpdevs s d = Some r"
    and len: "length bs < 2 ^ 31" and n: "0 \<le> n"
    and ret: "rpmsg_eptdev_write_iter (virtio_endpoint_ops K W) nonblock True (Some bs) (length bs) False p s = Returns (n, s')"
  shows "n = int (length bs) \<and> length bs \<le> 496 \<and>
    (\<exists>a. a \<in># queued (svq (vrp s')) \<and> hdr_src (hdr_load (mem s') a) = ep_addr x \<and>
       hdr_dst (hdr_load (mem s') a) = rp_dst r \<and> unat (hdr_len (hdr_load (mem s') a)) = length bs \<and>
       load (mem s') (a + 16) (length bs) = bs)"
proof -
  have c: "is_c_int (int (length bs))" using len by (simp add: is_c_int_def)
  obtain k where raw: "rpmsg_send_offchannel_raw K W r (ep_addr x) (rp_dst r) (bytes_of bs) (int (length bs)) (\<not> nonblock) s =
      Returns (k, s')" and k: "n = (if k < 0 then k else int (length bs))"
    using ret unfolding write_is_send [OF dev] int_of_u32_small [OF len] by auto
  have "k = 0" using send_raw_nonpos [OF laws wf w c raw] k n by (auto split: if_splits)
  with send_raw_queues [OF laws wf w c, of r "ep_addr x" "rp_dst r" "bytes_of bs" "\<not> nonblock" s'] raw k
  show ?thesis by (auto simp: sizeofs)
qed

section \<open>The receiving half\<close>

lemma requeue_frame: "requeue_rx_buf K msg s = (err, s') \<Longrightarrow> rpmsg_bus.more s' = rpmsg_bus.more s"
  by (auto simp: requeue_rx_buf_def split: prod.splits)

text \<open>The receiver is ready: an open endpoint device at the address.\<close>

definition listens where
  "listens K t dst p e \<longleftrightarrow> 512 \<le> uint (buf_size (vrp t)) \<and> eptdevs t p = Some e \<and>
     (\<exists>q x. bound_at K t dst = Some q \<and> epts t q = Some x \<and> ep_cb x = Some Rpmsg_ept_cb \<and>
        ep_priv x = Priv_eptdev p \<and> 0 < ep_refcount x)"

lemma recv_to_eptdev_eq:
  assumes l: "listens K t (hdr_dst (hdr_load (mem t) b)) p e" and skb: "\<And>u. skb u"
    and len: "unat (hdr_len (hdr_load (mem t) b)) = n" "n \<le> 496"
  shows "rpmsg_recv_single K (module_callbacks D alloc skb drv) b (of_nat (16 + n)) t =
    Returns (requeue_rx_buf K b (set_eptdev p (e\<lparr>ed_queue := ed_queue e @ [load (mem t) (b + 16) n]\<rparr>) t))"
proof -
  obtain q x where x: "512 \<le> uint (buf_size (vrp t))" "eptdevs t p = Some e"
    "bound_at K t (hdr_dst (hdr_load (mem t) b)) = Some q" "epts t q = Some x" "ep_cb x = Some Rpmsg_ept_cb"
    "ep_priv x = Priv_eptdev p" "0 < ep_refcount x"
    using l by (auto simp: listens_def)
  have u: "uint (of_nat (16 + n) :: u32) = 16 + int n" using len(2) uint_of_nat_u32 [of "16 + n"] by simp
  have h: "uint (hdr_len (hdr_load (mem t) b)) = int n" using len(1) by (simp flip: len(1))
  let ?t = "t\<lparr>epts := (epts t)(q \<mapsto> x\<lparr>ep_refcount := ep_refcount x + 1\<rparr>)\<rparr>"
  let ?e = "e\<lparr>ed_queue := ed_queue e @ [load (mem t) (b + 16) n]\<rparr>"
  let ?u = "set_eptdev p ?e ?t"
  have cb: "module_callbacks D alloc skb drv Rpmsg_ept_cb (ep_rpdev x) (b + 16) (int n) (Priv_eptdev p) src ?t = Returns ?u" for src
    using x(2) skb by (simp add: module_callbacks_def rpmsg_ept_cb_def)
  have "(epts t)(q \<mapsto> x) = epts t" using x(4) by auto
  then have put: "ept_kref_put q ?u = Returns (set_eptdev p ?e t)"
    using x(7) by (simp add: ept_kref_put_def set_eptdev_def)
  show ?thesis
    by (subst recv_single_dispatch [OF _ _ x(3-5)]) (use x(1,6) u h len(2) cb put in simp_all)
qed

lemma recv_to_eptdev:
  assumes "listens K t (hdr_dst (hdr_load (mem t) b)) p e" and "\<And>u. skb u"
    and "unat (hdr_len (hdr_load (mem t) b)) = n" and "n \<le> 496"
  shows "\<exists>err t'. rpmsg_recv_single K (module_callbacks D alloc skb drv) b (of_nat (16 + n)) t = Returns (err, t') \<and>
    eptdevs t' p = Some (e\<lparr>ed_queue := ed_queue e @ [load (mem t) (b + 16) n]\<rparr>)"
proof -
  let ?u = "set_eptdev p (e\<lparr>ed_queue := ed_queue e @ [load (mem t) (b + 16) n]\<rparr>) t"
  obtain err t' where rq: "requeue_rx_buf K b ?u = (err, t')" by fastforce
  show ?thesis
    unfolding recv_to_eptdev_eq [OF assms] rq using char_more(1) [OF requeue_frame [OF rq]] by simp
qed

section \<open>End to end\<close>

text \<open>
  C4. What a program writes to an endpoint device is what a program reads on the other side:
  a write that succeeds returns its length, which is at most 496, and has queued a slot
  such that any receiver whose buffer holds the bytes of that slot, and on which an open
  endpoint device with an empty queue is bound at the destination of the sender's channel,
  hands exactly the bytes written to the next reader with enough room.
\<close>

theorem write_then_read:
  assumes "virtqueue_laws K queued cb_on" and "tx_wf queued (vrp s)" and "waits_ok queued W"
    and "eptdevs s p = Some e" and "ed_ept e = Some q" and "epts s q = Some x" and "ep_rpdev x = Some d" and "rpdevs s d = Some r"
    and "length bs < 2 ^ 31" and "0 \<le> n"
    and "rpmsg_eptdev_write_iter (virtio_endpoint_ops K W) nonblock True (Some bs) (length bs) False p s = Returns (n, s')"
    and "\<And>u. skb u"
  shows "n = int (length bs) \<and> length bs \<le> 496 \<and>
    (\<exists>a. a \<in># queued (svq (vrp s')) \<and>
      (\<forall>t b p' e'. load (mem t) b (16 + length bs) = load (mem s') a (16 + length bs) \<longrightarrow>
         listens K' t (rp_dst r) p' e' \<longrightarrow> ed_ept e' \<noteq> None \<longrightarrow> ed_queue e' = [] \<longrightarrow> length bs \<le> room \<longrightarrow>
         (\<exists>err t' t''. rpmsg_recv_single K' (module_callbacks D alloc skb drv) b (of_nat (16 + length bs)) t = Returns (err, t') \<and>
            rpmsg_eptdev_read_iter nonblock' [] (\<lambda>u. u) True room p' t' = Returns (int (length bs), bs, t''))))"
proof -
  obtain a where w: "n = int (length bs)" "length bs \<le> 496" "a \<in># queued (svq (vrp s'))"
    "hdr_dst (hdr_load (mem s') a) = rp_dst r" "unat (hdr_len (hdr_load (mem s') a)) = length bs"
    "load (mem s') (a + 16) (length bs) = bs"
    using write_queues [OF assms(1-11)] by blast
  have "\<exists>err t' t''. rpmsg_recv_single K' (module_callbacks D alloc skb drv) b (of_nat (16 + length bs)) t = Returns (err, t') \<and>
      rpmsg_eptdev_read_iter nonblock' [] (\<lambda>u. u) True room p' t' = Returns (int (length bs), bs, t'')"
    if same: "load (mem t) b (16 + length bs) = load (mem s') a (16 + length bs)"
      and l: "listens K' t (rp_dst r) p' e'" and e': "ed_ept e' \<noteq> None" "ed_queue e' = []" and room: "length bs \<le> room"
    for t b p' e'
  proof -
    have h: "hdr_load (mem t) b = hdr_load (mem s') a"
      by (rule hdr.ld_local) (use load_part_eq [OF same, of 0 16] in \<open>simp add: sizeofs\<close>)
    have pl: "load (mem t) (b + 16) (length bs) = bs"
      using load_part_eq [OF same, of 16 "length bs"] w(6) by simp
    have l': "listens K' t (hdr_dst (hdr_load (mem t) b)) p' e'" using l by (simp add: h w(4))
    have len: "unat (hdr_len (hdr_load (mem t) b)) = length bs" by (simp add: h w(5))
    obtain err t' where t': "rpmsg_recv_single K' (module_callbacks D alloc skb drv) b (of_nat (16 + length bs)) t = Returns (err, t')"
      "eptdevs t' p' = Some (e'\<lparr>ed_queue := [bs]\<rparr>)"
      using recv_to_eptdev [where skb = skb and D = D and alloc = alloc and drv = drv, OF l' assms(12) len w(2)]
      unfolding pl e'(2) append_Nil by blast
    have "rpmsg_eptdev_read_iter nonblock' [] (\<lambda>u. u) True room p' t' =
        Returns (int (length bs), bs, set_eptdev p' (e'\<lparr>ed_queue := []\<rparr>) t')"
      using t'(2) e' room by (auto simp: rpmsg_eptdev_read_iter_def eptdev_take_def Let_def)
    with t'(1) show ?thesis by blast
  qed
  with w(1-3) show ?thesis by blast
qed

text \<open>The sender is the system of RpmsgChar with its device open, the receiver one that listens at 7.\<close>

definition sim_sender :: "(sim_vq, (u32 \<times> addr) list) char_bus" where
  "sim_sender = sim_char\<lparr>eptdevs := [20 \<mapsto> sim_eptdev\<lparr>ed_ept := Some 2\<rparr>]\<rparr>"

definition sim_receiver :: "u8 list \<Rightarrow> (sim_vq, (u32 \<times> addr) list) char_bus" where
  "sim_receiver bs = sim_char\<lparr>vrp := sim_vrp\<lparr>endpoints := [(7, 2)]\<rparr>, mem := store (\<lambda>_. 0) 4096 bs,
     epts := [2 \<mapsto> sim_ept\<lparr>ep_cb := Some Rpmsg_ept_cb, ep_priv := Priv_eptdev 20, ep_addr := 7\<rparr>],
     eptdevs := [20 \<mapsto> sim_eptdev\<lparr>ed_ept := Some 2\<rparr>]\<rparr>"

lemma sim_listens: "listens sim_kernel (sim_receiver bs) 7 20 (sim_eptdev\<lparr>ed_ept := Some 2\<rparr>)"
  by (simp add: listens_def sim_receiver_def sim_vrp_def sim_ept_def bound_at_def sim_kernel_def)

lemma sim_write:
  "\<exists>s'. rpmsg_eptdev_write_iter (virtio_endpoint_ops sim_kernel sim_waits) False True (Some [1, 2, 3, 4]) 4 False 20 sim_sender =
     Returns (4, s')"
proof -
  have dev: "eptdevs sim_sender 20 = Some (sim_eptdev\<lparr>ed_ept := Some 2\<rparr>)" "ed_ept (sim_eptdev\<lparr>ed_ept := Some 2\<rparr>) = Some 2"
    "epts sim_sender 2 = Some sim_ept" "ep_rpdev sim_ept = Some 1" "rpdevs sim_sender 1 = Some sim_rpdev"
    and v: "vrp sim_sender = sim_vrp" and r: "rp_container sim_rpdev = Virtio_rpmsg_channel" "rp_dst sim_rpdev = 7"
    and a: "ep_addr sim_ept = 1024"
    by (simp_all add: sim_sender_def sim_ept_def sim_rpdev_def)
  have "\<exists>s'. rpmsg_send_offchannel_raw sim_kernel sim_waits sim_rpdev 1024 7 (bytes_of [1, 2, 3, 4]) 4 True sim_sender = Returns (0, s')"
    using sim_first_tx_buf msg_too_big_iff [of 4 sim_vrp] r(1)
    by (simp add: rpmsg_send_offchannel_raw_def v is_c_int_def rpmsg_consts send_tx_buf_def Let_def)
      (simp add: sim_vrp_def sim_kernel_def sim_add_buf_def sim_queue_def)
  then show ?thesis
    unfolding write_is_send [OF dev] a r(2) using int_of_u32_small [of 4] by auto
qed

theorem write_then_read_witness:
  "\<exists>s' a. rpmsg_eptdev_write_iter (virtio_endpoint_ops sim_kernel sim_waits) False True (Some [1, 2, 3, 4]) 4 False 20 sim_sender =
     Returns (4, s') \<and> a \<in># sim_queued (svq (vrp s')) \<and>
     (\<exists>err t' t''. rpmsg_recv_single sim_kernel (module_callbacks quiet_driver_core (\<lambda>_. None) (\<lambda>_. True)
            (\<lambda>i d b n pr src u. Returns u)) 4096 20 (sim_receiver (load (mem s') a 20)) = Returns (err, t') \<and>
        rpmsg_eptdev_read_iter True [] (\<lambda>u. u) True 100 20 t' = Returns (4, [1, 2, 3, 4], t''))"
proof -
  let ?bs = "[1, 2, 3, 4] :: u8 list"
  have four: "length ?bs = 4" by simp
  obtain s' where w: "rpmsg_eptdev_write_iter (virtio_endpoint_ops sim_kernel sim_waits) False True (Some ?bs) (length ?bs) False 20
      sim_sender = Returns (4, s')"
    using sim_write unfolding four by blast
  have dev: "eptdevs sim_sender 20 = Some (sim_eptdev\<lparr>ed_ept := Some 2\<rparr>)" "ed_ept (sim_eptdev\<lparr>ed_ept := Some 2\<rparr>) = Some 2"
    "epts sim_sender 2 = Some sim_ept" "ep_rpdev sim_ept = Some 1" "rpdevs sim_sender 1 = Some sim_rpdev"
    and wf: "tx_wf sim_queued (vrp sim_sender)" and r: "rp_dst sim_rpdev = 7"
    by (simp_all add: sim_sender_def sim_ept_def sim_rpdev_def sim_tx_wf)
  have "length ?bs < 2 ^ 31" and "(0 :: int) \<le> 4" by simp_all
  from write_then_read [where K' = sim_kernel and D = quiet_driver_core and alloc = "\<lambda>_. None" and skb = "\<lambda>_. True"
      and drv = "\<lambda>i d b n pr src u. Returns u" and nonblock' = True and room = 100,
      OF sim_virtqueue_laws wf sim_waits_ok dev this w TrueI]
  obtain a where a: "a \<in># sim_queued (svq (vrp s'))"
    and rest: "\<forall>(t :: (sim_vq, (u32 \<times> addr) list) char_bus) b p' e'. load (mem t) b (16 + length ?bs) = load (mem s') a (16 + length ?bs) \<longrightarrow>
         listens sim_kernel t (rp_dst sim_rpdev) p' e' \<longrightarrow> ed_ept e' \<noteq> None \<longrightarrow> ed_queue e' = [] \<longrightarrow> length ?bs \<le> 100 \<longrightarrow>
         (\<exists>err t' t''. rpmsg_recv_single sim_kernel (module_callbacks quiet_driver_core (\<lambda>_. None) (\<lambda>_. True)
              (\<lambda>i d b n pr src u. Returns u)) b (of_nat (16 + length ?bs)) t = Returns (err, t') \<and>
            rpmsg_eptdev_read_iter True [] (\<lambda>u. u) True 100 p' t' = Returns (int (length ?bs), ?bs, t''))"
    by blast
  let ?t = "sim_receiver (load (mem s') a 20)"
  have m: "load (mem ?t) 4096 (16 + length ?bs) = load (mem s') a (16 + length ?bs)"
    by (simp add: sim_receiver_def load_store_same')
  have q: "ed_queue (sim_eptdev\<lparr>ed_ept := Some 2\<rparr>) = []" by (simp add: sim_eptdev_def)
  have "\<exists>err t' t''. rpmsg_recv_single sim_kernel (module_callbacks quiet_driver_core (\<lambda>_. None) (\<lambda>_. True)
              (\<lambda>i d b n pr src u. Returns u)) 4096 (of_nat (16 + length ?bs)) ?t = Returns (err, t') \<and>
            rpmsg_eptdev_read_iter True [] (\<lambda>u. u) True 100 20 t' = Returns (int (length ?bs), ?bs, t'')"
    by (rule rest [unfolded r, rule_format, OF m sim_listens _ q]) simp_all
  moreover have "of_nat (16 + length ?bs) = (20 :: u32)" and "int (length ?bs) = 4" by simp_all
  ultimately show ?thesis using w a unfolding four by metis
qed

end
