(* ===== verification/Link.thy ===== *)
theory Link
  imports EndToEnd
begin

text \<open>
  A link between two systems: programs write to an endpoint device of one, the transport
  carries the slots of its transmit ring to the receive ring of the other, whose interrupt
  hands them to the endpoint device that programs there read. The three queues on the way,
  the transmit ring, the receive ring and the queue of the device, are shown to be one first in
  first out buffer.
\<close>

section \<open>The buffer\<close>

text \<open>What goes in comes out in the same order; a reader gets as much of a message as it has room for.\<close>

record buffer =
  buf_queue :: "u8 list list"
  buf_in :: "u8 list list"
  buf_out :: "(nat \<times> u8 list) list"

inductive buffer_step :: "buffer \<Rightarrow> buffer \<Rightarrow> bool" where
  enq: "buffer_step b (b\<lparr>buf_queue := buf_queue b @ [m], buf_in := buf_in b @ [m]\<rparr>)"
| deq: "buf_queue b = m # ms \<Longrightarrow>
    buffer_step b (b\<lparr>buf_queue := ms, buf_out := buf_out b @ [(room, take room m)]\<rparr>)"

definition buffer_empty :: "buffer \<Rightarrow> bool" where
  "buffer_empty b \<longleftrightarrow> buf_queue b = [] \<and> buf_in b = [] \<and> buf_out b = []"

definition cut :: "nat \<times> u8 list \<Rightarrow> u8 list \<Rightarrow> bool" where
  "cut r m \<longleftrightarrow> snd r = take (fst r) m"

definition in_order :: "buffer \<Rightarrow> bool" where
  "in_order b \<longleftrightarrow> (\<exists>ms. buf_in b = ms @ buf_queue b \<and> list_all2 cut (buf_out b) ms)"

interpretation fifo: inductive_invariant buffer_empty buffer_step in_order
proof
  show "in_order b" if "buffer_empty b" for b using that by (simp add: in_order_def buffer_empty_def)
  show "in_order b'" if inv: "in_order b" and step: "buffer_step b b'" for b b'
    using step
  proof cases
    case (enq m)
    with inv show ?thesis by (auto simp: in_order_def)
  next
    case (deq m ms room)
    obtain old where "buf_in b = old @ m # ms" "list_all2 cut (buf_out b) old"
      using inv deq(2) by (auto simp: in_order_def)
    then show ?thesis unfolding in_order_def deq(1)
      by (intro exI [of _ "old @ [m]"]) (simp add: cut_def list_all2_appendI)
  qed
qed

section \<open>The rings\<close>

text \<open>
  A virtqueue is a pair of rings: the buffers the other side has still to use, in the order
  they were added, and those it has used, with their lengths, in the order it used them. A
  buffer is refused only when the queue is full. Using the first buffer is the other side's step.
\<close>

definition tokens :: "('q \<Rightarrow> addr list) \<Rightarrow> ('q \<Rightarrow> (addr \<times> u32) list) \<Rightarrow> 'q \<Rightarrow> addr list" where
  "tokens avail usedr q = avail q @ map fst (usedr q)"

definition add_ring_law where
  "add_ring_law add ring avail usedr \<longleftrightarrow>
     (\<forall>q sg t err q'. add q sg t = (err, q') \<longrightarrow> usedr q' = usedr q \<and> ring q' = ring q \<and>
        avail q' = (if err = 0 then avail q @ [t] else avail q) \<and>
        (length (tokens avail usedr q) < ring q \<longrightarrow> err = 0))"

definition ring_of :: "('q, 'i, 'z) kernel_scheme \<Rightarrow> 'q \<Rightarrow> nat" where
  "ring_of K q = unat (virtqueue_get_vring_size K q)"

definition ring_laws where
  "ring_laws K queued cb_on avail usedr \<longleftrightarrow> virtqueue_laws K queued cb_on \<and>
     (\<forall>q. queued q = mset (tokens avail usedr q)) \<and>
     add_ring_law (virtqueue_add_inbuf K) (ring_of K) avail usedr \<and>
     add_ring_law (virtqueue_add_outbuf K) (ring_of K) avail usedr \<and>
     (\<forall>q r q'. virtqueue_get_buf K q = (r, q') \<longrightarrow> avail q' = avail q \<and> ring_of K q' = ring_of K q \<and>
        (case r of None \<Rightarrow> usedr q = [] \<and> usedr q' = [] | Some b \<Rightarrow> usedr q = b # usedr q')) \<and>
     (\<forall>q. avail (virtqueue_kick K q) = avail q \<and> usedr (virtqueue_kick K q) = usedr q \<and>
        ring_of K (virtqueue_kick K q) = ring_of K q)"

definition uses where
  "uses K avail usedr q a n q' \<longleftrightarrow>
     avail q = a # avail q' \<and> usedr q' = usedr q @ [(a, n)] \<and> ring_of K q' = ring_of K q"

lemma ring_lawsD:
  assumes "ring_laws K queued cb_on avail usedr"
  shows "virtqueue_laws K queued cb_on"
    and "queued q = mset (tokens avail usedr q)"
    and "avail (virtqueue_kick K q) = avail q" and "usedr (virtqueue_kick K q) = usedr q"
    and "ring_of K (virtqueue_kick K q) = ring_of K q"
  using assms by (simp_all add: ring_laws_def)

lemma get_buf_ring:
  assumes "ring_laws K queued cb_on avail usedr" and "virtqueue_get_buf K q = (r, q')"
  shows "avail q' = avail q" and "ring_of K q' = ring_of K q"
    and "r = None \<Longrightarrow> usedr q = [] \<and> usedr q' = []" and "r = Some b \<Longrightarrow> usedr q = b # usedr q'"
proof -
  have "avail q' = avail q \<and> ring_of K q' = ring_of K q \<and>
      (case r of None \<Rightarrow> usedr q = [] \<and> usedr q' = [] | Some b \<Rightarrow> usedr q = b # usedr q')"
    using assms unfolding ring_laws_def by blast
  then show "avail q' = avail q" and "ring_of K q' = ring_of K q"
    and "r = None \<Longrightarrow> usedr q = [] \<and> usedr q' = []" and "r = Some b \<Longrightarrow> usedr q = b # usedr q'"
    by simp_all
qed

lemma add_inbuf_ring:
  assumes "ring_laws K queued cb_on avail usedr" and "virtqueue_add_inbuf K q sg t = (err, q')"
  shows "usedr q' = usedr q" and "ring_of K q' = ring_of K q"
    and "avail q' = (if err = 0 then avail q @ [t] else avail q)"
    and "length (tokens avail usedr q) < ring_of K q \<Longrightarrow> err = 0"
  using assms unfolding ring_laws_def add_ring_law_def by metis+

lemma add_outbuf_ring:
  assumes "ring_laws K queued cb_on avail usedr" and "virtqueue_add_outbuf K q sg t = (err, q')"
  shows "usedr q' = usedr q" and "ring_of K q' = ring_of K q"
    and "avail q' = (if err = 0 then avail q @ [t] else avail q)"
  using assms unfolding ring_laws_def add_ring_law_def by metis+

section \<open>Slots\<close>

text \<open>Buffers of a pool are different slots of 512 bytes, so what is written into one leaves the others alone.\<close>

definition pool :: "addr \<Rightarrow> addr list \<Rightarrow> bool" where
  "pool base as \<longleftrightarrow> distinct as \<and> set as \<subseteq> range (\<lambda>k. base + 512 * k)"

definition apart :: "addr \<Rightarrow> addr \<Rightarrow> bool" where
  "apart a b \<longleftrightarrow> a + 512 \<le> b \<or> b + 512 \<le> a"

lemma pool_apart: "pool base as \<Longrightarrow> a \<in> set as \<Longrightarrow> b \<in> set as \<Longrightarrow> a \<noteq> b \<Longrightarrow> apart a b"
proof -
  assume p: "pool base as" and a: "a \<in> set as" and b: "b \<in> set as" and "a \<noteq> b"
  then obtain k l where kl: "a = base + 512 * k" "b = base + 512 * l" unfolding pool_def by blast
  with \<open>a \<noteq> b\<close> have "Suc k \<le> l \<or> Suc l \<le> k" by auto
  then show "apart a b" unfolding apart_def kl by auto
qed

text \<open>A slot that holds a message for an address, and the payload in it.\<close>

definition msg_len :: "bytes \<Rightarrow> addr \<Rightarrow> nat" where
  "msg_len m a = unat (hdr_len (hdr_load m a))"

definition payload :: "bytes \<Rightarrow> addr \<Rightarrow> u8 list" where
  "payload m a = load m (a + 16) (msg_len m a)"

definition slot_ok :: "u32 \<Rightarrow> bytes \<Rightarrow> addr \<Rightarrow> bool" where
  "slot_ok dst m a \<longleftrightarrow> hdr_dst (hdr_load m a) = dst \<and> msg_len m a \<le> 496"

lemma slot_same:
  assumes "slot_ok dst m a" and "load m' b (16 + msg_len m a) = load m a (16 + msg_len m a)"
  shows "slot_ok dst m' b" and "payload m' b = payload m a" and "msg_len m' b = msg_len m a"
proof -
  have h: "hdr_load m' b = hdr_load m a"
    by (rule hdr.ld_local) (use load_part_eq [OF assms(2), of 0 16] in \<open>simp add: sizeofs\<close>)
  show n: "msg_len m' b = msg_len m a" by (simp add: msg_len_def h)
  show "slot_ok dst m' b" using assms(1) h n by (simp add: slot_ok_def)
  show "payload m' b = payload m a"
    using load_part_eq [OF assms(2), of 16 "msg_len m a"] by (simp add: payload_def n)
qed

lemma slot_kept:
  assumes "slot_ok dst m a" and "apart a b" and "\<And>x. x < b \<or> b + 512 \<le> x \<Longrightarrow> m' x = m x"
  shows "slot_ok dst m' a" and "payload m' a = payload m a" and "msg_len m' a = msg_len m a"
proof -
  have "load m' a (16 + msg_len m a) = load m a (16 + msg_len m a)"
    by (rule load_cong) (use assms in \<open>auto simp: slot_ok_def apart_def\<close>)
  from slot_same [OF assms(1) this]
  show "slot_ok dst m' a" and "payload m' a = payload m a" and "msg_len m' a = msg_len m a" by simp_all
qed

lemma slots_kept:
  assumes "\<And>a. a \<in> set as \<Longrightarrow> slot_ok dst m a" and "\<And>a. a \<in> set as \<Longrightarrow> apart a b"
    and "\<And>x. x < b \<or> b + 512 \<le> x \<Longrightarrow> m' x = m x"
  shows "\<And>a. a \<in> set as \<Longrightarrow> slot_ok dst m' a" and "map (payload m') as = map (payload m) as"
  using slot_kept [OF assms(1,2,3)] by auto

section \<open>The sending half\<close>

definition sends_to :: "addr \<Rightarrow> u32 \<Rightarrow> ('q, 'i, 'y) char_bus_scheme \<Rightarrow> bool" where
  "sends_to p dst s \<longleftrightarrow>
     (\<exists>e q x d r. eptdevs s p = Some e \<and> ed_ept e = Some q \<and> epts s q = Some x \<and> ep_rpdev x = Some d \<and>
        rpdevs s d = Some r \<and> rp_dst r = dst)"

abbreviation svq_of :: "('q, 'i, 'y) char_bus_scheme \<Rightarrow> 'q" where
  "svq_of s \<equiv> svq (vrp s)"

definition near_ok where
  "near_ok queued avail usedr p dst s \<longleftrightarrow>
     tx_wf queued (vrp s) \<and> distinct (tokens avail usedr (svq_of s)) \<and> sends_to p dst s \<and>
     (\<forall>a \<in> set (avail (svq_of s)). slot_ok dst (mem s) a)"

definition near_queue :: "('q \<Rightarrow> addr list) \<Rightarrow> ('q, 'i, 'y) char_bus_scheme \<Rightarrow> u8 list list" where
  "near_queue avail s = map (payload (mem s)) (avail (svq_of s))"

lemma near_okD:
  assumes "near_ok queued avail usedr p dst s"
  shows "tx_wf queued (vrp s)" and "distinct (tokens avail usedr (svq_of s))" and "sends_to p dst s"
    and "a \<in> set (avail (svq_of s)) \<Longrightarrow> slot_ok dst (mem s) a"
  using assms by (simp_all add: near_ok_def)

lemma set_tokens: "set (tokens avail usedr q) = set (avail q) \<union> fst ` set (usedr q)"
  by (auto simp: tokens_def)

lemma issued_apart: "x \<in> tx_issued v \<Longrightarrow> a \<in> tx_issued v \<Longrightarrow> x \<noteq> a \<Longrightarrow> apart x a"
  by (rule pool_apart [of "sbufs v" "[x, a]"]) (auto simp: pool_def tx_issued_def tx_slot_def)

text \<open>The allocator takes no slot that is still to be used.\<close>

lemma get_tx_ring:
  assumes laws: "ring_laws K queued cb_on avail usedr" and wf: "tx_wf queued v"
    and d: "distinct (tokens avail usedr (svq v))" and get: "get_a_tx_buf K v = (m, v')"
  shows "avail (svq v') = avail (svq v)" and "tx_wf queued v'" and "distinct (tokens avail usedr (svq v'))"
    and "m = Some a \<Longrightarrow> a \<in> tx_issued v' \<and> a \<notin> set (tokens avail usedr (svq v'))"
proof -
  note vl = ring_lawsD(1) [OF laws]
  show wf': "tx_wf queued v'" by (rule get_a_tx_buf_wf [OF vl wf get])
  show "avail (svq v') = avail (svq v)"
    using get get_buf_ring(1) [OF laws] by (auto simp: get_a_tx_buf_def split: if_splits prod.splits)
  have fresh: "distinct (tokens avail usedr (svq v')) \<and> (m = Some a \<longrightarrow> a \<notin> set (tokens avail usedr (svq v')))" for a
  proof (cases "last_sbuf v < int (unat (num_bufs v) div 2)")
    case True
    then have m: "m = Some (tx_slot v (nat (last_sbuf v)))" and v': "svq v' = svq v"
      using get fresh_slot_addr [OF wf] fresh_slot_test [OF wf] by (auto simp: get_a_tx_buf_def)
    have "set (tokens avail usedr (svq v)) \<subseteq> tx_issued v"
      using wf ring_lawsD(2) [OF laws, of "svq v"] by (simp add: tx_wf_def)
    then show ?thesis using tx_slot_next_fresh [of v] d by (auto simp: m v')
  next
    case False
    then obtain r q where vq: "virtqueue_get_buf K (svq v) = (r, q)" "m = map_option fst r" "svq v' = q"
      using get by (auto simp: get_a_tx_buf_def fresh_slot_test [OF wf] split: prod.splits)
    then show ?thesis
      using d get_buf_ring [OF laws vq(1)] by (cases r) (auto simp: tokens_def)
  qed
  then show "distinct (tokens avail usedr (svq v'))" by blast
  show "a \<in> tx_issued v' \<and> a \<notin> set (tokens avail usedr (svq v'))" if "m = Some a"
    using get_a_tx_buf_issued [OF vl wf, of a v'] get fresh that by simp
qed

text \<open>A message written into a slot that is on no ring joins the queue behind the others.\<close>

lemma send_slot:
  assumes laws: "ring_laws K queued cb_on avail usedr" and wf: "tx_wf queued (vrp s)"
    and d: "distinct (tokens avail usedr (svq_of s))" and slots: "\<And>x. x \<in> set (avail (svq_of s)) \<Longrightarrow> slot_ok dst (mem s) x"
    and a: "a \<in> tx_issued (vrp s)" "a \<notin> set (tokens avail usedr (svq_of s))"
    and send: "send_tx_buf K src dst data len a s = (err, s')" and len: "0 \<le> len" "len \<le> 496"
  shows "tx_wf queued (vrp s') \<and> distinct (tokens avail usedr (svq_of s')) \<and> err \<le> 0 \<and>
    (\<forall>x \<in> set (avail (svq_of s')). slot_ok dst (mem s') x) \<and>
    near_queue avail s' = near_queue avail s @ (if err = 0 then [load data 0 (nat len)] else [])"
proof -
  note vl = ring_lawsD(1) [OF laws]
  have mem: "mem s' = write_tx_msg src dst data len a (mem s)" by (rule send_tx_buf_mem [OF send])
  have hdr: "hdr_load (mem s') a = \<lparr>hdr_src = src, hdr_dst = dst, hdr_reserved = 0, hdr_len = word_of_int len, hdr_flags = 0\<rparr>"
    unfolding mem by (rule write_tx_msg_hdr)
  have n: "msg_len (mem s') a = nat len"
    using len by (simp add: msg_len_def hdr unat_eq_nat_uint uint_word_of_int)
  have new: "slot_ok dst (mem s') a" "payload (mem s') a = load data 0 (nat len)"
    using len write_tx_msg_payload [of len src dst data a "mem s", folded mem] by (simp_all add: slot_ok_def payload_def n hdr sizeofs)
  have ap: "apart x a" if "x \<in> set (avail (svq_of s))" for x
  proof (rule issued_apart [OF _ a(1)])
    have x: "x \<in> set (tokens avail usedr (svq_of s))" using that by (simp add: set_tokens)
    with a(2) show "x \<noteq> a" by auto
    from x have "x \<in># queued (svq_of s)" by (simp add: ring_lawsD(2) [OF laws])
    then show "x \<in> tx_issued (vrp s)" using wf by (auto simp: tx_wf_def)
  qed
  have out: "mem s' x = mem s x" if "x < a \<or> a + 512 \<le> x" for x
    unfolding mem by (rule write_tx_msg_apart [OF that len])
  note kept = slots_kept [OF slots ap out]
  obtain k q where add: "virtqueue_add_outbuf K (svq_of s)
      (rpmsg_sg_init K a (ucast (of_nat sizeof_rpmsg_hdr + size_t_of_int len))) a = (k, q)" by fastforce
  have k: "k = err" and v: "vrp s' = (vrp s)\<lparr>svq := if err = 0 then virtqueue_kick K q else q\<rparr>"
    using send add by (auto simp: send_tx_buf_def Let_def split: if_splits)
  note q = add_outbuf_ring [OF laws add [unfolded k]]
  have rings: "avail (svq_of s') = (if err = 0 then avail (svq_of s) @ [a] else avail (svq_of s))"
    "usedr (svq_of s') = usedr (svq_of s)"
    using q ring_lawsD(3,4) [OF laws] by (simp_all add: v)
  have "err \<le> 0" using virtqueue_add_outbufD(1) [OF vl add] k by simp
  moreover have "tx_wf queued (vrp s')"
    using wf a(1) virtqueue_add_outbufD(3) [OF vl add [unfolded k]] virtqueue_signals(1) [OF vl] by (auto simp: tx_wf_def v)
  moreover have "distinct (tokens avail usedr (svq_of s'))" using d a(2) by (auto simp: tokens_def rings)
  ultimately show ?thesis using kept new by (auto simp: rings near_queue_def)
qed

lemma near_send:
  assumes laws: "ring_laws K queued cb_on avail usedr" and ok: "near_ok queued avail usedr p dst s"
    and len: "is_c_int len" and now: "w \<Longrightarrow> fst (get_a_tx_buf K (vrp s)) \<noteq> None"
    and ret: "rpmsg_send_offchannel_raw K W r src dst data len w s = Returns (err, s')"
  shows "near_ok queued avail usedr p dst s' \<and> err \<le> 0 \<and>
    near_queue avail s' = near_queue avail s @ (if err = 0 then [load data 0 (nat len)] else [])"
proof -
  note okD = near_okD [OF ok]
  obtain m v where get: "get_a_tx_buf K (vrp s) = (m, v)" by fastforce
  note ring = get_tx_ring [OF laws okD(1,2) get]
  have fits: "ucast (buf_size (vrp s)) - of_nat sizeof_rpmsg_hdr < size_t_of_int len \<longleftrightarrow> len < 0 \<or> 496 < len"
    using okD(1) by (intro msg_too_big_iff len) (simp add: tx_wf_def)
  have to: "sends_to p dst s'"
    using okD(3) send_raw_objects [OF ret] char_more(1) [of s' s] by (simp add: sends_to_def)
  consider (same) "s' = s" "err < 0" | (none) "m = None" "s' = s\<lparr>vrp := v\<rparr>" "err < 0"
    | (some) a where "m = Some a" "send_tx_buf K src dst data len a (s\<lparr>vrp := v\<rparr>) = (err, s')" "0 \<le> len" "len \<le> 496"
    using ret get now by (cases m) (auto simp: rpmsg_send_offchannel_raw_def fits split: if_splits)
  then show ?thesis
  proof cases
    case same
    with ok show ?thesis by simp
  next
    case none
    with ring okD to show ?thesis by (simp add: near_ok_def near_queue_def)
  next
    case (some a)
    let ?s = "s\<lparr>vrp := v\<rparr>"
    have "tx_wf queued (vrp s') \<and> distinct (tokens avail usedr (svq_of s')) \<and> err \<le> 0 \<and>
        (\<forall>x \<in> set (avail (svq_of s')). slot_ok dst (mem s') x) \<and>
        near_queue avail s' = near_queue avail ?s @ (if err = 0 then [load data 0 (nat len)] else [])"
      by (rule send_slot [OF laws _ _ _ _ _ some(2-4)]) (use ring okD(4) some(1) in simp_all)
    moreover have "near_queue avail ?s = near_queue avail s" using ring(1) by (simp add: near_queue_def)
    ultimately show ?thesis using to by (simp add: near_ok_def)
  qed
qed

text \<open>
  A write that does not have to sleep: it is one that does not wish to, or one that finds a slot.
  \<open>data\<close> is what could be copied from the user, and the kernel cuts a write at 2 GB.
\<close>

lemma near_write:
  assumes laws: "ring_laws K queued cb_on avail usedr" and ok: "near_ok queued avail usedr p dst s"
    and len: "length bs < 2 ^ 31" and data: "data = None \<or> data = Some bs"
    and now: "\<not> nonblock \<Longrightarrow> fst (get_a_tx_buf K (vrp s)) \<noteq> None"
    and ret: "rpmsg_eptdev_write_iter (virtio_endpoint_ops K W) nonblock kz data (length bs) intr p s = Returns (n, s')"
  shows "near_ok queued avail usedr p dst s' \<and>
    near_queue avail s' = near_queue avail s @ (if 0 \<le> n then [bs] else [])"
proof (cases "kz \<and> data = Some bs \<and> \<not> intr")
  case False
  with ret data ok show ?thesis by (auto simp: rpmsg_eptdev_write_iter_def split: if_splits)
next
  case True
  obtain e q x d r where dev: "eptdevs s p = Some e" "ed_ept e = Some q" "epts s q = Some x" "ep_rpdev x = Some d"
    "rpdevs s d = Some r" "rp_dst r = dst" using near_okD(3) [OF ok] unfolding sends_to_def by blast
  have c: "is_c_int (int (length bs))" using len by (simp add: is_c_int_def)
  obtain k where raw: "rpmsg_send_offchannel_raw K W r (ep_addr x) dst (bytes_of bs) (int (length bs)) (\<not> nonblock) s =
      Returns (k, s')" and k: "n = (if k < 0 then k else int (length bs))"
    using ret True unfolding True [THEN conjunct2, THEN conjunct1]
    by (auto simp: write_is_send [OF dev(1-5)] dev(6) int_of_u32_small [OF len])
  from near_send [OF laws ok c now raw] k show ?thesis by auto
qed

section \<open>The transport\<close>

text \<open>
  The first slot of the transmit ring is copied into the first buffer of the receive ring: the
  header and as many bytes as it says follow. Both buffers are used then.
\<close>

definition carried :: "addr \<Rightarrow> addr \<Rightarrow> ('q, 'i, 'y) char_bus_scheme \<Rightarrow> ('q, 'i, 'y) char_bus_scheme \<Rightarrow> bytes" where
  "carried a b s t = store (mem t) b (load (mem s) a (16 + msg_len (mem s) a))"

definition with_svq :: "'q \<Rightarrow> ('q, 'i, 'y) char_bus_scheme \<Rightarrow> ('q, 'i, 'y) char_bus_scheme" where
  "with_svq q s = s\<lparr>vrp := (vrp s)\<lparr>svq := q\<rparr>\<rparr>"

definition with_rvq :: "'q \<Rightarrow> ('q, 'i, 'y) char_bus_scheme \<Rightarrow> ('q, 'i, 'y) char_bus_scheme" where
  "with_rvq q s = s\<lparr>vrp := (vrp s)\<lparr>rvq := q\<rparr>\<rparr>"

lemma with_vq_simps [simp]:
  "vrp (with_svq q s) = (vrp s)\<lparr>svq := q\<rparr>" "mem (with_svq q s) = mem s" "eptdevs (with_svq q s) = eptdevs s"
  "epts (with_svq q s) = epts s" "rpdevs (with_svq q s) = rpdevs s"
  "vrp (with_rvq q s) = (vrp s)\<lparr>rvq := q\<rparr>" "mem (with_rvq q s) = mem s" "eptdevs (with_rvq q s) = eptdevs s"
  "epts (with_rvq q s) = epts s" "rpdevs (with_rvq q s) = rpdevs s"
  by (simp_all add: with_svq_def with_rvq_def)

lemma near_used:
  assumes laws: "ring_laws K queued cb_on avail usedr" and ok: "near_ok queued avail usedr p dst s"
    and use: "uses K avail usedr (svq_of s) a n q"
  shows "near_ok queued avail usedr p dst (with_svq q s)" and "slot_ok dst (mem s) a"
    and "near_queue avail s = payload (mem s) a # near_queue avail (with_svq q s)"
proof -
  have u: "avail (svq_of s) = a # avail q" "usedr q = usedr (svq_of s) @ [(a, n)]" using use by (simp_all add: uses_def)
  have m: "mset (tokens avail usedr q) = mset (tokens avail usedr (svq_of s))" by (simp add: tokens_def u)
  have "distinct (tokens avail usedr q)" using near_okD(2) [OF ok] mset_eq_imp_distinct_iff [OF m] by simp
  moreover have "queued q = queued (svq_of s)"
    unfolding ring_lawsD(2) [OF laws, of q] ring_lawsD(2) [OF laws, of "svq_of s"] by (rule m)
  then have "tx_wf queued (vrp (with_svq q s))" using near_okD(1) [OF ok] by (simp add: tx_wf_def)
  moreover have "sends_to p dst (with_svq q s)" using near_okD(3) [OF ok] by (simp add: sends_to_def)
  moreover have "\<forall>x \<in> set (avail q). slot_ok dst (mem s) x" using near_okD(4) [OF ok] u(1) by simp
  ultimately show "near_ok queued avail usedr p dst (with_svq q s)" by (simp add: near_ok_def)
  show "slot_ok dst (mem s) a" using near_okD(4) [OF ok] u(1) by simp
  show "near_queue avail s = payload (mem s) a # near_queue avail (with_svq q s)" by (simp add: near_queue_def u(1))
qed

section \<open>The receiving half\<close>

abbreviation rvq_of :: "('q, 'i, 'y) char_bus_scheme \<Rightarrow> 'q" where
  "rvq_of s \<equiv> rvq (vrp s)"

text \<open>
  \<open>hs\<close> are the used buffers the interrupt has fetched from the ring and not given back: none,
  or the one it is working on. No buffer gets lost, so there is always one to receive into.
\<close>

definition bufs_ok :: "addr \<Rightarrow> nat \<Rightarrow> addr list \<Rightarrow> bool" where
  "bufs_ok base n as \<longleftrightarrow> pool base as \<and> 0 < length as \<and> length as \<le> n"

definition msgs_ok :: "u32 \<Rightarrow> bytes \<Rightarrow> (addr \<times> u32) list \<Rightarrow> bool" where
  "msgs_ok dst m us \<longleftrightarrow> (\<forall>(b, n) \<in> set us. slot_ok dst m b \<and> n = of_nat (16 + msg_len m b))"

definition far_ok where
  "far_ok K avail usedr p dst hs t \<longleftrightarrow>
     (\<exists>e. listens K t dst p e \<and> ed_ept e \<noteq> None) \<and>
     bufs_ok (rbufs (vrp t)) (ring_of K (rvq_of t)) (map fst hs @ tokens avail usedr (rvq_of t)) \<and>
     msgs_ok dst (mem t) (hs @ usedr (rvq_of t))"

definition dev_queue :: "addr \<Rightarrow> ('q, 'i, 'y) char_bus_scheme \<Rightarrow> u8 list list" where
  "dev_queue p t = (case eptdevs t p of None \<Rightarrow> [] | Some e \<Rightarrow> ed_queue e)"

definition far_queue where
  "far_queue usedr p hs t = dev_queue p t @ map (payload (mem t) \<circ> fst) (hs @ usedr (rvq_of t))"

lemma bufs_ok_mset:
  assumes "mset xs = mset ys"
  shows "bufs_ok base n xs = bufs_ok base n ys"
  unfolding bufs_ok_def pool_def mset_eq_imp_distinct_iff [OF assms] mset_eq_setD [OF assms] mset_eq_length [OF assms] ..

text \<open>Fetching a buffer from the ring, giving one back, and the kick keep the half in order.\<close>

lemma far_rvq:
  assumes "far_ok K avail usedr p dst hs t" and "hs' @ usedr q = hs @ usedr (rvq_of t)"
    and "mset (map fst hs' @ tokens avail usedr q) = mset (map fst hs @ tokens avail usedr (rvq_of t))"
    and "ring_of K q = ring_of K (rvq_of t)"
  shows "far_ok K avail usedr p dst hs' (with_rvq q t)" and "far_queue usedr p hs' (with_rvq q t) = far_queue usedr p hs t"
proof -
  have "listens K (with_rvq q t) dst p e = listens K t dst p e" for e by (simp add: listens_def bound_at_def)
  moreover have "rbufs (vrp (with_rvq q t)) = rbufs (vrp t)" "rvq_of (with_rvq q t) = q" by simp_all
  ultimately show "far_ok K avail usedr p dst hs' (with_rvq q t)"
    using assms(1) unfolding far_ok_def by (simp only: assms(2,4) bufs_ok_mset [OF assms(3)] with_vq_simps)
  have "far_queue usedr p hs' (with_rvq q t) = dev_queue p t @ map (payload (mem t) \<circ> fst) (hs' @ usedr q)"
    by (simp add: far_queue_def dev_queue_def)
  then show "far_queue usedr p hs' (with_rvq q t) = far_queue usedr p hs t" unfolding assms(2) far_queue_def .
qed

lemma far_single:
  assumes laws: "ring_laws K queued cb_on avail usedr" and ok: "far_ok K avail usedr p dst [(b, n)] t"
  shows "\<exists>t'. rpmsg_recv_single K (module_callbacks D alloc (\<lambda>_. True) drv) b n t = Returns (0, t') \<and>
    far_ok K avail usedr p dst [] t' \<and> far_queue usedr p [] t' = far_queue usedr p [(b, n)] t \<and>
    usedr (rvq_of t') = usedr (rvq_of t)"
proof -
  obtain e where e: "listens K t dst p e" "ed_ept e \<noteq> None" using ok unfolding far_ok_def by blast
  have m: "slot_ok dst (mem t) b" "n = of_nat (16 + msg_len (mem t) b)" using ok by (simp_all add: far_ok_def msgs_ok_def)
  let ?e = "e\<lparr>ed_queue := ed_queue e @ [payload (mem t) b]\<rparr>"
  let ?u = "set_eptdev p ?e t"
  have "listens K t (hdr_dst (hdr_load (mem t) b)) p e" using e(1) m(1) by (simp add: slot_ok_def)
  from recv_to_eptdev_eq [where skb = "\<lambda>_. True" and n = "msg_len (mem t) b", OF this] m(1)
  have single: "rpmsg_recv_single K (module_callbacks D alloc (\<lambda>_. True) drv) b n t = Returns (requeue_rx_buf K b ?u)"
    unfolding m(2) by (simp add: slot_ok_def msg_len_def payload_def)
  obtain k q where add: "virtqueue_add_inbuf K (rvq_of t) (rpmsg_sg_init K b (buf_size (vrp t))) b = (k, q)" by fastforce
  have bufs: "bufs_ok (rbufs (vrp t)) (ring_of K (rvq_of t)) (b # tokens avail usedr (rvq_of t))"
    using ok by (simp add: far_ok_def)
  have k: "k = 0" by (rule add_inbuf_ring(4) [OF laws add]) (use bufs in \<open>simp add: bufs_ok_def\<close>)
  note q = add_inbuf_ring [OF laws add, unfolded k, simplified]
  have perm: "mset (tokens avail usedr q) = mset (b # tokens avail usedr (rvq_of t))" by (simp add: tokens_def q)
  let ?t = "with_rvq q ?u"
  have "requeue_rx_buf K b ?u = (0, ?t)" using add k by (simp add: requeue_rx_buf_def with_rvq_def set_eptdev_def)
  moreover have "listens K ?t dst p ?e" using e(1) by (simp add: listens_def bound_at_def)
  then have "far_ok K avail usedr p dst [] ?t"
    using bufs e(2) ok bufs_ok_mset [OF perm] by (auto simp: far_ok_def msgs_ok_def q)
  moreover have "far_queue usedr p [] ?t = far_queue usedr p [(b, n)] t"
    using e(1) by (simp add: far_queue_def dev_queue_def listens_def q)
  ultimately show ?thesis using single q by simp
qed

definition fetched :: "(addr \<times> u32) option \<Rightarrow> (addr \<times> u32) list" where
  "fetched r = (case r of None \<Rightarrow> [] | Some b \<Rightarrow> [b])"

lemma far_get:
  assumes laws: "ring_laws K queued cb_on avail usedr" and ok: "far_ok K avail usedr p dst [] t"
    and get: "virtqueue_get_buf K (rvq_of t) = (r, q)"
  shows "far_ok K avail usedr p dst (fetched r) (with_rvq q t)"
    and "far_queue usedr p (fetched r) (with_rvq q t) = far_queue usedr p [] t"
    and "usedr (rvq_of t) = fetched r @ usedr q"
proof -
  note g = get_buf_ring [OF laws get]
  show u: "usedr (rvq_of t) = fetched r @ usedr q" using g(3,4) by (cases r) (simp_all add: fetched_def)
  have "mset (map fst (fetched r) @ tokens avail usedr q) = mset (map fst [] @ tokens avail usedr (rvq_of t))"
    by (simp add: tokens_def g(1) u)
  from far_rvq [OF ok _ this g(2)] u
  show "far_ok K avail usedr p dst (fetched r) (with_rvq q t)"
    and "far_queue usedr p (fetched r) (with_rvq q t) = far_queue usedr p [] t" by simp_all
qed

text \<open>Everything the interrupt finds on the ring goes to the device, in order, and the ring is empty afterwards.\<close>

lemma far_loop:
  assumes laws: "ring_laws K queued cb_on avail usedr" and "far_ok K avail usedr p dst (fetched r) t"
    and "r = None \<Longrightarrow> usedr (rvq_of t) = []"
  shows "\<exists>i' t'. recv_loop K (module_callbacks D alloc (\<lambda>_. True) drv) r i t = Some (Returns (i', t')) \<and>
    far_ok K avail usedr p dst [] t' \<and> far_queue usedr p [] t' = far_queue usedr p (fetched r) t \<and> usedr (rvq_of t') = []"
  using assms(2,3)
proof (induction "length (fetched r @ usedr (rvq_of t))" arbitrary: r i t rule: less_induct)
  case less
  show ?case
  proof (cases r)
    case None
    with less.prems show ?thesis by (subst recv_loop.simps) (simp add: fetched_def)
  next
    case (Some c)
    obtain b n where c: "c = (b, n)" by fastforce
    have ok: "far_ok K avail usedr p dst [(b, n)] t" using less.prems(1) by (simp add: Some c fetched_def)
    obtain t1 where t1: "rpmsg_recv_single K (module_callbacks D alloc (\<lambda>_. True) drv) b n t = Returns (0, t1)"
      "far_ok K avail usedr p dst [] t1" "far_queue usedr p [] t1 = far_queue usedr p [(b, n)] t"
      "usedr (rvq_of t1) = usedr (rvq_of t)"
      using far_single [where D = D and alloc = alloc and drv = drv, OF laws ok] by blast
    obtain r' q where get: "virtqueue_get_buf K (rvq_of t1) = (r', q)" by fastforce
    note g = far_get [OF laws t1(2) get]
    have dry: "r' = None \<Longrightarrow> usedr (rvq_of (with_rvq q t1)) = []" using get_buf_ring(3) [OF laws get] by simp
    have "length (fetched r' @ usedr (rvq_of (with_rvq q t1))) < length (fetched r @ usedr (rvq_of t))"
      by (simp add: g(3) [symmetric] t1(4) Some) (simp add: fetched_def)
    from less.hyps [where i = "i + 1", OF this g(1) dry] show ?thesis
      using t1(1,3) get g(2) by (subst recv_loop.simps) (simp add: Some c fetched_def with_rvq_def)
  qed
qed

lemma far_recv_done:
  assumes laws: "ring_laws K queued cb_on avail usedr" and ok: "far_ok K avail usedr p dst [] t"
  shows "\<exists>t'. rpmsg_recv_done K (module_callbacks D alloc (\<lambda>_. True) drv) t = Returns t' \<and>
    far_ok K avail usedr p dst [] t' \<and> far_queue usedr p [] t' = far_queue usedr p [] t \<and> usedr (rvq_of t') = []"
proof -
  obtain r q where get: "virtqueue_get_buf K (rvq_of t) = (r, q)" by fastforce
  note g = far_get [OF laws ok get]
  have dry: "r = None \<Longrightarrow> usedr (rvq_of (with_rvq q t)) = []" using get_buf_ring(3) [OF laws get] by simp
  obtain i t1 where t1: "recv_loop K (module_callbacks D alloc (\<lambda>_. True) drv) r 0 (with_rvq q t) = Some (Returns (i, t1))"
    "far_ok K avail usedr p dst [] t1" "far_queue usedr p [] t1 = far_queue usedr p [] t" "usedr (rvq_of t1) = []"
    using far_loop [where D = D and alloc = alloc and drv = drv and i = 0, OF laws g(1) dry] g(2) by auto
  show ?thesis
  proof (cases r)
    case None
    with get g dry show ?thesis by (simp add: rpmsg_recv_done_def fetched_def with_rvq_def)
  next
    case (Some c)
    let ?k = "virtqueue_kick K (rvq_of t1)"
    have "mset (map fst [] @ tokens avail usedr ?k) = mset (map fst [] @ tokens avail usedr (rvq_of t1))"
      by (simp add: tokens_def ring_lawsD(3,4) [OF laws])
    from far_rvq [OF t1(2) _ this ring_lawsD(5) [OF laws]] have k: "far_ok K avail usedr p dst [] (with_rvq ?k t1)"
      "far_queue usedr p [] (with_rvq ?k t1) = far_queue usedr p [] t1" by (simp_all add: ring_lawsD(4) [OF laws])
    have "rpmsg_recv_done K (module_callbacks D alloc (\<lambda>_. True) drv) t = Returns (if i \<noteq> 0 then with_rvq ?k t1 else t1)"
      using get t1(1) by (simp add: Some rpmsg_recv_done_def with_rvq_def Let_def)
    with t1 k show ?thesis by (simp add: ring_lawsD(4) [OF laws])
  qed
qed

text \<open>A message arrives in the first free buffer.\<close>

lemma far_arrive:
  assumes laws: "ring_laws K queued cb_on avail usedr" and ok: "far_ok K avail usedr p dst [] t"
    and use: "uses K avail usedr (rvq_of t) b (of_nat (16 + msg_len (mem s) a)) q" and m: "slot_ok dst (mem s) a"
  shows "far_ok K avail usedr p dst [] (with_rvq q (t\<lparr>mem := carried a b s t\<rparr>))"
    and "far_queue usedr p [] (with_rvq q (t\<lparr>mem := carried a b s t\<rparr>)) = far_queue usedr p [] t @ [payload (mem s) a]"
proof -
  let ?m = "carried a b s t" and ?n = "msg_len (mem s) a"
  let ?t = "with_rvq q (t\<lparr>mem := ?m\<rparr>)"
  have u: "avail (rvq_of t) = b # avail q" "usedr q = usedr (rvq_of t) @ [(b, of_nat (16 + ?n))]" "ring_of K q = ring_of K (rvq_of t)"
    using use by (simp_all add: uses_def)
  have perm: "mset (tokens avail usedr q) = mset (tokens avail usedr (rvq_of t))" by (simp add: tokens_def u)
  have bufs: "bufs_ok (rbufs (vrp t)) (ring_of K (rvq_of t)) (tokens avail usedr (rvq_of t))"
    and msgs: "msgs_ok dst (mem t) (usedr (rvq_of t))" using ok by (simp_all add: far_ok_def)
  have "load ?m b (16 + ?n) = load (mem s) a (16 + ?n)" unfolding carried_def by (rule load_store_same') simp
  note new = slot_same [OF m this]
  have ap: "apart x b" if "x \<in> set (map fst (usedr (rvq_of t)))" for x
  proof (rule pool_apart)
    show "pool (rbufs (vrp t)) (tokens avail usedr (rvq_of t))" using bufs by (simp add: bufs_ok_def)
    then show "x \<noteq> b" using that u(1) by (auto simp: pool_def tokens_def simp del: set_map)
  qed (use that u(1) in \<open>simp_all add: set_tokens\<close>)
  have out: "?m x = mem t x" if "x < b \<or> b + 512 \<le> x" for x
    unfolding carried_def by (rule store_apart) (use that m in \<open>auto simp: slot_ok_def\<close>)
  have old: "slot_ok dst (mem t) x" if "x \<in> set (map fst (usedr (rvq_of t)))" for x
    using that msgs by (auto simp: msgs_ok_def)
  note kept = slot_kept [OF old ap out]
  have "msgs_ok dst ?m (usedr q)" using msgs kept new by (fastforce simp: msgs_ok_def u(2))
  moreover have "listens K ?t dst p e = listens K t dst p e" for e by (simp add: listens_def bound_at_def)
  ultimately show "far_ok K avail usedr p dst [] ?t"
    using ok bufs bufs_ok_mset [OF perm] u(3) by (simp add: far_ok_def)
  have "map (payload ?m \<circ> fst) (usedr (rvq_of t)) = map (payload (mem t) \<circ> fst) (usedr (rvq_of t))" using kept by auto
  then show "far_queue usedr p [] ?t = far_queue usedr p [] t @ [payload (mem s) a]"
    using new by (simp add: far_queue_def dev_queue_def u(2))
qed

text \<open>A read that does not sleep takes the first message, as much of it as fits, or finds none.\<close>

lemma far_read:
  assumes ok: "far_ok K avail usedr p dst [] t" and now: "nonblock \<or> dev_queue p t \<noteq> []"
    and ret: "rpmsg_eptdev_read_iter nonblock script race True room p t = Returns (n, bs, t')"
  shows "far_ok K avail usedr p dst [] t' \<and> usedr (rvq_of t') = usedr (rvq_of t) \<and>
    (n < 0 \<and> far_queue usedr p [] t' = far_queue usedr p [] t \<or>
     0 \<le> n \<and> (\<exists>m. dev_queue p t = m # dev_queue p t' \<and> bs = take room m \<and>
       far_queue usedr p [] t = m # far_queue usedr p [] t'))"
proof -
  obtain e where e: "listens K t dst p e" "ed_ept e \<noteq> None" using ok unfolding far_ok_def by blast
  have d: "eptdevs t p = Some e" using e(1) by (simp add: listens_def)
  show ?thesis
  proof (cases "ed_queue e")
    case Nil
    with ret now e(2) d ok show ?thesis by (auto simp: rpmsg_eptdev_read_iter_def dev_queue_def)
  next
    case (Cons m ms)
    have r: "n = int (min room (length m))" "bs = take room m" "t' = set_eptdev p (e\<lparr>ed_queue := ms\<rparr>) t"
      using ret e(2) d Cons by (auto simp: rpmsg_eptdev_read_iter_def eptdev_take_def Let_def min_def)
    have "listens K t' dst p (e\<lparr>ed_queue := ms\<rparr>)" using e(1) by (simp add: listens_def bound_at_def r(3))
    then have "far_ok K avail usedr p dst [] t'" using ok e(2) by (auto simp: far_ok_def r(3))
    then show ?thesis using d Cons r(1,2) by (simp add: far_queue_def dev_queue_def r(3))
  qed
qed

section \<open>The link\<close>

record ('q, 'i) link =
  near :: "('q, 'i) char_bus"
  far :: "('q, 'i) char_bus"
  written :: "u8 list list"
  received :: "(nat \<times> u8 list) list"

text \<open>
  The steps: a write on the near side, the transport, the receive interrupt on the far side
  with memory for the message (\<open>alloc_skb\<close>), and a read there. \<open>written\<close> records what was written
  with success and \<open>received\<close> what was read, with the room of each reader.
\<close>

inductive link_step ::
  "('q, 'i) kernel \<Rightarrow> ('q \<Rightarrow> addr list) \<Rightarrow> ('q \<Rightarrow> (addr \<times> u32) list) \<Rightarrow> ('q, 'i) char_bus driver_core \<Rightarrow>
   addr \<Rightarrow> addr \<Rightarrow> ('q, 'i) link \<Rightarrow> ('q, 'i) link \<Rightarrow> bool"
  for K :: "('q, 'i) kernel" and avail :: "'q \<Rightarrow> addr list" and usedr :: "'q \<Rightarrow> (addr \<times> u32) list"
    and D :: "('q, 'i) char_bus driver_core" and p :: addr and p' :: addr where
  writes: "length bs < 2 ^ 31 \<Longrightarrow> data = None \<or> data = Some bs \<Longrightarrow>
    nonblock \<or> fst (get_a_tx_buf K (vrp (near c))) \<noteq> None \<Longrightarrow>
    rpmsg_eptdev_write_iter (virtio_endpoint_ops K W) nonblock kz data (length bs) intr p (near c) = Returns (n, s) \<Longrightarrow>
    link_step K avail usedr D p p' c (c\<lparr>near := s, written := written c @ (if 0 \<le> n then [bs] else [])\<rparr>)"
| carries: "uses K avail usedr (svq_of (near c)) a m q \<Longrightarrow>
    uses K avail usedr (rvq_of (far c)) b (of_nat (16 + msg_len (mem (near c)) a)) q' \<Longrightarrow>
    link_step K avail usedr D p p' c
      (c\<lparr>near := with_svq q (near c), far := with_rvq q' ((far c)\<lparr>mem := carried a b (near c) (far c)\<rparr>)\<rparr>)"
| interrupts: "rpmsg_recv_done K (module_callbacks D alloc (\<lambda>_. True) drv) (far c) = Returns t \<Longrightarrow>
    link_step K avail usedr D p p' c (c\<lparr>far := t\<rparr>)"
| reads: "nonblock \<or> dev_queue p' (far c) \<noteq> [] \<Longrightarrow>
    rpmsg_eptdev_read_iter nonblock script race True room p' (far c) = Returns (n, bs, t) \<Longrightarrow>
    link_step K avail usedr D p p' c (c\<lparr>far := t, received := received c @ (if 0 \<le> n then [(room, bs)] else [])\<rparr>)"

definition link_queue where
  "link_queue avail usedr p' c = far_queue usedr p' [] (far c) @ near_queue avail (near c)"

definition link_ok where
  "link_ok K queued cb_on avail usedr p p' dst c \<longleftrightarrow> ring_laws K queued cb_on avail usedr \<and>
     near_ok queued avail usedr p dst (near c) \<and> far_ok K avail usedr p' dst [] (far c)"

text \<open>At first nothing is on its way.\<close>

definition link_start where
  "link_start K queued cb_on avail usedr p p' dst c \<longleftrightarrow> link_ok K queued cb_on avail usedr p p' dst c \<and>
     link_queue avail usedr p' c = [] \<and> written c = [] \<and> received c = []"

definition as_buffer where
  "as_buffer avail usedr p' c =
     \<lparr>buf_queue = link_queue avail usedr p' c, buf_in = written c, buf_out = received c\<rparr>"

lemma link_step_ok:
  assumes "link_ok K queued cb_on avail usedr p p' dst c" and "link_step K avail usedr D p p' c c'"
  shows "link_ok K queued cb_on avail usedr p p' dst c' \<and>
    (as_buffer avail usedr p' c' = as_buffer avail usedr p' c \<or>
     buffer_step (as_buffer avail usedr p' c) (as_buffer avail usedr p' c'))"
proof -
  have laws: "ring_laws K queued cb_on avail usedr" and near: "near_ok queued avail usedr p dst (near c)"
    and far: "far_ok K avail usedr p' dst [] (far c)" using assms(1) by (simp_all add: link_ok_def)
  show ?thesis
    using assms(2)
  proof cases
    case (writes bs data nonblock W kz intr n s)
    from near_write [OF laws near writes(2,3) _ writes(5)] writes(4) laws far
    show ?thesis
      using buffer_step.enq [of "as_buffer avail usedr p' c" bs]
      by (auto simp: link_ok_def writes(1) as_buffer_def link_queue_def)
  next
    case (carries a m q b q')
    note n = near_used [OF laws near carries(2)]
    from far_arrive [OF laws far carries(3) n(2)] n laws show ?thesis
      by (simp add: link_ok_def carries(1) as_buffer_def link_queue_def)
  next
    case (interrupts alloc drv t)
    from far_recv_done [where D = D and alloc = alloc and drv = drv, OF laws far] interrupts(2) laws near show ?thesis
      by (auto simp: link_ok_def interrupts(1) as_buffer_def link_queue_def)
  next
    case (reads nonblock script race room n bs t)
    from far_read [OF far reads(2,3)] laws near show ?thesis
      using buffer_step.deq [of "as_buffer avail usedr p' c" _ _ room]
      by (auto simp: link_ok_def reads(1) as_buffer_def link_queue_def)
  qed
qed

interpretation link: invariant_refinement "link_start K queued cb_on avail usedr p p' dst" "link_step K avail usedr D p p'"
  "link_ok K queued cb_on avail usedr p p' dst" buffer_empty buffer_step "as_buffer avail usedr p'"
  for K :: "('q, 'i) kernel" and queued cb_on avail usedr D p p' dst
proof
  fix c d :: "('q, 'i) link"
  assume ok: "link_ok K queued cb_on avail usedr p p' dst c" and step: "link_step K avail usedr D p p' c d"
  from link_step_ok [OF ok step] show "link_ok K queued cb_on avail usedr p p' dst d"
    and "as_buffer avail usedr p' d = as_buffer avail usedr p' c \<or>
      buffer_step (as_buffer avail usedr p' c) (as_buffer avail usedr p' d)" by simp_all
qed (simp_all add: link_start_def buffer_empty_def as_buffer_def)

section \<open>Draining\<close>

text \<open>
  The other side never stops using buffers. Then the link can always be emptied: interrupts and
  the transport move every message to the device, where reads take them.
\<close>

definition device_runs where
  "device_runs K avail usedr \<longleftrightarrow> (\<forall>q a as n. avail q = a # as \<longrightarrow> (\<exists>q'. uses K avail usedr q a n q'))"

lemma far_interrupt:
  fixes c :: "('q, 'i) link"
  assumes ok: "link_ok K queued cb_on avail usedr p p' dst c"
  obtains t where "link_step K avail usedr D p p' c (c\<lparr>far := t\<rparr>)" and "usedr (rvq_of t) = []"
    and "link_ok K queued cb_on avail usedr p p' dst (c\<lparr>far := t\<rparr>)"
    and "far_queue usedr p' [] t = far_queue usedr p' [] (far c)"
proof -
  have laws: "ring_laws K queued cb_on avail usedr" and far: "far_ok K avail usedr p' dst [] (far c)"
    using ok by (simp_all add: link_ok_def)
  obtain t where t: "rpmsg_recv_done K (module_callbacks D (\<lambda>_. None) (\<lambda>_. True) (\<lambda>i d a n pr src s. Returns s)) (far c) = Returns t"
    "far_ok K avail usedr p' dst [] t" "far_queue usedr p' [] t = far_queue usedr p' [] (far c)" "usedr (rvq_of t) = []"
    using far_recv_done [where D = D and alloc = "\<lambda>_. None" and drv = "\<lambda>i d a n pr src s. Returns s", OF laws far] by blast
  show thesis by (rule that [OF link_step.interrupts [OF t(1)] t(4) _ t(3)]) (use ok t(2) in \<open>simp add: link_ok_def\<close>)
qed

lemma carry_first:
  assumes ok: "link_ok K queued cb_on avail usedr p p' dst c" and run: "device_runs K avail usedr"
    and empty: "usedr (rvq_of (far c)) = []" and a: "avail (svq_of (near c)) = a # as"
  obtains c' where "link_step K avail usedr D p p' c c'" and "as_buffer avail usedr p' c' = as_buffer avail usedr p' c"
    and "link_ok K queued cb_on avail usedr p p' dst c'" and "avail (svq_of (near c')) = as"
proof -
  have near: "near_ok queued avail usedr p dst (near c)" and laws: "ring_laws K queued cb_on avail usedr"
    and far: "far_ok K avail usedr p' dst [] (far c)" using ok by (simp_all add: link_ok_def)
  have "avail (rvq_of (far c)) \<noteq> []" using far empty by (auto simp: far_ok_def bufs_ok_def tokens_def)
  then obtain b bs where b: "avail (rvq_of (far c)) = b # bs" by (cases "avail (rvq_of (far c))") auto
  obtain q where q: "uses K avail usedr (svq_of (near c)) a 0 q" using run a unfolding device_runs_def by blast
  obtain q' where q': "uses K avail usedr (rvq_of (far c)) b (of_nat (16 + msg_len (mem (near c)) a)) q'"
    using run b unfolding device_runs_def by blast
  let ?c = "c\<lparr>near := with_svq q (near c), far := with_rvq q' ((far c)\<lparr>mem := carried a b (near c) (far c)\<rparr>)\<rparr>"
  have step: "link_step K avail usedr D p p' c ?c" by (rule link_step.carries [OF q q'])
  note n = near_used [OF laws near q]
  have "as_buffer avail usedr p' ?c = as_buffer avail usedr p' c"
    using far_arrive [OF laws far q' n(2)] n by (simp add: as_buffer_def link_queue_def)
  moreover have "avail (svq_of (near ?c)) = as" using q a by (simp add: uses_def)
  ultimately show thesis using that [OF step] link_step_ok [OF ok step] by blast
qed

lemma carry_all:
  fixes c :: "('q, 'i) link"
  assumes "link_ok K queued cb_on avail usedr p p' dst c" and run: "device_runs K avail usedr"
  shows "\<exists>c'. (link_step K avail usedr D p p')\<^sup>*\<^sup>* c c' \<and> as_buffer avail usedr p' c' = as_buffer avail usedr p' c \<and>
    link_ok K queued cb_on avail usedr p p' dst c' \<and> link_queue avail usedr p' c' = dev_queue p' (far c')"
  using assms(1)
proof (induction "avail (svq_of (near c))" arbitrary: c)
  case Nil
  obtain t where t: "link_step K avail usedr D p p' c (c\<lparr>far := t\<rparr>)" "usedr (rvq_of t) = []"
    "link_ok K queued cb_on avail usedr p p' dst (c\<lparr>far := t\<rparr>)" "far_queue usedr p' [] t = far_queue usedr p' [] (far c)"
    by (rule far_interrupt [OF Nil.prems])
  show ?case
    using t Nil.hyps by (intro exI [of _ "c\<lparr>far := t\<rparr>"]) (simp add: as_buffer_def link_queue_def near_queue_def far_queue_def r_into_rtranclp)
next
  case (Cons a as)
  obtain t where t: "link_step K avail usedr D p p' c (c\<lparr>far := t\<rparr>)" "usedr (rvq_of t) = []"
    "link_ok K queued cb_on avail usedr p p' dst (c\<lparr>far := t\<rparr>)" "far_queue usedr p' [] t = far_queue usedr p' [] (far c)"
    by (rule far_interrupt [OF Cons.prems])
  have a: "avail (svq_of (near (c\<lparr>far := t\<rparr>))) = a # as" and e: "usedr (rvq_of (far (c\<lparr>far := t\<rparr>))) = []"
    using Cons.hyps(2) t(2) by simp_all
  obtain c1 where c1: "link_step K avail usedr D p p' (c\<lparr>far := t\<rparr>) c1"
    "as_buffer avail usedr p' c1 = as_buffer avail usedr p' (c\<lparr>far := t\<rparr>)"
    "link_ok K queued cb_on avail usedr p p' dst c1" "avail (svq_of (near c1)) = as"
    by (rule carry_first [OF t(3) run e a])
  obtain c' where c': "(link_step K avail usedr D p p')\<^sup>*\<^sup>* c1 c'" "as_buffer avail usedr p' c' = as_buffer avail usedr p' c1"
    "link_ok K queued cb_on avail usedr p p' dst c'" "link_queue avail usedr p' c' = dev_queue p' (far c')"
    using Cons.hyps(1) [OF c1(4) [symmetric] c1(3)] by blast
  have "(link_step K avail usedr D p p')\<^sup>*\<^sup>* c c'"
    using t(1) c1(1) c'(1) by (meson converse_rtranclp_into_rtranclp)
  moreover have "as_buffer avail usedr p' c' = as_buffer avail usedr p' c"
    using c'(2) c1(2) t(4) by (simp add: as_buffer_def link_queue_def)
  ultimately show ?case using c' by blast
qed

lemma far_take:
  assumes "far_ok K avail usedr p dst [] t" and "dev_queue p t = m # ms"
  shows "\<exists>t'. rpmsg_eptdev_read_iter True [] (\<lambda>u. u) True (length m) p t = Returns (int (length m), m, t')"
proof -
  obtain e where e: "listens K t dst p e" "ed_ept e \<noteq> None" using assms(1) unfolding far_ok_def by blast
  then have d: "eptdevs t p = Some e" by (simp add: listens_def)
  have q: "ed_queue e = m # ms" using assms(2) d by (simp add: dev_queue_def)
  show ?thesis using e(2) by (simp add: rpmsg_eptdev_read_iter_def eptdev_take_def d q Let_def)
qed

lemma read_all:
  fixes c :: "('q, 'i) link"
  assumes "link_ok K queued cb_on avail usedr p p' dst c" and "link_queue avail usedr p' c = dev_queue p' (far c)"
  shows "\<exists>c'. (link_step K avail usedr D p p')\<^sup>*\<^sup>* c c' \<and> written c' = written c \<and> link_queue avail usedr p' c' = [] \<and>
    received c' = received c @ map (\<lambda>m. (length m, m)) (link_queue avail usedr p' c)"
  using assms
proof (induction "dev_queue p' (far c)" arbitrary: c)
  case Nil
  then show ?case by (intro exI [of _ c]) simp
next
  case (Cons m ms)
  have far: "far_ok K avail usedr p' dst [] (far c)" using Cons.prems(1) by (simp add: link_ok_def)
  obtain t where t: "rpmsg_eptdev_read_iter True [] (\<lambda>u. u) True (length m) p' (far c) = Returns (int (length m), m, t)"
    using far_take [OF far Cons.hyps(2) [symmetric]] by blast
  let ?c = "c\<lparr>far := t, received := received c @ [(length m, m)]\<rparr>"
  have step: "link_step K avail usedr D p p' c ?c" using link_step.reads [OF disjI1 [OF TrueI] t] by simp
  have q: "dev_queue p' (far c) = m # dev_queue p' t" "far_queue usedr p' [] (far c) = m # far_queue usedr p' [] t"
    using far_read [OF far disjI1 [OF TrueI] t] Cons.hyps(2) by auto
  then have lq: "link_queue avail usedr p' c = m # link_queue avail usedr p' ?c" by (simp add: link_queue_def)
  have "ms = dev_queue p' (far ?c)" and "link_queue avail usedr p' ?c = dev_queue p' (far ?c)"
    using q(1) lq Cons.hyps(2) Cons.prems(2) by simp_all
  from Cons.hyps(1) [OF this(1) conjunct1 [OF link_step_ok [OF Cons.prems(1) step]] this(2)]
  obtain c' where "(link_step K avail usedr D p p')\<^sup>*\<^sup>* ?c c'" "written c' = written c" "link_queue avail usedr p' c' = []"
    "received c' = received ?c @ map (\<lambda>m. (length m, m)) (link_queue avail usedr p' ?c)" by auto
  with lq show ?case by (intro exI [of _ c']) (simp add: converse_rtranclp_into_rtranclp [where r = "link_step K avail usedr D p p'", OF step])
qed

section \<open>A small link\<close>

text \<open>
  The sender of EndToEnd and a receiver at address 7 with two buffers on its receive ring, on the
  queues of KernelApi.
\<close>

definition sim_avail :: "sim_vq \<Rightarrow> addr list" where
  "sim_avail q = map fst (sv_avail q)"

definition sim_far :: "(sim_vq, (u32 \<times> addr) list) char_bus" where
  "sim_far = with_rvq (sim_queue\<lparr>sv_avail := [(4096, 512), (4608, 512)]\<rparr>) (sim_receiver [])"

definition sim_link :: "(sim_vq, (u32 \<times> addr) list) link" where
  "sim_link = \<lparr>near = sim_sender, far = sim_far, written = [], received = []\<rparr>"

lemma sim_ring_of: "ring_of sim_kernel q = unat (of_nat (sv_size q) :: u32)"
  by (simp add: ring_of_def sim_kernel_def)

lemma sim_add_ring: "add_ring_law sim_add_buf (ring_of sim_kernel) sim_avail sv_used"
proof -
  have "unat (of_nat n :: u32) \<le> n" for n by (simp add: unsigned_of_nat)
  then have fits: "m < n" if "m < unat (of_nat n :: u32)" for m n using that order_less_le_trans by blast
  show ?thesis
    unfolding add_ring_law_def sim_add_buf_def by (auto simp: sim_avail_def tokens_def sim_ring_of dest: fits split: if_splits)
qed

lemma sim_ring_laws: "ring_laws sim_kernel sim_queued sv_cb sim_avail sv_used"
proof -
  have "virtqueue_add_inbuf sim_kernel = sim_add_buf" "virtqueue_add_outbuf sim_kernel = sim_add_buf"
    by (simp_all add: sim_kernel_def)
  moreover have "avail = sim_avail \<Longrightarrow> virtqueue_get_buf sim_kernel q = (r, q') \<Longrightarrow> avail q' = avail q \<and> sv_size q' = sv_size q \<and>
      (case r of None \<Rightarrow> sv_used q = [] \<and> sv_used q' = [] | Some b \<Rightarrow> sv_used q = b # sv_used q')" for avail q r q'
    by (auto simp: sim_kernel_def sim_get_buf_def sim_avail_def split: list.splits)
  moreover have "virtqueue_kick sim_kernel q = q" for q by (simp add: sim_kernel_def)
  ultimately show ?thesis
    by (simp add: ring_laws_def sim_virtqueue_laws sim_add_ring sim_ring_of) (simp add: sim_queued_def sim_avail_def tokens_def)
qed

lemma sim_device_runs: "device_runs sim_kernel sim_avail sv_used"
  unfolding device_runs_def
proof (intro allI impI)
  fix q a as n assume "sim_avail q = a # as"
  then show "\<exists>q'. uses sim_kernel sim_avail sv_used q a n q'"
    by (intro exI [of _ "q\<lparr>sv_avail := tl (sv_avail q), sv_used := sv_used q @ [(a, n)]\<rparr>"])
      (auto simp: uses_def sim_avail_def sim_ring_of)
qed

lemma sim_near_ok: "near_ok sim_queued sim_avail sv_used 20 7 sim_sender"
proof -
  have "vrp sim_sender = sim_vrp" "svq sim_vrp = sim_queue" by (simp_all add: sim_sender_def sim_vrp_def)
  moreover have "tokens sim_avail sv_used sim_queue = []" "sim_avail sim_queue = []"
    by (simp_all add: tokens_def sim_avail_def sim_queue_def)
  moreover have "sends_to 20 7 sim_sender" by (simp add: sends_to_def sim_sender_def sim_ept_def sim_rpdev_def)
  ultimately show ?thesis using sim_tx_wf by (simp add: near_ok_def)
qed

lemma sim_far_ok: "far_ok sim_kernel sim_avail sv_used 20 7 [] sim_far"
proof -
  have l: "listens sim_kernel sim_far 7 20 (sim_eptdev\<lparr>ed_ept := Some 2\<rparr>)"
    using sim_listens [of "[]"] by (simp add: listens_def sim_far_def bound_at_def)
  have q: "rvq_of sim_far = sim_queue\<lparr>sv_avail := [(4096, 512), (4608, 512)]\<rparr>" "rbufs (vrp sim_far) = 4096"
    by (simp_all add: sim_far_def sim_receiver_def sim_vrp_def)
  have t: "tokens sim_avail sv_used (rvq_of sim_far) = [4096, 4608]" "sv_used (rvq_of sim_far) = []"
    "ring_of sim_kernel (rvq_of sim_far) = 4"
    by (simp_all add: q sim_ring_of tokens_def sim_avail_def sim_queue_def)
  have "4096 \<in> range (\<lambda>k::nat. 4096 + 512 * k)" "4608 \<in> range (\<lambda>k::nat. 4096 + 512 * k)"
    by (auto intro: image_eqI [of _ _ 0] image_eqI [of _ _ 1])
  then show ?thesis unfolding far_ok_def t q(2) using l by (auto simp: bufs_ok_def pool_def msgs_ok_def)
qed

lemma sim_link_queue: "dev_queue 20 sim_far = []" "sv_used (rvq_of sim_far) = []" "sim_avail (svq_of sim_sender) = []"
  by (simp_all add: dev_queue_def sim_far_def sim_receiver_def sim_eptdev_def sim_queue_def sim_sender_def sim_avail_def sim_vrp_def)

lemma sim_link_start: "link_start sim_kernel sim_queued sv_cb sim_avail sv_used 20 20 7 sim_link"
  by (simp add: link_start_def link_ok_def sim_ring_laws sim_link_def sim_near_ok sim_far_ok link_queue_def
      far_queue_def near_queue_def sim_link_queue)

text \<open>After one write.\<close>

lemma sim_link_written:
  "\<exists>s. reachable (link_start sim_kernel sim_queued sv_cb sim_avail sv_used 20 20 7)
     (link_step sim_kernel sim_avail sv_used D 20 20) (sim_link\<lparr>near := s, written := [[1, 2, 3, 4]]\<rparr>)"
proof -
  have four: "length [1 :: u8, 2, 3, 4] = 4" and n: "near sim_link = sim_sender" by (simp_all add: sim_link_def)
  obtain s where w: "rpmsg_eptdev_write_iter (virtio_endpoint_ops sim_kernel sim_waits) False True (Some [1, 2, 3, 4])
      (length [1 :: u8, 2, 3, 4]) False 20 (near sim_link) = Returns (4, s)"
    using sim_write unfolding four n by blast
  have "fst (get_a_tx_buf sim_kernel (vrp (near sim_link))) \<noteq> None"
    using sim_first_tx_buf by (simp add: sim_link_def sim_sender_def)
  from link_step.writes [OF _ disjI2 [OF refl] disjI2 [OF this] w, of sim_avail sv_used D 20]
  have "link_step sim_kernel sim_avail sv_used D 20 20 sim_link (sim_link\<lparr>near := s, written := [[1, 2, 3, 4]]\<rparr>)"
    by (simp add: sim_link_def)
  moreover have "reachable (link_start sim_kernel sim_queued sv_cb sim_avail sv_used 20 20 7)
      (link_step sim_kernel sim_avail sv_used D 20 20) sim_link" by (rule reachable.start) (rule sim_link_start)
  ultimately show ?thesis by (intro exI) (rule reachable.next_state)
qed

section \<open>Properties\<close>

text \<open>
  C2. The link of two processors is one first in first out buffer: whatever the writes, the
  transport, the interrupts and the reads do and in whatever order, it refines the buffer, and
  what was written with success is, in the order of the writes, what has been read, cut to
  the room of each reader, then what the endpoint device holds, then what the used buffers of the
  receive ring hold, then what the slots of the transmit ring hold. Nothing is lost, doubled,
  reordered or overwritten on the way.
\<close>

theorem link_is_fifo:
  assumes "reachable (link_start K queued cb_on avail usedr p p' dst) (link_step K avail usedr D p p') c"
  shows "reachable buffer_empty buffer_step (as_buffer avail usedr p' c) \<and>
    (\<exists>ms. list_all2 cut (received c) ms \<and>
      written c = ms @ dev_queue p' (far c) @ map (payload (mem (far c)) \<circ> fst) (usedr (rvq (vrp (far c)))) @
        map (payload (mem (near c))) (avail (svq (vrp (near c)))))"
proof -
  note r = link.reachable_abs [OF assms]
  from fifo.reachable_inv [OF r] r show ?thesis
    by (auto simp: in_order_def as_buffer_def link_queue_def far_queue_def near_queue_def)
qed

theorem link_is_fifo_witness:
  "\<exists>s. reachable (link_start sim_kernel sim_queued sv_cb sim_avail sv_used 20 20 7)
     (link_step sim_kernel sim_avail sv_used quiet_driver_core 20 20) (sim_link\<lparr>near := s, written := [[1, 2, 3, 4]]\<rparr>) \<and>
     map (payload (mem s)) (sim_avail (svq (vrp s))) = [[1, 2, 3, 4]]"
proof -
  obtain s where r: "reachable (link_start sim_kernel sim_queued sv_cb sim_avail sv_used 20 20 7)
     (link_step sim_kernel sim_avail sv_used quiet_driver_core 20 20) (sim_link\<lparr>near := s, written := [[1, 2, 3, 4]]\<rparr>)"
    using sim_link_written by blast
  from link_is_fifo [OF r] show ?thesis
    using r sim_link_queue(1,2) by (intro exI [of _ s]) (simp add: sim_link_def)
qed

text \<open>
  C3. The link never gets stuck: as long as the other side goes on using buffers, every state
  of the link can be continued, without another write, to one in which nothing is on
  its way and the readers have got every message that was, whole and in order.
\<close>

theorem link_drains:
  assumes "reachable (link_start K queued cb_on avail usedr p p' dst) (link_step K avail usedr D p p') c"
    and "device_runs K avail usedr"
  shows "\<exists>c'. (link_step K avail usedr D p p')\<^sup>*\<^sup>* c c' \<and> written c' = written c \<and> link_queue avail usedr p' c' = [] \<and>
    received c' = received c @ map (\<lambda>m. (length m, m)) (link_queue avail usedr p' c)"
proof -
  obtain c1 where c1: "(link_step K avail usedr D p p')\<^sup>*\<^sup>* c c1" "as_buffer avail usedr p' c1 = as_buffer avail usedr p' c"
    "link_ok K queued cb_on avail usedr p p' dst c1" "link_queue avail usedr p' c1 = dev_queue p' (far c1)"
    using carry_all [OF link.base.reachable_inv [OF assms(1)] assms(2)] by blast
  obtain c' where c': "(link_step K avail usedr D p p')\<^sup>*\<^sup>* c1 c'" "written c' = written c1" "link_queue avail usedr p' c' = []"
    "received c' = received c1 @ map (\<lambda>m. (length m, m)) (link_queue avail usedr p' c1)"
    using read_all [OF c1(3,4)] by blast
  have "link_queue avail usedr p' c1 = link_queue avail usedr p' c" "written c1 = written c" "received c1 = received c"
    using c1(2) by (simp_all add: as_buffer_def)
  with c' rtranclp_trans [OF c1(1) c'(1)] show ?thesis by (intro exI [of _ c']) simp
qed

theorem link_drains_witness:
  "\<exists>s c'. (link_step sim_kernel sim_avail sv_used quiet_driver_core 20 20)\<^sup>*\<^sup>*
     (sim_link\<lparr>near := s, written := [[1, 2, 3, 4]]\<rparr>) c' \<and> received c' = [(4, [1, 2, 3, 4])]"
proof -
  obtain s where r: "reachable (link_start sim_kernel sim_queued sv_cb sim_avail sv_used 20 20 7)
     (link_step sim_kernel sim_avail sv_used quiet_driver_core 20 20) (sim_link\<lparr>near := s, written := [[1, 2, 3, 4]]\<rparr>)"
    using sim_link_written by blast
  let ?c = "sim_link\<lparr>near := s, written := [[1, 2, 3, 4]]\<rparr>"
  have "link_queue sim_avail sv_used 20 ?c = [[1, 2, 3, 4]]"
    using fifo.reachable_inv [OF link.reachable_abs [OF r]] by (simp add: in_order_def as_buffer_def sim_link_def)
  with link_drains [OF r sim_device_runs] obtain c' where
    "(link_step sim_kernel sim_avail sv_used quiet_driver_core 20 20)\<^sup>*\<^sup>* ?c c'"
    "received c' = received ?c @ map (\<lambda>m. (length m, m)) [[1, 2, 3, 4]]" by auto
  moreover have "received ?c = []" by (simp add: sim_link_def)
  ultimately show ?thesis by (intro exI [of _ s] exI [of _ c']) (simp add: eval_nat_numeral)
qed

end
