(* ===== verification/TxWakeup.thy ===== *)
theory TxWakeup
  imports TxSenders
begin

text \<open>
  The wake-up of the senders. In TxSenders a sleeper polls whenever it likes; here it sleeps
  on the wait queue \<open>sendq\<close> until the transmit interrupt calls \<open>rpmsg_xmit_done\<close>, a timeout or a
  signal comes, or the wait looks again on its own. The remote processor raises the
  interrupt when it uses a buffer while the callbacks are on. This system refines that of
  TxSenders, and no wake-up is lost in it.
\<close>

section \<open>The system\<close>

text \<open>\<open>parked\<close> are the threads on the wait queue; \<open>irq\<close> is an interrupt that is not handled yet.\<close>

record ('q, 'i) wk_system =
  wk_tx :: "('q, 'i) tx_system"
  parked :: "nat set"
  irq :: bool

definition wk_vrp :: "('q, 'i) wk_system \<Rightarrow> ('q, 'i) virtproc_info" where
  "wk_vrp w = vrp (tx_bus (wk_tx w))"

definition pc_of :: "('q, 'i) wk_system \<Rightarrow> nat \<Rightarrow> sender" where
  "pc_of w = sender_of (wk_tx w)"

definition moves :: "('q, 'i) wk_system \<Rightarrow> ('q, 'i) virtproc_info \<Rightarrow> nat \<Rightarrow> sender \<Rightarrow> nat set \<Rightarrow> ('q, 'i) wk_system" where
  "moves w v t pc ps = w\<lparr>wk_tx := with_vrp (wk_tx w) v t pc, parked := ps\<rparr>"

text \<open>\<open>wake_up_interruptible\<close> takes every thread off the queue: none of them waits exclusively.\<close>

definition rpmsg_xmit_done :: "('q, 'i) wk_system \<Rightarrow> ('q, 'i) wk_system" where
  "rpmsg_xmit_done w = w\<lparr>parked := {}\<rparr>"

inductive wk_step ::
  "('q, 'i) kernel \<Rightarrow> ('q \<Rightarrow> 'q \<Rightarrow> bool) \<Rightarrow> ('q \<Rightarrow> nat) \<Rightarrow> ('q \<Rightarrow> bool) \<Rightarrow>
   ('q, 'i) wk_system \<Rightarrow> ('q, 'i) wk_system \<Rightarrow> bool"
  for K :: "('q, 'i) kernel" and remote :: "'q \<Rightarrow> 'q \<Rightarrow> bool" and used :: "'q \<Rightarrow> nat" and cb_on :: "'q \<Rightarrow> bool" where
  grab: "pc_of w t = Idle \<Longrightarrow> get_a_tx_buf K (wk_vrp w) = (Some a, v) \<Longrightarrow>
    wk_step K remote used cb_on w (moves w v t (Owner a) (parked w))"
| grab_wait: "pc_of w t = Idle \<Longrightarrow> get_a_tx_buf K (wk_vrp w) = (None, v) \<Longrightarrow>
    wk_step K remote used cb_on w (moves w v t Must_sleep (parked w))"
| grab_try: "pc_of w t = Idle \<Longrightarrow> get_a_tx_buf K (wk_vrp w) = (None, v) \<Longrightarrow>
    wk_step K remote used cb_on w (moves w v t (Finished (- ENOMEM)) (parked w))"
| upref: "pc_of w t = Must_sleep \<Longrightarrow>
    wk_step K remote used cb_on w (moves w (rpmsg_upref_sleepers K (wk_vrp w)) t Asleep (parked w))"
| look_some: "pc_of w t = Asleep \<Longrightarrow> get_a_tx_buf K (wk_vrp w) = (Some a, v) \<Longrightarrow>
    wk_step K remote used cb_on w (moves w v t (Woken a) (parked w - {t}))"
| look_none: "pc_of w t = Asleep \<Longrightarrow> get_a_tx_buf K (wk_vrp w) = (None, v) \<Longrightarrow>
    wk_step K remote used cb_on w (moves w v t Asleep (insert t (parked w)))"
| time_out: "pc_of w t = Asleep \<Longrightarrow> t \<in> parked w \<Longrightarrow>
    wk_step K remote used cb_on w (moves w (wk_vrp w) t Slept_out (parked w - {t}))"
| signal: "pc_of w t = Asleep \<Longrightarrow> t \<in> parked w \<Longrightarrow>
    wk_step K remote used cb_on w (moves w (wk_vrp w) t Interrupted (parked w - {t}))"
| downref_some: "pc_of w t = Woken a \<Longrightarrow>
    wk_step K remote used cb_on w (moves w (rpmsg_downref_sleepers K (wk_vrp w)) t (Owner a) (parked w))"
| downref_timeout: "pc_of w t = Slept_out \<Longrightarrow>
    wk_step K remote used cb_on w
      (moves w (rpmsg_downref_sleepers K (wk_vrp w)) t (Finished (- ERESTARTSYS)) (parked w))"
| downref_signal: "pc_of w t = Interrupted \<Longrightarrow>
    wk_step K remote used cb_on w (moves w (rpmsg_downref_sleepers K (wk_vrp w)) t Must_sleep (parked w))"
| submit: "pc_of w t = Owner a \<Longrightarrow> send_tx_buf K src dst data len a (tx_bus (wk_tx w)) = (err, b) \<Longrightarrow>
    wk_step K remote used cb_on w
      (w\<lparr>wk_tx := (wk_tx w)\<lparr>tx_bus := b, sender_of := (sender_of (wk_tx w))(t := Finished err),
         lost_bufs := (if err = 0 then lost_bufs (wk_tx w) else insert a (lost_bufs (wk_tx w)))\<rparr>\<rparr>)"
| leave: "pc_of w t = Finished err \<Longrightarrow>
    wk_step K remote used cb_on w (moves w (wk_vrp w) t Idle (parked w))"
| remote_moves: "remote (svq (wk_vrp w)) q \<Longrightarrow>
    wk_step K remote used cb_on w
      (w\<lparr>wk_tx := (wk_tx w)\<lparr>tx_bus := (tx_bus (wk_tx w))\<lparr>vrp := (wk_vrp w)\<lparr>svq := q\<rparr>\<rparr>\<rparr>,
         irq := irq w \<or> cb_on (svq (wk_vrp w)) \<and> used (svq (wk_vrp w)) < used q\<rparr>)"
| interrupt: "irq w \<Longrightarrow> wk_step K remote used cb_on w ((rpmsg_xmit_done w)\<lparr>irq := False\<rparr>)"

text \<open>
  What the calls do to the number of used buffers: fetching takes one away and tells
  when there is none; adding, kicking and switching the callbacks leave it alone.
\<close>

definition tx_used_law :: "('q, 'i) kernel \<Rightarrow> ('q \<Rightarrow> nat) \<Rightarrow> bool" where
  "tx_used_law K used \<longleftrightarrow>
     (\<forall>q r q'. virtqueue_get_buf K q = (r, q') \<longrightarrow>
        (case r of None \<Rightarrow> used q = 0 \<and> used q' = 0 | Some b \<Rightarrow> used q = Suc (used q'))) \<and>
     (\<forall>q sg t err q'. virtqueue_add_outbuf K q sg t = (err, q') \<longrightarrow> used q' = used q) \<and>
     (\<forall>q. used (virtqueue_kick K q) = used q) \<and>
     (\<forall>q. used (virtqueue_enable_cb K q) = used q) \<and> (\<forall>q. used (virtqueue_disable_cb K q) = used q)"

definition wk_start ::
  "('q, 'i) kernel \<Rightarrow> ('q \<Rightarrow> 'q \<Rightarrow> bool) \<Rightarrow> ('q \<Rightarrow> addr multiset) \<Rightarrow> ('q \<Rightarrow> nat) \<Rightarrow> ('q \<Rightarrow> bool) \<Rightarrow>
   ('q, 'i) wk_system \<Rightarrow> bool" where
  "wk_start K remote queued used cb_on w \<longleftrightarrow>
     tx_start K remote queued cb_on (wk_tx w) \<and> tx_used_law K used \<and> parked w = {} \<and> \<not> irq w"

section \<open>Refinement\<close>

lemma wk_tx_moves [simp]:
  "wk_tx (moves w v t pc ps) = with_vrp (wk_tx w) v t pc" "parked (moves w v t pc ps) = ps" "irq (moves w v t pc ps) = irq w"
  by (simp_all add: moves_def)

lemma wk_step_refines:
  assumes "wk_step K remote used cb_on w w'"
  shows "wk_tx w' = wk_tx w \<or> tx_step K remote (wk_tx w) (wk_tx w')"
  using assms
proof cases
  case (submit t a src dst data len err b)
  then have "tx_step K remote (wk_tx w) ((wk_tx w)\<lparr>tx_bus := b, sender_of := (sender_of (wk_tx w))(t := Finished err),
      lost_bufs := (if err = 0 then lost_bufs (wk_tx w) else insert a (lost_bufs (wk_tx w)))\<rparr>)"
    by (intro tx_step.submit) (simp_all add: pc_of_def)
  with submit(1) show ?thesis by simp
qed (auto simp: wk_vrp_def pc_of_def rpmsg_xmit_done_def intro: tx_step.intros)

interpretation wk: simulated_invariant "wk_start K remote queued used cb_on" "wk_step K remote used cb_on"
  "tx_start K remote queued cb_on" "tx_step K remote" wk_tx "tx_inv K remote queued cb_on"
  for K :: "('q, 'i) kernel" and remote queued used cb_on
proof
  show "tx_start K remote queued cb_on (wk_tx w)" if "wk_start K remote queued used cb_on w" for w
    using that by (simp add: wk_start_def)
  show "wk_tx w' = wk_tx w \<or> tx_step K remote (wk_tx w) (wk_tx w')" if "wk_step K remote used cb_on w w'" for w w'
    by (rule wk_step_refines [OF that])
qed

section \<open>No wake-up is lost\<close>

text \<open>A buffer that was never used, the first choice of \<open>get_a_tx_buf\<close>.\<close>

definition fresh_left :: "('q, 'i) virtproc_info \<Rightarrow> bool" where
  "fresh_left v \<longleftrightarrow> u32_of_int (last_sbuf v) < num_bufs v div 2"

text \<open>A change after which there is no buffer to get that was not there before.\<close>

definition no_more_bufs :: "('q \<Rightarrow> nat) \<Rightarrow> ('q, 'i) virtproc_info \<Rightarrow> ('q, 'i) virtproc_info \<Rightarrow> bool" where
  "no_more_bufs used v v' \<longleftrightarrow> (\<not> fresh_left v \<longrightarrow> \<not> fresh_left v') \<and> used (svq v') \<le> used (svq v)"

lemma no_more_bufs_refl [simp]: "no_more_bufs used v v"
  by (simp add: no_more_bufs_def)

lemma tx_used_lawD:
  assumes "tx_used_law K used"
  shows "virtqueue_get_buf K q = (None, q') \<Longrightarrow> used q = 0 \<and> used q' = 0"
    and "virtqueue_get_buf K q = (Some b, q') \<Longrightarrow> used q = Suc (used q')"
    and "virtqueue_add_outbuf K q sg t = (err, q') \<Longrightarrow> used q' = used q"
    and "used (virtqueue_kick K q) = used q" and "used (virtqueue_enable_cb K q) = used q"
    and "used (virtqueue_disable_cb K q) = used q"
proof -
  have get: "\<forall>q r q'. virtqueue_get_buf K q = (r, q') \<longrightarrow>
        (case r of None \<Rightarrow> used q = 0 \<and> used q' = 0 | Some b \<Rightarrow> used q = Suc (used q'))"
    using assms by (simp add: tx_used_law_def)
  show "virtqueue_get_buf K q = (None, q') \<Longrightarrow> used q = 0 \<and> used q' = 0"
    and "virtqueue_get_buf K q = (Some b, q') \<Longrightarrow> used q = Suc (used q')"
    using get [rule_format, of q _ q'] by fastforce+
qed (use assms in \<open>simp_all add: tx_used_law_def\<close>)

lemma get_no_more:
  assumes law: "tx_used_law K used" and get: "get_a_tx_buf K v = (r, v')"
  shows "no_more_bufs used v v'" and "r = None \<Longrightarrow> \<not> fresh_left v' \<and> used (svq v') = 0"
    and "r \<noteq> None \<Longrightarrow> fresh_left v \<or> 0 < used (svq v)"
proof -
  obtain b q where vq: "virtqueue_get_buf K (svq v) = (b, q)" by fastforce
  have "no_more_bufs used v v' \<and> (r = None \<longrightarrow> \<not> fresh_left v' \<and> used (svq v') = 0) \<and>
      (r \<noteq> None \<longrightarrow> fresh_left v \<or> 0 < used (svq v))"
  proof (cases "fresh_left v")
    case True
    with get show ?thesis by (auto simp: get_a_tx_buf_def fresh_left_def no_more_bufs_def)
  next
    case False
    then have v': "v' = v\<lparr>svq := q\<rparr>" and r: "r = map_option fst b"
      using get vq by (simp_all add: get_a_tx_buf_def fresh_left_def)
    have "\<not> fresh_left v'" using False by (simp add: v' fresh_left_def)
    then show ?thesis
      using False tx_used_lawD(1,2) [OF law, of "svq v"] vq by (cases b) (auto simp: v' r no_more_bufs_def)
  qed
  then show "no_more_bufs used v v'" and "r = None \<Longrightarrow> \<not> fresh_left v' \<and> used (svq v') = 0"
    and "r \<noteq> None \<Longrightarrow> fresh_left v \<or> 0 < used (svq v)" by auto
qed

lemma sleepers_no_more:
  assumes "tx_used_law K used"
  shows "no_more_bufs used v (rpmsg_upref_sleepers K v)" and "no_more_bufs used v (rpmsg_downref_sleepers K v)"
  using tx_used_lawD(5,6) [OF assms]
  by (simp_all add: no_more_bufs_def fresh_left_def rpmsg_upref_sleepers_def rpmsg_downref_sleepers_def Let_def)

lemma send_no_more:
  assumes law: "tx_used_law K used" and send: "send_tx_buf K src dst data len a s = (err, s')"
  shows "no_more_bufs used (vrp s) (vrp s')"
proof -
  obtain e q where add: "virtqueue_add_outbuf K (svq (vrp s))
      (rpmsg_sg_init K a (ucast (of_nat sizeof_rpmsg_hdr + size_t_of_int len))) a = (e, q)" by fastforce
  show ?thesis
    using send add tx_used_lawD(3) [OF law add] tx_used_lawD(4) [OF law]
    by (auto simp: send_tx_buf_def Let_def no_more_bufs_def fresh_left_def split: if_splits)
qed

text \<open>
  The invariant: only sleepers are on the queue, and while there is one, no fresh buffer is
  left and a used buffer that nobody has fetched has its interrupt still to come.
\<close>

definition wake_inv :: "('q \<Rightarrow> nat) \<Rightarrow> ('q, 'i) wk_system \<Rightarrow> bool" where
  "wake_inv used w \<longleftrightarrow> (\<forall>t\<in>parked w. pc_of w t = Asleep) \<and>
     (parked w \<noteq> {} \<longrightarrow> \<not> fresh_left (wk_vrp w) \<and> (0 < used (svq (wk_vrp w)) \<longrightarrow> irq w))"

lemma wk_fields_moves [simp]:
  "wk_vrp (moves w v t pc ps) = v" "pc_of (moves w v t pc ps) = (pc_of w)(t := pc)"
  by (simp_all add: wk_vrp_def pc_of_def)

lemma wake_inv_moves:
  assumes "wake_inv used w" and "no_more_bufs used (wk_vrp w) v" and "ps \<subseteq> parked w" and "t \<notin> ps"
  shows "wake_inv used (moves w v t pc ps)"
  using assms by (fastforce simp: wake_inv_def no_more_bufs_def)

lemma wake_inv_step:
  assumes law: "tx_used_law K used" and cb: "\<And>t. sleeping (pc_of w t) \<Longrightarrow> cb_on (svq (wk_vrp w))"
    and inv: "wake_inv used w" and step: "wk_step K remote used cb_on w w'"
  shows "wake_inv used w'"
proof -
  have out: "t \<notin> parked w" if "pc_of w t \<noteq> Asleep" for t using inv that by (auto simp: wake_inv_def)
  from step show ?thesis
  proof cases
    case (grab t a v)
    then show ?thesis using wake_inv_moves [OF inv get_no_more(1) [OF law]] out [of t] by simp
  next
    case (grab_wait t v)
    then show ?thesis using wake_inv_moves [OF inv get_no_more(1) [OF law]] out [of t] by simp
  next
    case (grab_try t v)
    then show ?thesis using wake_inv_moves [OF inv get_no_more(1) [OF law]] out [of t] by simp
  next
    case (look_some t a v)
    then show ?thesis using wake_inv_moves [OF inv get_no_more(1) [OF law]] by blast
  next
    case (look_none t v)
    then show ?thesis using get_no_more(2) [OF law look_none(3)] inv by (auto simp: wake_inv_def)
  next
    case (submit t a src dst data len err b)
    have "no_more_bufs used (wk_vrp w) (vrp b)" using send_no_more [OF law submit(3)] by (simp add: wk_vrp_def)
    then show ?thesis
      using inv out [of t] submit(1,2) by (auto simp: wake_inv_def no_more_bufs_def wk_vrp_def pc_of_def)
  next
    case (remote_moves q)
    have "cb_on (svq (wk_vrp w))" if "parked w \<noteq> {}"
    proof -
      from that obtain t where "t \<in> parked w" by blast
      with inv have "pc_of w t = Asleep" by (simp add: wake_inv_def)
      then show ?thesis by (intro cb [of t]) simp
    qed
    moreover have "wk_vrp w' = (wk_vrp w)\<lparr>svq := q\<rparr>" "pc_of w' = pc_of w" "parked w' = parked w"
        "irq w' = (irq w \<or> cb_on (svq (wk_vrp w)) \<and> used (svq (wk_vrp w)) < used q)"
      using remote_moves(1) by (simp_all add: wk_vrp_def pc_of_def)
    ultimately show ?thesis using inv by (auto simp: wake_inv_def fresh_left_def)
  next
    case interrupt
    then show ?thesis by (simp add: wake_inv_def rpmsg_xmit_done_def)
  qed (use out in \<open>auto intro!: wake_inv_moves [OF inv] sleepers_no_more [OF law]\<close>)
qed

definition wk_inv ::
  "('q, 'i) kernel \<Rightarrow> ('q \<Rightarrow> 'q \<Rightarrow> bool) \<Rightarrow> ('q \<Rightarrow> addr multiset) \<Rightarrow> ('q \<Rightarrow> nat) \<Rightarrow> ('q \<Rightarrow> bool) \<Rightarrow>
   ('q, 'i) wk_system \<Rightarrow> bool" where
  "wk_inv K remote queued used cb_on w \<longleftrightarrow>
     tx_inv K remote queued cb_on (wk_tx w) \<and> tx_used_law K used \<and> wake_inv used w"

lemma sleeping_cb_on:
  assumes "tx_inv K remote queued cb_on (wk_tx w)" and "sleeping (pc_of w t)"
  shows "cb_on (svq (wk_vrp w))"
proof -
  have "{t. sleeping (sender_of (wk_tx w) t)} \<noteq> {}" using assms(2) by (auto simp: pc_of_def)
  then show ?thesis using assms(1) by (simp add: tx_inv_def sleep_inv_def wk_vrp_def)
qed

interpretation wkinv: inductive_invariant "wk_start K remote queued used cb_on" "wk_step K remote used cb_on"
  "wk_inv K remote queued used cb_on"
  for K :: "('q, 'i) kernel" and remote queued used cb_on
proof
  show "wk_inv K remote queued used cb_on w" if "wk_start K remote queued used cb_on w" for w
    using that wk.concrete.inv_init [OF that] by (simp add: wk_inv_def wk_start_def wake_inv_def)
  show "wk_inv K remote queued used cb_on w'" if "wk_inv K remote queued used cb_on w"
    and step: "wk_step K remote used cb_on w w'" for w w'
  proof -
    have inv: "tx_inv K remote queued cb_on (wk_tx w)" "tx_used_law K used" "wake_inv used w"
      using that(1) by (simp_all add: wk_inv_def)
    have "wake_inv used w'"
      by (rule wake_inv_step [OF inv(2) _ inv(3) step]) (rule sleeping_cb_on [OF inv(1)])
    then show ?thesis using wk.concrete.inv_step [OF inv(1) step] inv(2) by (simp add: wk_inv_def)
  qed
qed

interpretation sendq: wait_queue "wk_start K remote queued used cb_on" "wk_step K remote used cb_on"
  "wk_inv K remote queued used cb_on" parked "\<lambda>w. fst (get_a_tx_buf K (wk_vrp w)) \<noteq> None" irq
  for K :: "('q, 'i) kernel" and remote queued used cb_on
proof
  fix w :: "('q, 'i) wk_system" and t
  assume inv: "wk_inv K remote queued used cb_on w" and t: "t \<in> parked w"
    and "fst (get_a_tx_buf K (wk_vrp w)) \<noteq> None"
  then have "fresh_left (wk_vrp w) \<or> 0 < used (svq (wk_vrp w))"
    using get_no_more(3) [of K used "wk_vrp w" "fst (get_a_tx_buf K (wk_vrp w))" "snd (get_a_tx_buf K (wk_vrp w))"] by (simp add: wk_inv_def)
  with inv t show "irq w" by (auto simp: wk_inv_def wake_inv_def)
qed

text \<open>A sender that found the single buffer taken, and sleeps on the queue.\<close>

definition sim_wk :: "(sim_vq, (u32 \<times> addr) list) tx_system \<Rightarrow> nat set \<Rightarrow> (sim_vq, (u32 \<times> addr) list) wk_system" where
  "sim_wk s ps = \<lparr>wk_tx = s, parked = ps, irq = False\<rparr>"

definition sim_parked :: "(sim_vq, (u32 \<times> addr) list) wk_system" where
  "sim_parked = sim_wk (with_vrp sim_asleep (vrp (tx_bus sim_asleep)) 1 Asleep) {1}"

lemma sim_tx_used_law: "tx_used_law sim_kernel (\<lambda>q. length (sv_used q))"
  unfolding tx_used_law_def by (auto simp: sim_defs split: if_splits list.splits)

lemma sim_wk_fields [simp]:
  "wk_vrp (sim_wk s ps) = vrp (tx_bus s)" "pc_of (sim_wk s ps) = sender_of s" "parked (sim_wk s ps) = ps"
  "moves (sim_wk s ps) v t pc qs = sim_wk (with_vrp s v t pc) qs"
  by (simp_all add: wk_vrp_def pc_of_def sim_wk_def moves_def)

lemma sim_single_start: "tx_start sim_kernel (=) sim_queued sv_cb sim_single"
  by (simp add: tx_start_def sim_env_laws tx_init_def sim_single_def sim_senders_def sim_bus_def tx_wf_def)
     (simp add: sim_vrp_def sim_queue_def sim_queued_def rpmsg_consts)

lemma sim_get_single:
  "get_a_tx_buf sim_kernel (vrp (tx_bus sim_single)) = (Some 6144, sim_vrp\<lparr>num_bufs := 2, last_sbuf := 1\<rparr>)"
  "get_a_tx_buf sim_kernel (sim_vrp\<lparr>num_bufs := 2, last_sbuf := 1\<rparr>) = (None, sim_vrp\<lparr>num_bufs := 2, last_sbuf := 1\<rparr>)"
  by (simp_all add: sim_single_def sim_bus_def get_a_tx_buf_def sim_vrp_def sim_queue_def u32_of_int_def
      sim_kernel_def sim_get_buf_def)

lemma sim_parked_reachable:
  "reachable (wk_start sim_kernel (=) sim_queued (\<lambda>q. length (sv_used q)) sv_cb)
     (wk_step sim_kernel (=) (\<lambda>q. length (sv_used q)) sv_cb) sim_parked"
proof -
  let ?R = "reachable (wk_start sim_kernel (=) sim_queued (\<lambda>q. length (sv_used q)) sv_cb)
     (wk_step sim_kernel (=) (\<lambda>q. length (sv_used q)) sv_cb)"
  let ?v = "sim_vrp\<lparr>num_bufs := 2, last_sbuf := 1\<rparr>"
  let ?s1 = "with_vrp sim_single ?v 0 (Owner 6144)"
  let ?s2 = "with_vrp ?s1 ?v 1 Must_sleep"
  let ?v3 = "rpmsg_upref_sleepers sim_kernel ?v"
  let ?s3 = "with_vrp ?s2 ?v3 1 Asleep"
  have pc: "sender_of sim_single t = Idle" for t by (simp add: sim_single_def sim_senders_def)
  have r0: "?R (sim_wk sim_single {})"
    by (rule reachable.start) (simp add: wk_start_def sim_single_start sim_tx_used_law, simp add: sim_wk_def sim_single_start)
  have r1: "?R (sim_wk ?s1 {})"
    by (rule reachable.next_state [OF r0])
       (use wk_step.grab [where w = "sim_wk sim_single {}" and t = 0 and K = sim_kernel] pc sim_get_single(1) in simp)
  have r2: "?R (sim_wk ?s2 {})"
    by (rule reachable.next_state [OF r1])
       (use wk_step.grab_wait [where w = "sim_wk ?s1 {}" and t = 1 and K = sim_kernel] pc sim_get_single(2) in simp)
  have r3: "?R (sim_wk ?s3 {})"
    by (rule reachable.next_state [OF r2]) (use wk_step.upref [where w = "sim_wk ?s2 {}" and t = 1 and K = sim_kernel] in simp)
  have asleep: "sim_asleep = ?s3" by (simp add: sim_asleep_def Let_def)
  have at: "sender_of sim_asleep 1 = Asleep" "vrp (tx_bus sim_asleep) = ?v3" unfolding asleep by simp_all
  have "get_a_tx_buf sim_kernel ?v3 = (None, ?v3)"
    by (simp add: rpmsg_upref_sleepers_def get_a_tx_buf_def sim_vrp_def sim_queue_def u32_of_int_def sim_kernel_def
        sim_get_buf_def Let_def)
  then show ?thesis
    unfolding sim_parked_def
    by (intro reachable.next_state [OF r3 [folded asleep]])
       (use wk_step.look_none [where w = "sim_wk sim_asleep {}" and t = 1 and K = sim_kernel and v = ?v3] at in simp)
qed

section \<open>Properties\<close>



text \<open>
  C25. No wake-up of a sender is lost: while a thread is on the wait queue it is counted as a
  sleeper and the transmit callbacks are on, and a buffer that could be had by now (that
  \<open>get_a_tx_buf\<close> would return) has its interrupt still to come; the interrupt takes every
  thread off the queue.
\<close>

theorem tx_wakeup_not_lost:
  assumes "reachable (wk_start K remote queued used cb_on) (wk_step K remote used cb_on) w" and "t \<in> parked w"
  shows "pc_of w t = Asleep \<and> 0 < sleepers (wk_vrp w) \<and> cb_on (svq (wk_vrp w)) \<and>
    (fst (get_a_tx_buf K (wk_vrp w)) \<noteq> None \<longrightarrow> irq w) \<and> parked (rpmsg_xmit_done w) = {}"
proof -
  have inv: "tx_inv K remote queued cb_on (wk_tx w)" "tx_used_law K used" "wake_inv used w"
    using wkinv.reachable_inv [OF assms(1)] by (simp_all add: wk_inv_def)
  have asleep: "pc_of w t = Asleep" using inv(3) assms(2) by (simp add: wake_inv_def)
  then have cb: "cb_on (svq (wk_vrp w))" using sleeping_cb_on [OF inv(1), of t] by simp
  have "0 < sleepers (wk_vrp w)" using inv(1) cb by (simp add: tx_inv_def sleep_inv_def wk_vrp_def card_gt_0_iff)
  moreover have "irq w" if "fst (get_a_tx_buf K (wk_vrp w)) \<noteq> None"
    using sendq.no_lost_wakeup [OF assms] that by simp
  ultimately show ?thesis using asleep cb by (simp add: rpmsg_xmit_done_def)
qed

theorem tx_wakeup_not_lost_witness:
  "sv_cb (svq (wk_vrp sim_parked)) \<and> 0 < sleepers (wk_vrp sim_parked)"
proof -
  have "1 \<in> parked sim_parked" by (simp add: sim_parked_def)
  from tx_wakeup_not_lost [OF sim_parked_reachable this] show ?thesis by simp
qed

end
