(* ===== verification/RpmsgStack.thy ===== *)
theory RpmsgStack
  imports VirtioProbe RpmsgChar
begin

text \<open>
  The three modules of the rpmsg stack as they are loaded and unloaded: what rpmsg_core.c,
  virtio_rpmsg_bus.c and rpmsg_char.c register, with every answer of the kernel, and the system
  whose steps load and unload them in the orders the kernel allows.
\<close>

section \<open>Modules, buses and drivers\<close>

datatype stack_module = Core | Bus | Chr

text \<open>A module stands above those whose symbols it uses.\<close>

instantiation stack_module :: order
begin

definition less_eq_stack_module :: "stack_module \<Rightarrow> stack_module \<Rightarrow> bool" where
  "less_eq_stack_module m k \<longleftrightarrow> m = Core \<or> m = k"

definition less_stack_module :: "stack_module \<Rightarrow> stack_module \<Rightarrow> bool" where
  "less_stack_module m k \<longleftrightarrow> m = Core \<and> k \<noteq> Core"

instance
  by standard (auto simp: less_eq_stack_module_def less_stack_module_def)

end

datatype bus_type = Virtio_bus | Rpmsg_bus

record stack_driver =
  drv_name :: string
  drv_bus :: "bus_type option"
  drv_owner :: "stack_module option"

text \<open>The two drivers as their files declare them.\<close>

definition virtio_ipc_driver :: stack_driver where
  "virtio_ipc_driver = \<lparr>drv_name = ''virtio_rpmsg_bus'', drv_bus = None, drv_owner = Some Bus\<rparr>"

definition rpmsg_chrdev_driver :: stack_driver where
  "rpmsg_chrdev_driver = \<lparr>drv_name = ''rpmsg_chrdev'', drv_bus = None, drv_owner = None\<rparr>"

text \<open>
  What is registered: the buses, the drivers, what the character device holds, the devices (in
  the state \<open>st_sys\<close> that the driver core works on), and the modules that are loaded.
\<close>

record 's stack =
  st_sys :: 's
  st_buses :: "bus_type set"
  st_drivers :: "stack_driver set"
  st_char :: "char_resource set"
  st_loaded :: "stack_module set"

text \<open>What the kernel answers while a module loads.\<close>

record stack_answers =
  sa_bus :: int
  sa_virtio :: int
  sa_kzalloc :: "addr option"
  sa_region :: int
  sa_class :: int
  sa_driver :: int

section \<open>Registering\<close>

text \<open>
  The driver core refuses a second driver of the same name on a bus, and stops the
  kernel when the bus of a driver is not registered.
\<close>

definition driver_register :: "int \<Rightarrow> stack_driver \<Rightarrow> 's stack \<Rightarrow> (int \<times> 's stack) outcome" where
  "driver_register ret d s =
     (case drv_bus d of None \<Rightarrow> Faults
      | Some b \<Rightarrow>
          if b \<notin> st_buses s then Faults
          else if \<exists>e\<in>st_drivers s. drv_bus e = Some b \<and> drv_name e = drv_name d then Returns (- EBUSY, s)
          else Returns (ret, if ret = 0 then s\<lparr>st_drivers := insert d (st_drivers s)\<rparr> else s))"

definition driver_unregister :: "stack_driver \<Rightarrow> 's stack \<Rightarrow> 's stack" where
  "driver_unregister d s = s\<lparr>st_drivers := st_drivers s - {d}\<rparr>"

text \<open>The functions of rpmsg_core.c; a driver is known by the fields it was registered with.\<close>

definition on_rpmsg_bus :: "stack_module \<Rightarrow> stack_driver \<Rightarrow> stack_driver" where
  "on_rpmsg_bus owner rpdrv = rpdrv\<lparr>drv_bus := Some Rpmsg_bus, drv_owner := Some owner\<rparr>"

definition register_rpmsg_driver ::
  "int \<Rightarrow> stack_driver \<Rightarrow> stack_module \<Rightarrow> 's stack \<Rightarrow> (int \<times> 's stack) outcome" where
  "register_rpmsg_driver ret rpdrv owner s = driver_register ret (on_rpmsg_bus owner rpdrv) s"

definition unregister_rpmsg_driver :: "stack_driver \<Rightarrow> 's stack \<Rightarrow> 's stack" where
  "unregister_rpmsg_driver rpdrv s = driver_unregister rpdrv s"

definition rpmsg_init :: "int \<Rightarrow> 's stack \<Rightarrow> int \<times> 's stack" where
  "rpmsg_init ret s = (ret, if ret = 0 then s\<lparr>st_buses := insert Rpmsg_bus (st_buses s)\<rparr> else s)"

definition rpmsg_fini :: "'s stack \<Rightarrow> 's stack" where
  "rpmsg_fini s = s\<lparr>st_buses := st_buses s - {Rpmsg_bus}\<rparr>"

section \<open>Loading and unloading a module\<close>

definition on_virtio_bus :: "stack_driver \<Rightarrow> stack_driver" where
  "on_virtio_bus d = d\<lparr>drv_bus := Some Virtio_bus\<rparr>"

text \<open>The bus goes on to create its test device whatever \<open>register_virtio_driver\<close> answers.\<close>

definition bus_load ::
  "('q, 'i, 'y) rpmsg_bus_scheme driver_core \<Rightarrow> stack_answers \<Rightarrow> ('q, 'i, 'y) rpmsg_bus_scheme stack \<Rightarrow>
   (int \<times> ('q, 'i, 'y) rpmsg_bus_scheme stack) outcome" where
  "bus_load D E s =
     bind_outcome (driver_register (sa_virtio E) (on_virtio_bus virtio_ipc_driver) s) (\<lambda>(reg, s1).
     bind_outcome (virtio_rpmsg_init D reg (sa_kzalloc E) (st_sys s1)) (\<lambda>(ret, b).
       Returns (ret, s1\<lparr>st_sys := b\<rparr>)))"

definition bus_unload :: "'s stack \<Rightarrow> 's stack" where
  "bus_unload s = driver_unregister (on_virtio_bus virtio_ipc_driver) s"

text \<open>The driver is registered third, when the first two answers were good.\<close>

definition char_load :: "stack_answers \<Rightarrow> 's stack \<Rightarrow> (int \<times> 's stack) outcome" where
  "char_load E s =
     bind_outcome
       (if sa_region E < 0 \<or> sa_class E < 0 then Returns (0, s)
        else register_rpmsg_driver (sa_driver E) rpmsg_chrdev_driver Chr s) (\<lambda>(drv, s1).
     let (ret, h) = rpmsg_char_init (sa_region E) (sa_class E) drv
     in Returns (ret, s1\<lparr>st_char := st_char s1 \<union> h\<rparr>))"

definition char_unload :: "'s stack \<Rightarrow> 's stack" where
  "char_unload s = (let s1 = unregister_rpmsg_driver (on_rpmsg_bus Chr rpmsg_chrdev_driver) s
     in s1\<lparr>st_char := rpmsg_chrdev_exit (st_char s1)\<rparr>)"

primrec module_init ::
  "('q, 'i, 'y) rpmsg_bus_scheme driver_core \<Rightarrow> stack_answers \<Rightarrow> stack_module \<Rightarrow>
   ('q, 'i, 'y) rpmsg_bus_scheme stack \<Rightarrow> (int \<times> ('q, 'i, 'y) rpmsg_bus_scheme stack) outcome" where
  "module_init D E Core = (\<lambda>s. Returns (rpmsg_init (sa_bus E) s))"
| "module_init D E Bus = bus_load D E"
| "module_init D E Chr = char_load E"

primrec module_exit :: "stack_module \<Rightarrow> 's stack \<Rightarrow> 's stack" where
  "module_exit Core = rpmsg_fini"
| "module_exit Bus = bus_unload"
| "module_exit Chr = char_unload"

section \<open>The system\<close>

text \<open>
  A module can be loaded when those it uses are, and unloaded when none that uses it is.
  It stays loaded unless its function to load it fails.
\<close>

definition loadable :: "stack_module \<Rightarrow> 's stack \<Rightarrow> bool" where
  "loadable m s \<longleftrightarrow> m \<notin> st_loaded s \<and> (\<forall>k. k < m \<longrightarrow> k \<in> st_loaded s)"

definition unloadable :: "stack_module \<Rightarrow> 's stack \<Rightarrow> bool" where
  "unloadable m s \<longleftrightarrow> m \<in> st_loaded s \<and> (\<forall>k\<in>st_loaded s. \<not> m < k)"

definition answers_ok :: "('s \<Rightarrow> addr list) \<Rightarrow> stack_answers \<Rightarrow> 's stack \<Rightarrow> bool" where
  "answers_ok kids E s \<longleftrightarrow> sa_bus E \<le> 0 \<and> sa_virtio E \<le> 0 \<and> sa_driver E \<le> 0 \<and>
     (\<forall>d. sa_kzalloc E = Some d \<longrightarrow> d \<notin> set (kids (st_sys s)))"

inductive stack_step ::
  "('q, 'i, 'y) rpmsg_bus_scheme driver_core \<Rightarrow> (('q, 'i, 'y) rpmsg_bus_scheme \<Rightarrow> addr list) \<Rightarrow>
   ('q, 'i, 'y) rpmsg_bus_scheme stack \<Rightarrow> ('q, 'i, 'y) rpmsg_bus_scheme stack \<Rightarrow> bool"
  for D kids where
  load: "loadable m s \<Longrightarrow> answers_ok kids E s \<Longrightarrow> module_init D E m s = Returns (ret, t) \<Longrightarrow>
    stack_step D kids s (if ret < 0 then t else t\<lparr>st_loaded := insert m (st_loaded t)\<rparr>)"
| unload: "unloadable m s \<Longrightarrow>
    stack_step D kids s ((module_exit m s)\<lparr>st_loaded := st_loaded s - {m}\<rparr>)"
| devices_change: "stack_step D kids s (s\<lparr>st_sys := b\<rparr>)"

definition stack_start :: "'s stack \<Rightarrow> bool" where
  "stack_start s \<longleftrightarrow> st_buses s = {Virtio_bus} \<and> st_drivers s = {} \<and> st_char s = {} \<and> st_loaded s = {}"

section \<open>What the loaded modules own\<close>

definition owned_drivers :: "stack_module set \<Rightarrow> stack_driver set" where
  "owned_drivers ms = (if Bus \<in> ms then {on_virtio_bus virtio_ipc_driver} else {}) \<union>
     (if Chr \<in> ms then {on_rpmsg_bus Chr rpmsg_chrdev_driver} else {})"

text \<open>
  The invariant: exactly what the loaded modules own is registered, and with every module
  the modules below it are loaded.
\<close>

definition stack_inv :: "'s stack \<Rightarrow> bool" where
  "stack_inv s \<longleftrightarrow> (\<forall>m\<in>st_loaded s. \<forall>k. k < m \<longrightarrow> k \<in> st_loaded s) \<and>
     st_buses s = (if Core \<in> st_loaded s then {Virtio_bus, Rpmsg_bus} else {Virtio_bus}) \<and>
     st_drivers s = owned_drivers (st_loaded s) \<and> st_char s = (if Chr \<in> st_loaded s then UNIV else {})"

lemma below_simps [simp]: "(k < Core) = False" "(k < Bus) = (k = Core)" "(k < Chr) = (k = Core)"
  "(Core < m) = (m \<noteq> Core)" "(Bus < m) = False" "(Chr < m) = False"
  by (cases k; simp add: less_stack_module_def)+

lemma driver_fields [simp]:
  "drv_bus (on_virtio_bus d) = Some Virtio_bus" "drv_name (on_virtio_bus d) = drv_name d"
  "drv_owner (on_virtio_bus d) = drv_owner d" "drv_bus (on_rpmsg_bus m d) = Some Rpmsg_bus"
  "drv_name (on_rpmsg_bus m d) = drv_name d" "drv_owner (on_rpmsg_bus m d) = Some m"
  by (simp_all add: on_virtio_bus_def on_rpmsg_bus_def)

lemma on_bus_neq [simp]: "on_virtio_bus d \<noteq> on_rpmsg_bus m e" "on_rpmsg_bus m e \<noteq> on_virtio_bus d"
  by (metis bus_type.distinct(1) driver_fields(1,4) option.inject)+

lemma char_resources: "{Chrdev_region, Char_class, Char_driver} = UNIV"
  using char_resource.exhaust by auto

lemma driver_register_new:
  assumes "drv_bus d = Some b" and "b \<in> st_buses s" and "\<And>e. e \<in> st_drivers s \<Longrightarrow> drv_bus e \<noteq> Some b"
  shows "driver_register ret d s = Returns (ret, if ret = 0 then s\<lparr>st_drivers := insert d (st_drivers s)\<rparr> else s)"
  using assms by (auto simp: driver_register_def)

text \<open>Loading the bus and the character device on top of the core.\<close>

lemma stack_invD:
  assumes "stack_inv s"
  shows "st_drivers s = owned_drivers (st_loaded s)" and "Virtio_bus \<in> st_buses s"
    and "Rpmsg_bus \<in> st_buses s \<longleftrightarrow> Core \<in> st_loaded s" and "st_char s = (if Chr \<in> st_loaded s then UNIV else {})"
  using assms by (auto simp: stack_inv_def)

lemma bus_load_returns:
  assumes "stack_inv s" and "Bus \<notin> st_loaded s"
  shows "bus_load D E s = bind_outcome (create_rpmsg_chrdev D (sa_kzalloc E) (st_sys s)) (\<lambda>(_, b).
     Returns (sa_virtio E, (if sa_virtio E = 0
       then s\<lparr>st_drivers := insert (on_virtio_bus virtio_ipc_driver) (st_drivers s)\<rparr> else s)\<lparr>st_sys := b\<rparr>))"
proof -
  have "driver_register (sa_virtio E) (on_virtio_bus virtio_ipc_driver) s = Returns (sa_virtio E,
      if sa_virtio E = 0 then s\<lparr>st_drivers := insert (on_virtio_bus virtio_ipc_driver) (st_drivers s)\<rparr> else s)"
    by (rule driver_register_new [where b = Virtio_bus])
      (use assms stack_invD [OF assms(1)] in \<open>auto simp: owned_drivers_def split: if_splits\<close>)
  then show ?thesis
    by (cases "create_rpmsg_chrdev D (sa_kzalloc E) (st_sys s)") (auto simp: bus_load_def virtio_rpmsg_init_def)
qed

lemma char_load_returns:
  assumes "stack_inv s" and "Chr \<notin> st_loaded s" and "Core \<in> st_loaded s" and "sa_driver E \<le> 0"
  shows "\<exists>ret. char_load E s = Returns (ret, if ret < 0 then s
       else s\<lparr>st_drivers := insert (on_rpmsg_bus Chr rpmsg_chrdev_driver) (st_drivers s), st_char := UNIV\<rparr>) \<and> ret \<le> 0"
proof -
  have "driver_register (sa_driver E) (on_rpmsg_bus Chr rpmsg_chrdev_driver) s = Returns (sa_driver E,
      if sa_driver E = 0 then s\<lparr>st_drivers := insert (on_rpmsg_bus Chr rpmsg_chrdev_driver) (st_drivers s)\<rparr> else s)"
    by (rule driver_register_new [where b = Rpmsg_bus])
      (use assms stack_invD [OF assms(1)] in \<open>auto simp: owned_drivers_def split: if_splits\<close>)
  moreover have none: "st_char s = {}" using stack_invD(4) [OF assms(1)] assms(2) by simp
  then have "s\<lparr>st_char := {}\<rparr> = s" by (cases s) simp
  moreover have "{Chrdev_region, Char_class} - {Char_class} - {Chrdev_region} = {}" by auto
  ultimately show ?thesis
    using assms(4) none by (auto simp: char_load_def register_rpmsg_driver_def rpmsg_char_init_def char_resources)
qed

text \<open>The test device: creating it returns, and registers one device or none.\<close>

definition test_key :: "u8 list \<times> u32" where
  "test_key = (lit ''rpmsg_chrdev'', RPMSG_ADDR_ANY)"

lemma create_chrdev_keys:
  assumes laws: "driver_core_laws D kids" and fresh: "\<And>d. kz = Some d \<Longrightarrow> d \<notin> set (kids b)"
  shows "\<exists>ret b'. create_rpmsg_chrdev D kz b = Returns (ret, b') \<and>
    keys_of kids b' = (if ret = 0 then keys_of kids b @ [Some test_key] else keys_of kids b) \<and>
    (registers_always D \<and> kz \<noteq> None \<longrightarrow> ret = 0)"
proof (cases kz)
  case None
  then show ?thesis by (simp add: create_rpmsg_chrdev_def)
next
  case (Some d)
  let ?r = "test_device\<lparr>rp_name := lit ''rpmsg_chrdev'' @ 0 # drop 13 (rp_name test_device),
      rp_driver_override := Some (Literal (lit ''rpmsg_chrdev''))\<rparr>"
  let ?b = "b\<lparr>rpdevs := (rpdevs b)(d \<mapsto> ?r)\<rparr>"
  have kids: "kids ?b = kids b" by (rule kids_upd [OF laws])
  have "keys_of kids ?b = keys_of kids b"
    by (rule keys_of_cong [OF kids]) (use fresh [OF Some] in \<open>auto simp: dev_key_def\<close>)
  moreover have "dev_key ?b d = Some test_key"
    by (simp add: dev_key_def test_key_def test_device_def cstr_append_replicate lit_def)
  moreover have "create_rpmsg_chrdev D kz b = rpmsg_register_device D d ?b"
    by (simp add: Some create_rpmsg_chrdev_def rpmsg_chrdev_register_device_def)
  moreover have "d \<notin> set (kids ?b)" using fresh [OF Some] kids by simp
  ultimately show ?thesis
    using register_channel [OF laws, of d ?b ?r] by auto
qed

text \<open>A load that is allowed returns, and the module owns what it registered or nothing is changed.\<close>

lemma module_init_returns:
  assumes laws: "driver_core_laws D kids" and i: "stack_inv s" and l: "loadable m s" and a: "answers_ok kids E s"
  obtains ret t where "module_init D E m s = Returns (ret, t)" and "ret \<le> 0" and "st_loaded t = st_loaded s"
    and "st_buses t = (if ret = 0 \<and> m = Core then insert Rpmsg_bus (st_buses s) else st_buses s)"
    and "st_drivers t = (if ret = 0 then owned_drivers {m} \<union> st_drivers s else st_drivers s)"
    and "st_char t = (if ret = 0 \<and> m = Chr then UNIV else st_char s)"
    and "m = Bus \<or> st_sys t = st_sys s"
proof (cases m)
  case Core
  with a show thesis
    by (intro that [of "sa_bus E" "snd (rpmsg_init (sa_bus E) s)"]) (simp_all add: rpmsg_init_def answers_ok_def owned_drivers_def)
next
  case Bus
  with l have "Bus \<notin> st_loaded s" by (simp add: loadable_def)
  moreover obtain r b where "create_rpmsg_chrdev D (sa_kzalloc E) (st_sys s) = Returns (r, b)"
    using create_chrdev_keys [OF laws, of "sa_kzalloc E" "st_sys s"] a unfolding answers_ok_def by blast
  ultimately show thesis
    using Bus a bus_load_returns [OF i, of D E] that by (simp add: answers_ok_def owned_drivers_def split: if_splits)
next
  case Chr
  with l have "Chr \<notin> st_loaded s" "Core \<in> st_loaded s" by (auto simp: loadable_def)
  from char_load_returns [OF i this, of E] a obtain ret where
    "char_load E s = Returns (ret, if ret < 0 then s
       else s\<lparr>st_drivers := insert (on_rpmsg_bus Chr rpmsg_chrdev_driver) (st_drivers s), st_char := UNIV\<rparr>)" "ret \<le> 0"
    unfolding answers_ok_def by blast
  with Chr that [of ret "if ret < 0 then s
      else s\<lparr>st_drivers := insert (on_rpmsg_bus Chr rpmsg_chrdev_driver) (st_drivers s), st_char := UNIV\<rparr>"]
  show thesis by (auto simp: owned_drivers_def)
qed

lemma stack_inv_load:
  assumes laws: "driver_core_laws D kids" and i: "stack_inv s" and l: "loadable m s" and a: "answers_ok kids E s"
    and init: "module_init D E m s = Returns (ret, t)"
  shows "stack_inv (if ret < 0 then t else t\<lparr>st_loaded := insert m (st_loaded t)\<rparr>)"
proof -
  obtain ret' t' where "module_init D E m s = Returns (ret', t')" "ret' \<le> 0" "st_loaded t' = st_loaded s"
    and "st_buses t' = (if ret' = 0 \<and> m = Core then insert Rpmsg_bus (st_buses s) else st_buses s)"
    and "st_drivers t' = (if ret' = 0 then owned_drivers {m} \<union> st_drivers s else st_drivers s)"
    and "st_char t' = (if ret' = 0 \<and> m = Chr then UNIV else st_char s)"
    by (rule module_init_returns [OF laws i l a])
  with init have t: "ret \<le> 0" "st_loaded t = st_loaded s"
    "st_buses t = (if ret = 0 \<and> m = Core then insert Rpmsg_bus (st_buses s) else st_buses s)"
    "st_drivers t = (if ret = 0 then owned_drivers {m} \<union> st_drivers s else st_drivers s)"
    "st_char t = (if ret = 0 \<and> m = Chr then UNIV else st_char s)" by simp_all
  show ?thesis
  proof (cases "ret = 0")
    case False
    with t have "ret < 0" by simp
    with t i show ?thesis by (simp add: stack_inv_def)
  next
    case True
    with t i l show ?thesis by (cases m) (auto simp: stack_inv_def owned_drivers_def loadable_def)
  qed
qed

lemma stack_inv_unload:
  assumes "stack_inv s" and "unloadable m s"
  shows "stack_inv ((module_exit m s)\<lparr>st_loaded := st_loaded s - {m}\<rparr>)"
proof (cases m)
  case Core
  with assms have "st_loaded s = {Core}"
    by (auto simp: unloadable_def)
  with assms Core show ?thesis by (auto simp: stack_inv_def rpmsg_fini_def owned_drivers_def)
next
  case Bus
  with assms show ?thesis
    by (auto simp: stack_inv_def bus_unload_def driver_unregister_def owned_drivers_def unloadable_def)
next
  case Chr
  have "rpmsg_chrdev_exit UNIV = {}" unfolding char_resources [symmetric] by (auto simp: rpmsg_chrdev_exit_def)
  with assms Chr show ?thesis
    by (auto simp: stack_inv_def char_unload_def driver_unregister_def unregister_rpmsg_driver_def owned_drivers_def
        unloadable_def Let_def)
qed

interpretation stack: inductive_invariant stack_start "stack_step D kids" "\<lambda>s. driver_core_laws D kids \<longrightarrow> stack_inv s"
  for D :: "('q, 'i, 'y) rpmsg_bus_scheme driver_core" and kids
proof
  show "driver_core_laws D kids \<longrightarrow> stack_inv s" if "stack_start s" for s :: "('q, 'i, 'y) rpmsg_bus_scheme stack"
    using that by (simp add: stack_start_def stack_inv_def owned_drivers_def)
  show "driver_core_laws D kids \<longrightarrow> stack_inv t"
    if i: "driver_core_laws D kids \<longrightarrow> stack_inv s" and step: "stack_step D kids s t" for s t
  proof
    assume laws: "driver_core_laws D kids"
    with i have inv: "stack_inv s" by simp
    from step show "stack_inv t"
    proof cases
      case (load m E ret t')
      show ?thesis unfolding load(1) by (rule stack_inv_load [OF laws inv load(2-4)])
    next
      case (unload m)
      show ?thesis unfolding unload(1) by (rule stack_inv_unload [OF inv unload(2)])
    next
      case (devices_change b)
      with inv show ?thesis by (simp add: stack_inv_def)
    qed
  qed
qed

text \<open>A kernel that grants everything, and the stack before anything is loaded.\<close>

definition all_granted :: stack_answers where
  "all_granted = \<lparr>sa_bus = 0, sa_virtio = 0, sa_kzalloc = Some 5, sa_region = 0, sa_class = 0, sa_driver = 0\<rparr>"

definition sim_stack :: "sim_sys stack" where
  "sim_stack = \<lparr>st_sys = sim_sys (\<lambda>_. 0), st_buses = {Virtio_bus}, st_drivers = {}, st_char = {}, st_loaded = {}\<rparr>"

lemma sim_stack_reachable: "reachable stack_start (stack_step sim_driver_core sim_kids) sim_stack"
  by (rule reachable.start) (simp add: stack_start_def sim_stack_def)

section \<open>Properties\<close>



lemma reach_load:
  assumes "reachable stack_start (stack_step D kids) s" and "loadable m s" and "answers_ok kids E s"
    and "module_init D E m s = Returns (ret, t)"
  shows "reachable stack_start (stack_step D kids) (if ret < 0 then t else t\<lparr>st_loaded := insert m (st_loaded t)\<rparr>)"
  by (rule reachable.next_state [OF assms(1)]) (rule stack_step.load [OF assms(2-4)])

lemma bus_comes_and_goes:
  assumes laws: "driver_core_laws D kids" and always: "registers_always D"
    and r: "reachable stack_start (stack_step D kids) s" and c: "st_loaded s = {Core}"
    and a: "answers_ok kids E s" and kz: "sa_kzalloc E \<noteq> None"
  shows "\<exists>u. reachable stack_start (stack_step D kids) u \<and> st_loaded u = {Core} \<and>
    keys_of kids (st_sys u) = keys_of kids (st_sys s) @ [Some test_key]"
proof -
  have i: "stack_inv s" using stack.reachable_inv [OF r] laws by simp
  obtain ret b where b: "create_rpmsg_chrdev D (sa_kzalloc E) (st_sys s) = Returns (ret, b)"
    "keys_of kids b = keys_of kids (st_sys s) @ [Some test_key]"
    using create_chrdev_keys [OF laws, of "sa_kzalloc E" "st_sys s"] a always kz unfolding answers_ok_def by auto
  let ?t = "(if sa_virtio E = 0 then s\<lparr>st_drivers := insert (on_virtio_bus virtio_ipc_driver) (st_drivers s)\<rparr> else s)\<lparr>st_sys := b\<rparr>"
  have "module_init D E Bus s = Returns (sa_virtio E, ?t)"
    using bus_load_returns [OF i, of D E] c b(1) by simp
  from reach_load [OF r _ a this] c
  have t: "reachable stack_start (stack_step D kids) (if sa_virtio E < 0 then ?t else ?t\<lparr>st_loaded := insert Bus (st_loaded ?t)\<rparr>)"
    by (simp add: loadable_def)
  show ?thesis
  proof (cases "sa_virtio E = 0")
    case True
    let ?t' = "?t\<lparr>st_loaded := {Bus, Core}\<rparr>"
    have "reachable stack_start (stack_step D kids) ?t'" using t True c by simp
    moreover have "stack_step D kids ?t' ((module_exit Bus ?t')\<lparr>st_loaded := {Core}\<rparr>)"
      using stack_step.unload [of Bus ?t' D kids] by (simp add: unloadable_def insert_Diff_if)
    ultimately have "reachable stack_start (stack_step D kids) ((module_exit Bus ?t')\<lparr>st_loaded := {Core}\<rparr>)"
      by (rule reachable.next_state)
    moreover have "st_sys ((module_exit Bus ?t')\<lparr>st_loaded := {Core}\<rparr>) = b"
      by (simp add: bus_unload_def driver_unregister_def)
    ultimately show ?thesis using b(2) by (intro exI [of _ "(module_exit Bus ?t')\<lparr>st_loaded := {Core}\<rparr>"]) simp
  next
    case False
    with a have "sa_virtio E < 0" by (simp add: answers_ok_def)
    with t c b(2) False show ?thesis by (intro exI [of _ ?t]) simp
  qed
qed



end
