(* ===== verification/DeviceRefs.thy ===== *)
theory DeviceRefs
  imports VirtioProbe
begin

text \<open>
  The references on the devices of the channels, and the memory they keep alive. Looking a
  device up takes a reference, and registering one leaves its creator with a reference even
  when it fails; each has to be put again, and the last one that is put frees the device. The name
  service keeps the balance: every registered channel has one reference, no other device has
  any, and the registered channels are exactly the devices that are allocated.
\<close>

section \<open>Releasing a device\<close>

text \<open>
  The release functions free the object the device is embedded in. Which of them runs was
  decided where the device was created.
\<close>

definition free_rpdev :: "container \<Rightarrow> addr \<Rightarrow> ('q, 'i, 'y) rpmsg_bus_scheme \<Rightarrow> ('q, 'i, 'y) rpmsg_bus_scheme outcome" where
  "free_rpdev c d s = bind_outcome (deref (rpdevs s) d) (\<lambda>r.
     if rp_container r = c then Returns (s\<lparr>rpdevs := (rpdevs s)(d := None)\<rparr>) else Faults)"

definition virtio_rpmsg_release_device ::
  "addr \<Rightarrow> ('q, 'i, 'y) rpmsg_bus_scheme \<Rightarrow> ('q, 'i, 'y) rpmsg_bus_scheme outcome" where
  "virtio_rpmsg_release_device = free_rpdev Virtio_rpmsg_channel"

definition virtio_rpmsg_release_dev ::
  "addr \<Rightarrow> ('q, 'i, 'y) rpmsg_bus_scheme \<Rightarrow> ('q, 'i, 'y) rpmsg_bus_scheme outcome" where
  "virtio_rpmsg_release_dev = free_rpdev Virtio_rpmsg_device"

definition device_release ::
  "addr \<Rightarrow> ('q, 'i, 'y) rpmsg_bus_scheme \<Rightarrow> ('q, 'i, 'y) rpmsg_bus_scheme outcome" where
  "device_release d s = bind_outcome (deref (rpdevs s) d) (\<lambda>r. case rp_container r of
     Virtio_rpmsg_channel \<Rightarrow> virtio_rpmsg_release_device d s
   | Virtio_rpmsg_device \<Rightarrow> virtio_rpmsg_release_dev d s)"

definition live :: "('q, 'i, 'y) rpmsg_bus_scheme \<Rightarrow> addr set" where
  "live s = dom (rpdevs s)"

lemma device_release_live:
  "d \<in> live s \<Longrightarrow> device_release d s = Returns (s\<lparr>rpdevs := (rpdevs s)(d := None)\<rparr>)"
  by (auto simp: live_def device_release_def virtio_rpmsg_release_device_def virtio_rpmsg_release_dev_def free_rpdev_def
    split: container.split)

section \<open>What the driver core promises\<close>

text \<open>
  \<open>refs\<close> is the number of references held outside of the driver core, an \<open>int\<close> so that a
  reference put twice shows. A device that is registered is also held by the driver core; when
  it is not and the last reference goes, its release function is called.
\<close>

definition dropped ::
  "(('q, 'i, 'y) rpmsg_bus_scheme \<Rightarrow> addr list) \<Rightarrow> (('q, 'i, 'y) rpmsg_bus_scheme \<Rightarrow> addr \<Rightarrow> int) \<Rightarrow> addr \<Rightarrow>
   ('q, 'i, 'y) rpmsg_bus_scheme \<Rightarrow> ('q, 'i, 'y) rpmsg_bus_scheme \<Rightarrow> bool" where
  "dropped kids refs d s s' \<longleftrightarrow> refs s' = (refs s)(d := refs s d - 1) \<and>
     (d \<in> live s \<longrightarrow>
       (if refs s' d = 0 \<and> d \<notin> set (kids s') then \<exists>t. device_release d s = Returns t \<and> live s' = live t
        else live s' = live s))"

definition ref_laws ::
  "('q, 'i, 'y) rpmsg_bus_scheme driver_core \<Rightarrow> (('q, 'i, 'y) rpmsg_bus_scheme \<Rightarrow> addr list) \<Rightarrow>
   (('q, 'i, 'y) rpmsg_bus_scheme \<Rightarrow> addr \<Rightarrow> int) \<Rightarrow> bool" where
  "ref_laws D kids refs \<longleftrightarrow>
     (\<forall>m s r s'. device_find_child D m s = (r, s') \<longrightarrow> live s' = live s \<and>
        refs s' = (case r of None \<Rightarrow> refs s | Some d \<Rightarrow> (refs s)(d := refs s d + 1))) \<and>
     (\<forall>d n s ret s'. d \<notin> set (kids s) \<longrightarrow> device_register D d n s = Returns (ret, s') \<longrightarrow>
        live s' = live s \<and> refs s' = (refs s)(d := refs s d + 1)) \<and>
     (\<forall>d s s'. device_unregister D d s = Returns s' \<longrightarrow> dropped kids refs d s s') \<and>
     (\<forall>d s s'. put_device D d s = Returns s' \<longrightarrow> dropped kids refs d s s') \<and>
     (\<forall>s h m. refs (s\<lparr>rpdevs := h\<rparr>) = refs s \<and> refs (s\<lparr>mem := m\<rparr>) = refs s)"

lemma ref_lawsD:
  assumes "ref_laws D kids refs"
  shows "device_find_child D m s = (None, s') \<Longrightarrow> refs s' = refs s"
    and "device_find_child D m s = (Some d, s') \<Longrightarrow> refs s' = (refs s)(d := refs s d + 1)"
    and "device_find_child D m s = (r, s') \<Longrightarrow> live s' = live s"
    and "d \<notin> set (kids s) \<Longrightarrow> device_register D d n s = Returns (ret, s') \<Longrightarrow>
      live s' = live s \<and> refs s' = (refs s)(d := refs s d + 1)"
    and "device_unregister D d s = Returns s' \<Longrightarrow> dropped kids refs d s s'"
    and "put_device D d s = Returns s' \<Longrightarrow> dropped kids refs d s s'"
    and "refs (s\<lparr>rpdevs := h\<rparr>) = refs s" and "refs (s\<lparr>mem := mm\<rparr>) = refs s"
proof -
  have f: "\<forall>m s r s'. device_find_child D m s = (r, s') \<longrightarrow> live s' = live s \<and>
      refs s' = (case r of None \<Rightarrow> refs s | Some d \<Rightarrow> (refs s)(d := refs s d + 1))"
    and g: "\<forall>d n s ret s'. d \<notin> set (kids s) \<longrightarrow> device_register D d n s = Returns (ret, s') \<longrightarrow>
      live s' = live s \<and> refs s' = (refs s)(d := refs s d + 1)"
    and h: "\<forall>d s s'. device_unregister D d s = Returns s' \<longrightarrow> dropped kids refs d s s'"
    and p: "\<forall>d s s'. put_device D d s = Returns s' \<longrightarrow> dropped kids refs d s s'"
    using assms unfolding ref_laws_def by blast+
  show "device_find_child D m s = (None, s') \<Longrightarrow> refs s' = refs s"
    and "device_find_child D m s = (Some d, s') \<Longrightarrow> refs s' = (refs s)(d := refs s d + 1)"
    and "device_find_child D m s = (r, s') \<Longrightarrow> live s' = live s"
    using f by fastforce+
  show "d \<notin> set (kids s) \<Longrightarrow> device_register D d n s = Returns (ret, s') \<Longrightarrow>
      live s' = live s \<and> refs s' = (refs s)(d := refs s d + 1)"
    using g by blast
  show "device_unregister D d s = Returns s' \<Longrightarrow> dropped kids refs d s s'" using h by blast
  show "put_device D d s = Returns s' \<Longrightarrow> dropped kids refs d s s'" using p by blast
qed (use assms in \<open>simp_all add: ref_laws_def\<close>)

lemma dropped_refs: "dropped kids refs d s s' \<Longrightarrow> refs s' = (refs s)(d := refs s d - 1)"
  by (simp add: dropped_def)

lemma dropped_kept: "dropped kids refs d s s' \<Longrightarrow> d \<in> live s \<Longrightarrow> refs s d \<noteq> 1 \<Longrightarrow> live s' = live s"
  by (simp add: dropped_def split: if_splits)

lemma dropped_last:
  "dropped kids refs d s s' \<Longrightarrow> d \<in> live s \<Longrightarrow> refs s d = 1 \<Longrightarrow> d \<notin> set (kids s') \<Longrightarrow> live s' = live s - {d}"
  by (auto simp: dropped_def device_release_live) (auto simp: live_def)

text \<open>
  Every registered channel has one reference and nothing else has any; \<open>extra\<close> are devices
  that are allocated and not registered.
\<close>

definition refs_owned ::
  "(('q, 'i, 'y) rpmsg_bus_scheme \<Rightarrow> addr list) \<Rightarrow> (('q, 'i, 'y) rpmsg_bus_scheme \<Rightarrow> addr \<Rightarrow> int) \<Rightarrow> addr set \<Rightarrow>
   ('q, 'i, 'y) rpmsg_bus_scheme \<Rightarrow> bool" where
  "refs_owned kids refs extra s \<longleftrightarrow> distinct (kids s) \<and> (\<forall>d. refs s d = (if d \<in> set (kids s) then 1 else 0)) \<and>
     live s = set (kids s) \<union> extra"

lemma refs_owned_cong:
  "refs_owned kids refs X s \<Longrightarrow> kids s' = kids s \<Longrightarrow> refs s' = refs s \<Longrightarrow> live s' = live s \<Longrightarrow> refs_owned kids refs X s'"
  by (simp add: refs_owned_def)

section \<open>The functions that take and put references\<close>

lemma register_refs:
  assumes laws: "driver_core_laws D kids" and rl: "ref_laws D kids refs"
    and own: "refs_owned kids refs {d} s" and new: "d \<notin> set (kids s)"
    and reg: "rpmsg_register_device D d s = Returns (ret, s')"
  shows "refs_owned kids refs {} s'"
proof -
  obtain r where r: "rpdevs s d = Some r" using reg by (auto simp: rpmsg_register_device_def)
  obtain ret1 s1 where d1: "device_register D d (rpmsg_dev_name r) s = Returns (ret1, s1)"
    and k1: "kids s1 = (if ret1 = 0 then kids s @ [d] else kids s)"
    by (rule registerD [OF laws new, of "rpmsg_dev_name r"]) (blast intro: that)
  have f1: "live s1 = live s" "refs s1 = (refs s)(d := refs s d + 1)" using ref_lawsD(4) [OF rl new d1] by simp_all
  show ?thesis
  proof (cases "ret1 = 0")
    case True
    then have "s' = s1" using reg r d1 by (simp add: rpmsg_register_device_def)
    then show ?thesis using own new k1 f1 True by (auto simp: refs_owned_def)
  next
    case False
    obtain s2 where put: "put_device D d s1 = Returns s2" "kids s2 = kids s1"
      by (rule putD [OF laws, of d s1]) (blast intro: that)
    note drop = ref_lawsD(6) [OF rl put(1)]
    have "s' = s2" using reg r d1 False put(1) by (simp add: rpmsg_register_device_def)
    moreover have "refs s2 = refs s" using dropped_refs [OF drop] f1(2) by (simp add: fun_eq_iff)
    moreover have "live s2 = live s1 - {d}"
      by (rule dropped_last [OF drop]) (use own new f1 put(2) k1 False in \<open>simp_all add: refs_owned_def\<close>)
    ultimately show ?thesis using own new put(2) k1 f1(1) False by (auto simp: refs_owned_def)
  qed
qed

lemma create_channel_refs:
  assumes laws: "driver_core_laws D kids" and rl: "ref_laws D kids refs" and own: "refs_owned kids refs {} s"
    and fresh: "\<And>d. kz = Some d \<Longrightarrow> rpdevs s d = None"
    and ret: "rpmsg_create_channel D kz ch s = Returns (r, s')"
  shows "refs_owned kids refs {} s'"
proof -
  obtain f s1 where find: "device_find_child D (rpmsg_device_match ch) s = (f, s1)" by fastforce
  note fd = find_childD [OF laws find] and lv = ref_lawsD(3) [OF rl find]
  show ?thesis
  proof (cases f)
    case (Some tmp)
    obtain s2 where put: "put_device D tmp s1 = Returns s2" "kids s2 = kids s1"
      by (rule putD [OF laws, of tmp s1]) (blast intro: that)
    note drop = ref_lawsD(6) [OF rl put(1)]
    have r1: "refs s1 = (refs s)(tmp := refs s tmp + 1)" using ref_lawsD(2) [OF rl] find Some by simp
    then have "refs s2 = refs s" using dropped_refs [OF drop] by (simp add: fun_eq_iff)
    moreover have "live s2 = live s1"
      by (rule dropped_kept [OF drop]) (use own r1 lv fd(5) [OF Some] in \<open>simp_all add: refs_owned_def\<close>)
    moreover have "s' = s2" using ret find Some put(1) by (simp add: rpmsg_create_channel_def rpmsg_find_device_def)
    ultimately show ?thesis using refs_owned_cong [OF own] put(2) fd(1) lv by simp
  next
    case None
    have own1: "refs_owned kids refs {} s1"
      using refs_owned_cong [OF own fd(1) _ lv] ref_lawsD(1) [OF rl] find None by simp
    show ?thesis
    proof (cases kz)
      case (Some d)
      let ?s = "s1\<lparr>rpdevs := (rpdevs s1)(d \<mapsto> new_channel ch)\<rparr>"
      have k: "kids ?s = kids s1" "refs ?s = refs s1" by (rule kids_upd [OF laws], rule ref_lawsD(7) [OF rl])
      have "d \<notin> live s" using fresh [OF Some] by (simp add: live_def domIff)
      then have new: "d \<notin> set (kids ?s)" using own k(1) fd(1) by (auto simp: refs_owned_def)
      have "refs_owned kids refs {d} ?s" using own1 k by (simp add: refs_owned_def live_def)
      moreover have "\<exists>ret. rpmsg_register_device D d ?s = Returns (ret, s')"
        using ret find None Some by (auto simp: rpmsg_create_channel_def rpmsg_find_device_def)
      ultimately show ?thesis using register_refs [OF laws rl _ new] by blast
    qed (use ret find None own1 in \<open>simp add: rpmsg_create_channel_def rpmsg_find_device_def\<close>)
  qed
qed

lemma unregister_refs:
  assumes laws: "driver_core_laws D kids" and rl: "ref_laws D kids refs" and own: "refs_owned kids refs {} s"
    and ret: "rpmsg_unregister_device D ch s = Returns (r, s')"
  shows "refs_owned kids refs {} s'"
proof -
  obtain f s1 where find: "device_find_child D (rpmsg_device_match ch) s = (f, s1)" by fastforce
  note fd = find_childD [OF laws find] and lv = ref_lawsD(3) [OF rl find]
  show ?thesis
  proof (cases f)
    case None
    then show ?thesis
      using ret find refs_owned_cong [OF own fd(1) _ lv] ref_lawsD(1) [OF rl]
      by (simp add: rpmsg_unregister_device_def rpmsg_find_device_def)
  next
    case (Some d)
    have d: "d \<in> set (kids s)" using fd(5) [OF Some] by simp
    then have one: "refs s d = 1" "d \<in> live s" using own by (simp_all add: refs_owned_def)
    obtain s2 where un: "device_unregister D d s1 = Returns s2" "kids s2 = remove1 d (kids s1)"
      by (rule unregisterD [OF laws, of d s1]) (use d fd(1) in auto)
    obtain s3 where put: "put_device D d s2 = Returns s3" "kids s3 = kids s2"
      by (rule putD [OF laws, of d s2]) (blast intro: that)
    note drop = ref_lawsD(5) [OF rl un(1)] ref_lawsD(6) [OF rl put(1)]
    have r1: "refs s1 = (refs s)(d := 2)" using ref_lawsD(2) [OF rl] find Some one(1) by simp
    have l2: "live s2 = live s" using dropped_kept [OF drop(1)] r1 lv one(2) by simp
    have r2: "refs s2 = (refs s)(d := 1)" using dropped_refs [OF drop(1)] r1 by (simp add: fun_eq_iff)
    have out: "d \<notin> set (kids s3)" using own put(2) un(2) fd(1) by (simp add: refs_owned_def)
    have "live s3 = live s - {d}" using dropped_last [OF drop(2) _ _ out] l2 r2 one(2) by simp
    moreover have "refs s3 = (refs s)(d := 0)" using dropped_refs [OF drop(2)] r2 by (simp add: fun_eq_iff)
    moreover have "s' = s3"
      using ret find Some un(1) put(1) by (simp add: rpmsg_unregister_device_def rpmsg_find_device_def)
    ultimately show ?thesis using own put(2) un(2) fd(1) by (auto simp: refs_owned_def)
  qed
qed

text \<open>Removing the children one after the other puts the last reference of each.\<close>

lemma remove_children_refs:
  assumes laws: "driver_core_laws D kids" and rl: "ref_laws D kids refs" and own: "refs_owned kids refs {} s"
  shows "\<exists>s'. remove_children D (kids s) s = Returns s' \<and> kids s' = [] \<and> refs_owned kids refs {} s'"
  using own
proof (induction "kids s" arbitrary: s)
  case Nil
  then show ?case by simp
next
  case (Cons d ds)
  obtain s1 where un: "device_unregister D d s = Returns s1" "kids s1 = remove1 d (kids s)"
    by (rule unregisterD [OF laws, of d s]) (use Cons.hyps(2) [symmetric] in auto)
  have k: "kids s = d # ds" "kids s1 = ds" using un(2) Cons.hyps(2) [symmetric] by simp_all
  note drop = ref_lawsD(5) [OF rl un(1)]
  have "live s1 = live s - {d}" using dropped_last [OF drop] Cons.prems k by (simp add: refs_owned_def)
  then have "refs_owned kids refs {} s1"
    using Cons.prems dropped_refs [OF drop] k by (auto simp: refs_owned_def)
  from Cons.hyps(1) [OF k(2) [symmetric] this] show ?case using un(1) k by simp
qed

section \<open>The name service\<close>

text \<open>
  A run of the name service over the messages it receives, each with the memory it finds them
  in; \<open>alloc\<close> gives it memory that is not in use, or none.
\<close>

primrec ns_run ::
  "('q, 'i, 'y) rpmsg_bus_scheme driver_core \<Rightarrow> (('q, 'i, 'y) rpmsg_bus_scheme \<Rightarrow> addr option) \<Rightarrow>
   (bytes \<times> addr \<times> u32) list \<Rightarrow> ('q, 'i, 'y) rpmsg_bus_scheme \<Rightarrow> ('q, 'i, 'y) rpmsg_bus_scheme outcome" where
  "ns_run D alloc [] s = Returns s"
| "ns_run D alloc (x # xs) s =
     (let s1 = s\<lparr>mem := fst x\<rparr>
      in bind_outcome (rpmsg_ns_cb D (alloc s1) None (fst (snd x)) 40 Priv_vrp (snd (snd x)) s1)
           (\<lambda>(_, s2). ns_run D alloc xs s2))"

lemma ns_cb_refs:
  assumes laws: "driver_core_laws D kids" and rl: "ref_laws D kids refs"
    and own: "refs_owned kids refs {} s" and u: "channels_unique kids s"
    and fresh: "\<And>d. kz = Some d \<Longrightarrow> rpdevs s d = None"
  obtains s' where "rpmsg_ns_cb D kz None data 40 Priv_vrp src s = Returns (0, s')"
    and "refs_owned kids refs {} s'" and "channels_unique kids s'"
proof -
  let ?s = "s\<lparr>mem := (mem s)(data + 31 := 0)\<rparr>" and ?ch = "ns_chinfo (mem s) data"
  have u1: "channels_unique kids ?s" using u by (simp add: channels_unique_def keys_of_mem [OF laws])
  have own1: "refs_owned kids refs {} ?s"
    by (rule refs_owned_cong [OF own kids_upd(2) [OF laws] ref_lawsD(8) [OF rl]]) (simp add: live_def)
  show thesis
  proof (cases "nsm_flags (nsm_load (mem s) data) AND 1 \<noteq> 0")
    case True
    obtain r s' where un: "rpmsg_unregister_device D ?ch ?s = Returns (r, s')" "channels_unique kids s'"
      using unregister_keys [OF laws u1 ns_chinfo_simps(1), of "mem s" data] by blast
    show thesis
      by (rule that [OF _ unregister_refs [OF laws rl own1 un(1)] un(2)]) (use True un(1) in \<open>simp add: ns_cb_unfold Let_def\<close>)
  next
    case False
    have fresh1: "\<And>d. kz = Some d \<Longrightarrow> rpdevs ?s d = None" using fresh by simp
    obtain r s' where cr: "rpmsg_create_channel D kz ?ch ?s = Returns (r, s')" "channels_unique kids s'"
      using create_channel_keys [OF laws u1 ns_chinfo_simps(1), of kz "mem s" data, OF fresh1] by blast
    show thesis
      by (rule that [OF _ create_channel_refs [OF laws rl own1 fresh1 cr(1)] cr(2)])
        (use False cr(1) in \<open>simp_all add: ns_cb_unfold Let_def\<close>)
  qed
qed

lemma ns_run_refs:
  assumes laws: "driver_core_laws D kids" and rl: "ref_laws D kids refs"
    and alloc: "\<And>t d. alloc t = Some d \<Longrightarrow> rpdevs t d = None"
    and "refs_owned kids refs {} s" and "channels_unique kids s"
  shows "\<exists>s'. ns_run D alloc xs s = Returns s' \<and> refs_owned kids refs {} s' \<and> channels_unique kids s'"
  using assms(4,5)
proof (induction xs arbitrary: s)
  case (Cons x xs)
  let ?s = "s\<lparr>mem := fst x\<rparr>"
  have own: "refs_owned kids refs {} ?s"
    by (rule refs_owned_cong [OF Cons.prems(1) kids_upd(2) [OF laws] ref_lawsD(8) [OF rl]]) (simp add: live_def)
  have u: "channels_unique kids ?s" using Cons.prems(2) by (simp add: channels_unique_def keys_of_mem [OF laws])
  obtain s1 where "rpmsg_ns_cb D (alloc ?s) None (fst (snd x)) 40 Priv_vrp (snd (snd x)) ?s = Returns (0, s1)"
    "refs_owned kids refs {} s1" "channels_unique kids s1"
    by (rule ns_cb_refs [OF laws rl own u alloc, of "alloc ?s"]) blast+
  with Cons.IH show ?case by (simp add: Let_def)
qed simp

text \<open>
  C14. References and memory of the channels balance: whatever sequence of announcements
  arrives, with allocations and registrations that succeed or fail, every registered channel keeps
  exactly one reference, no other device has any, and the devices that are allocated are exactly
  those that are registered: none is freed too early, freed twice or leaked. Removing the
  children afterwards frees them all.
\<close>

theorem channel_refs_balanced:
  assumes "driver_core_laws D kids" and "ref_laws D kids refs"
    and "\<And>t d. alloc t = Some d \<Longrightarrow> rpdevs t d = None"
    and "refs_owned kids refs {} s" and "channels_unique kids s"
  shows "\<exists>s' s''. ns_run D alloc xs s = Returns s' \<and>
    (\<forall>d. refs s' d = (if d \<in> set (kids s') then 1 else 0)) \<and> (\<forall>d. rpdevs s' d \<noteq> None \<longleftrightarrow> d \<in> set (kids s')) \<and>
    remove_children D (kids s') s' = Returns s'' \<and> kids s'' = [] \<and> (\<forall>d. refs s'' d = 0 \<and> rpdevs s'' d = None)"
proof -
  obtain s' where s': "ns_run D alloc xs s = Returns s'" "refs_owned kids refs {} s'"
    using ns_run_refs [OF assms] by blast
  from remove_children_refs [OF assms(1,2) s'(2)] obtain s'' where
    "remove_children D (kids s') s' = Returns s''" "kids s'' = []" "refs_owned kids refs {} s''" by blast
  with s' show ?thesis by (auto simp: refs_owned_def live_def dom_def set_eq_iff)
qed

text \<open>A driver core that counts, and calls the release function of what nobody holds.\<close>

record sim_counted = sim_sys +
  sim_refs :: "addr \<Rightarrow> int"

definition sim_ref :: "addr \<Rightarrow> int \<Rightarrow> sim_counted \<Rightarrow> sim_counted" where
  "sim_ref d n s = s\<lparr>sim_refs := (sim_refs s)(d := sim_refs s d + n)\<rparr>"

definition sim_drop :: "addr \<Rightarrow> sim_counted \<Rightarrow> sim_counted" where
  "sim_drop d s = (let s1 = sim_ref d (- 1) s
     in if sim_refs s1 d = 0 \<and> d \<notin> set (sim_kids s1) \<and> rpdevs s1 d \<noteq> None
        then s1\<lparr>rpdevs := (rpdevs s1)(d := None)\<rparr> else s1)"

definition counting_core :: "sim_counted driver_core" where
  "counting_core =
     \<lparr>device_find_child = (\<lambda>m s. case find (\<lambda>d. case rpdevs s d of None \<Rightarrow> False | Some r \<Rightarrow> m r) (sim_kids s) of
        None \<Rightarrow> (None, s) | Some d \<Rightarrow> (Some d, sim_ref d 1 s)),
      device_register = (\<lambda>d n s. Returns (0, sim_ref d 1 (s\<lparr>sim_kids := sim_kids s @ [d]\<rparr>))),
      device_unregister = (\<lambda>d s. Returns (sim_drop d (s\<lparr>sim_kids := remove1 d (sim_kids s)\<rparr>))),
      put_device = (\<lambda>d s. Returns (sim_drop d s))\<rparr>"

lemma sim_ref_simps [simp]:
  "sim_kids (sim_ref d n s) = sim_kids s" "dev_key (sim_ref d n s) e = dev_key s e" "rpdevs (sim_ref d n s) = rpdevs s"
  "sim_refs (sim_ref d n s) = (sim_refs s)(d := sim_refs s d + n)" "live (sim_ref d n s) = live s"
  by (simp_all add: sim_ref_def dev_key_def live_def)

lemma counted_kids_simps [simp]:
  "dev_key ((s :: sim_counted)\<lparr>sim_kids := k\<rparr>) d = dev_key s d" "live ((s :: sim_counted)\<lparr>sim_kids := k\<rparr>) = live s"
  by (simp_all add: dev_key_def live_def)

lemma sim_drop_simps [simp]:
  "sim_kids (sim_drop d s) = sim_kids s" "sim_refs (sim_drop d s) = (sim_refs s)(d := sim_refs s d - 1)"
  "e \<in> set (sim_kids s) \<Longrightarrow> dev_key (sim_drop d s) e = dev_key s e"
  by (auto simp: sim_drop_def Let_def dev_key_def)

lemma sim_drop_dropped: "dropped sim_kids sim_refs d s (sim_drop d (s\<lparr>sim_kids := k\<rparr>))"
  unfolding dropped_def sim_drop_def Let_def
  by (auto simp: device_release_live split: if_splits) (auto simp: live_def)

lemma counting_core_laws: "driver_core_laws counting_core sim_kids" "ref_laws counting_core sim_kids sim_refs"
proof -
  have "find_child_law counting_core sim_kids"
    unfolding find_child_law_def counting_core_def
    by (auto simp: find_None_iff dest!: find_SomeD split: option.splits)
  then show "driver_core_laws counting_core sim_kids"
    by (simp add: driver_core_laws_def register_law_def unregister_law_def put_law_def) (simp add: counting_core_def)
  have "dropped sim_kids sim_refs d s (sim_drop d s)" for d s
    using sim_drop_dropped [of d s "sim_kids s"] by simp
  then show "ref_laws counting_core sim_kids sim_refs"
    unfolding ref_laws_def counting_core_def by (auto simp: sim_drop_dropped split: option.splits)
qed

definition sim_counted_start :: sim_counted where
  "sim_counted_start = \<lparr>vrp = sim_vrp, mem = (\<lambda>_. 0), epts = (\<lambda>_. None), rpdevs = (\<lambda>_. None), sim_kids = [],
     sim_refs = (\<lambda>_. 0)\<rparr>"

theorem channel_refs_balanced_witness:
  "\<exists>s' s''. ns_run counting_core (\<lambda>t. if rpdevs t 9 = None then Some 9 else None)
       [(sim_ns_mem 9 0, 4112, 53), (sim_ns_mem 9 0, 4112, 53), (sim_ns_mem 9 1, 4112, 53)] sim_counted_start = Returns s' \<and>
     remove_children counting_core (sim_kids s') s' = Returns s'' \<and> sim_kids s'' = [] \<and> sim_refs s'' 9 = 0 \<and> rpdevs s'' 9 = None"
proof -
  let ?xs = "[(sim_ns_mem 9 0, 4112, 53), (sim_ns_mem 9 0, 4112, 53), (sim_ns_mem 9 1, 4112, 53)]"
  let ?a = "\<lambda>t :: sim_counted. if rpdevs t 9 = None then Some 9 else None"
  have alloc: "\<And>t d. ?a t = Some d \<Longrightarrow> rpdevs t d = None" by (simp split: if_splits)
  have "refs_owned sim_kids sim_refs {} sim_counted_start" "channels_unique sim_kids sim_counted_start"
    by (simp_all add: refs_owned_def channels_unique_def keys_of_def live_def sim_counted_start_def)
  from channel_refs_balanced [where xs = ?xs and alloc = ?a, OF counting_core_laws alloc this] show ?thesis by blast
qed

end
