(* ===== verification/ReadWakeup.thy ===== *)
theory ReadWakeup
  imports RpmsgChar
begin

text \<open>
  The wait queue of an endpoint device: any number of readers, lock region by lock region, with
  the receive callback that queues a message and wakes them, the destruction of the device that
  takes the endpoint away and wakes them, and the release of another file on the same device,
  which takes the endpoint and the messages away and wakes nobody.
\<close>

section \<open>The system\<close>

text \<open>Where a reader stands in \<open>rpmsg_eptdev_read_iter\<close>; \<open>Rd_checked\<close> says whether it may block.\<close>

datatype reader = Rd_idle | Rd_checked bool | Rd_waits | Rd_woken | Rd_locks | Rd_done int

text \<open>
  \<open>rd_owed\<close> are the wake-ups of callbacks and destructions that have changed the device and not
  yet called \<open>wake_up_interruptible\<close>; \<open>rd_in\<close> and \<open>rd_out\<close> the messages that have arrived and
  those that readers took.
\<close>

record rd_system =
  rd_dev :: rpmsg_eptdev
  rd_pc :: "nat \<Rightarrow> reader"
  rd_parked :: "nat set"
  rd_owed :: nat
  rd_in :: "u8 list list"
  rd_out :: "u8 list list"

definition rd_at :: "rd_system \<Rightarrow> nat \<Rightarrow> reader \<Rightarrow> rd_system" where
  "rd_at w t pc = w\<lparr>rd_pc := (rd_pc w)(t := pc)\<rparr>"

text \<open>Taking the first message and copying it to the user, who has \<open>room\<close>.\<close>

definition rd_take :: "bool \<Rightarrow> nat \<Rightarrow> rd_system \<Rightarrow> nat \<Rightarrow> u8 list \<Rightarrow> u8 list list \<Rightarrow> rd_system" where
  "rd_take copies room w t skb q =
     (rd_at w t (Rd_done (if copies then int (min room (length skb)) else - EFAULT)))
       \<lparr>rd_dev := (rd_dev w)\<lparr>ed_queue := q\<rparr>, rd_out := rd_out w @ [skb]\<rparr>"

inductive rd_step :: "bool \<Rightarrow> rd_system \<Rightarrow> rd_system \<Rightarrow> bool"
  for closes :: bool where
  start_gone: "rd_pc w t = Rd_idle \<Longrightarrow> ed_ept (rd_dev w) = None \<Longrightarrow> rd_step closes w (rd_at w t (Rd_done (- EPIPE)))"
| start: "rd_pc w t = Rd_idle \<Longrightarrow> ed_ept (rd_dev w) \<noteq> None \<Longrightarrow> rd_step closes w (rd_at w t (Rd_checked blocks))"
| lock_again: "rd_pc w t = Rd_checked False \<Longrightarrow> ed_queue (rd_dev w) = [] \<Longrightarrow>
    rd_step closes w (rd_at w t (Rd_done (- EAGAIN)))"
| lock_wait: "rd_pc w t = Rd_checked True \<Longrightarrow> ed_queue (rd_dev w) = [] \<Longrightarrow> rd_step closes w (rd_at w t Rd_waits)"
| lock_take: "rd_pc w t = Rd_checked blocks \<Longrightarrow> ed_queue (rd_dev w) = skb # q \<Longrightarrow>
    rd_step closes w (rd_take copies room w t skb q)"
| look_ready: "rd_pc w t = Rd_waits \<Longrightarrow> t \<notin> rd_parked w \<Longrightarrow> readable (rd_dev w) \<Longrightarrow>
    rd_step closes w (rd_at w t Rd_woken)"
| look_sleep: "rd_pc w t = Rd_waits \<Longrightarrow> t \<notin> rd_parked w \<Longrightarrow> \<not> readable (rd_dev w) \<Longrightarrow>
    rd_step closes w (w\<lparr>rd_parked := insert t (rd_parked w)\<rparr>)"
| signal: "rd_pc w t = Rd_waits \<Longrightarrow> t \<in> rd_parked w \<Longrightarrow>
    rd_step closes w ((rd_at w t (Rd_done (- ERESTARTSYS)))\<lparr>rd_parked := rd_parked w - {t}\<rparr>)"
| woken_gone: "rd_pc w t = Rd_woken \<Longrightarrow> ed_ept (rd_dev w) = None \<Longrightarrow> rd_step closes w (rd_at w t (Rd_done (- EPIPE)))"
| woken: "rd_pc w t = Rd_woken \<Longrightarrow> ed_ept (rd_dev w) \<noteq> None \<Longrightarrow> rd_step closes w (rd_at w t Rd_locks)"
| take_none: "rd_pc w t = Rd_locks \<Longrightarrow> ed_queue (rd_dev w) = [] \<Longrightarrow> rd_step closes w (rd_at w t (Rd_done (- EFAULT)))"
| take_some: "rd_pc w t = Rd_locks \<Longrightarrow> ed_queue (rd_dev w) = skb # q \<Longrightarrow>
    rd_step closes w (rd_take copies room w t skb q)"
| leave: "rd_pc w t = Rd_done r \<Longrightarrow> rd_step closes w (rd_at w t Rd_idle)"
| arrive: "rd_step closes w (w\<lparr>rd_dev := (rd_dev w)\<lparr>ed_queue := ed_queue (rd_dev w) @ [skb]\<rparr>,
    rd_owed := Suc (rd_owed w), rd_in := rd_in w @ [skb]\<rparr>)"
| destroy: "rd_step closes w (w\<lparr>rd_dev := (rd_dev w)\<lparr>ed_ept := None\<rparr>, rd_owed := Suc (rd_owed w)\<rparr>)"
| wake: "rd_owed w = Suc n \<Longrightarrow> rd_step closes w (w\<lparr>rd_owed := n, rd_parked := {}\<rparr>)"
| reopen: "rd_step closes w (w\<lparr>rd_dev := (rd_dev w)\<lparr>ed_ept := Some p\<rparr>\<rparr>)"
| close_other: "closes \<Longrightarrow> rd_step closes w (w\<lparr>rd_dev := (rd_dev w)\<lparr>ed_ept := None, ed_queue := []\<rparr>\<rparr>)"

definition rd_start :: "rd_system \<Rightarrow> bool" where
  "rd_start w \<longleftrightarrow> rd_pc w = (\<lambda>_. Rd_idle) \<and> rd_parked w = {} \<and> rd_owed w = 0 \<and> ed_queue (rd_dev w) = [] \<and>
     rd_in w = [] \<and> rd_out w = []"

section \<open>The invariant\<close>

text \<open>
  Only readers in the wait are parked; and as long as nobody closes another file, a parked
  reader that could go on has a wake-up to come, and the messages come out in the order
  they came in.
\<close>

definition rd_inv :: "bool \<Rightarrow> rd_system \<Rightarrow> bool" where
  "rd_inv closes w \<longleftrightarrow> (\<forall>t\<in>rd_parked w. rd_pc w t = Rd_waits) \<and>
     (\<not> closes \<longrightarrow> (rd_parked w \<noteq> {} \<and> readable (rd_dev w) \<longrightarrow> 0 < rd_owed w) \<and>
        rd_in w = rd_out w @ ed_queue (rd_dev w))"

lemma rd_at_simps [simp]:
  "rd_dev (rd_at w t pc) = rd_dev w" "rd_pc (rd_at w t pc) = (rd_pc w)(t := pc)" "rd_parked (rd_at w t pc) = rd_parked w"
  "rd_owed (rd_at w t pc) = rd_owed w" "rd_in (rd_at w t pc) = rd_in w" "rd_out (rd_at w t pc) = rd_out w"
  by (simp_all add: rd_at_def)

lemma rd_take_simps [simp]:
  "rd_dev (rd_take copies room w t skb q) = (rd_dev w)\<lparr>ed_queue := q\<rparr>" "rd_parked (rd_take copies room w t skb q) = rd_parked w"
  "rd_owed (rd_take copies room w t skb q) = rd_owed w" "rd_in (rd_take copies room w t skb q) = rd_in w"
  "rd_out (rd_take copies room w t skb q) = rd_out w @ [skb]"
  "rd_pc (rd_take copies room w t skb q) u = (if u = t then Rd_done (if copies then int (min room (length skb)) else - EFAULT) else rd_pc w u)"
  by (simp_all add: rd_take_def)

interpretation readq: wait_queue rd_start "rd_step closes" "rd_inv closes" rd_parked
  "\<lambda>w. \<not> closes \<and> readable (rd_dev w)" "\<lambda>w. 0 < rd_owed w"
  for closes
proof
  show "rd_inv closes w" if "rd_start w" for w using that by (simp add: rd_start_def rd_inv_def)
  show "rd_inv closes w'" if "rd_inv closes w" and "rd_step closes w w'" for w w'
    using that(2,1) by cases (auto simp: rd_inv_def readable_def)
  show "0 < rd_owed w" if "rd_inv closes w" and "t \<in> rd_parked w" and "\<not> closes \<and> readable (rd_dev w)" for w t
    using that by (auto simp: rd_inv_def)
qed

lemma parked_waits: "reachable rd_start (rd_step closes) w \<Longrightarrow> t \<in> rd_parked w \<Longrightarrow> rd_pc w t = Rd_waits"
  using readq.reachable_inv by (auto simp: rd_inv_def)

text \<open>A parked reader stays parked until a wake-up that is owed, or a signal of its own.\<close>

lemma parked_stays:
  assumes "rd_step closes w w'" and "t \<in> rd_parked w" and "rd_pc w t = Rd_waits" and "rd_owed w = 0"
  shows "t \<in> rd_parked w' \<or> rd_pc w' t = Rd_done (- ERESTARTSYS)"
  using assms by cases auto

section \<open>Properties\<close>

text \<open>
  C18. Readers of an endpoint device are woken, and get the messages in order: however readers,
  arriving messages, destruction and opening interleave, as long as no other file on the
  device is closed, what readers have taken followed by what is queued is what has arrived,
  and a parked reader that could go on, because there is a message or the endpoint is
  gone, has a wake-up to come that takes it off the queue.
\<close>

theorem readers_woken_in_order:
  assumes "reachable rd_start (rd_step False) w"
  shows "rd_in w = rd_out w @ ed_queue (rd_dev w) \<and>
    (t \<in> rd_parked w \<longrightarrow> rd_pc w t = Rd_waits \<and>
      (readable (rd_dev w) \<longrightarrow> 0 < rd_owed w \<and> (\<exists>w'. rd_step False w w' \<and> t \<notin> rd_parked w' \<and> rd_pc w' t = Rd_waits)))"
proof -
  have order: "rd_in w = rd_out w @ ed_queue (rd_dev w)" using readq.reachable_inv [OF assms] by (simp add: rd_inv_def)
  have "0 < rd_owed w \<and> (\<exists>w'. rd_step False w w' \<and> t \<notin> rd_parked w' \<and> rd_pc w' t = Rd_waits)"
    if t: "t \<in> rd_parked w" and r: "readable (rd_dev w)"
  proof -
    have owed: "0 < rd_owed w" using readq.no_lost_wakeup [OF assms t] r by simp
    then obtain n where "rd_owed w = Suc n" by (cases "rd_owed w") auto
    from rd_step.wake [OF this, of False] parked_waits [OF assms t] owed show ?thesis by fastforce
  qed
  with order parked_waits [OF assms] show ?thesis by blast
qed

text \<open>A device with an endpoint and no message, and a reader that has gone to sleep on it.\<close>

definition sim_readers :: "reader \<Rightarrow> nat set \<Rightarrow> rd_system" where
  "sim_readers pc ps = \<lparr>rd_dev = sim_eptdev\<lparr>ed_ept := Some 2\<rparr>, rd_pc = (\<lambda>_. Rd_idle)(0 := pc), rd_parked = ps,
     rd_owed = 0, rd_in = [], rd_out = []\<rparr>"

lemma sim_readers_simps [simp]:
  "rd_dev (sim_readers pc ps) = sim_eptdev\<lparr>ed_ept := Some 2\<rparr>" "rd_pc (sim_readers pc ps) 0 = pc"
  "rd_parked (sim_readers pc ps) = ps" "rd_owed (sim_readers pc ps) = 0" "rd_at (sim_readers pc ps) 0 pc' = sim_readers pc' ps"
  "(sim_readers pc ps)\<lparr>rd_parked := ps'\<rparr> = sim_readers pc ps'"
  by (simp_all add: sim_readers_def rd_at_def)

lemma sim_sleeper_reachable: "reachable rd_start (rd_step closes) (sim_readers Rd_waits {0})"
proof -
  let ?R = "reachable rd_start (rd_step closes)"
  have q: "ed_queue (sim_eptdev\<lparr>ed_ept := Some 2\<rparr>) = []" "\<not> readable (sim_eptdev\<lparr>ed_ept := Some 2\<rparr>)"
    by (simp_all add: sim_eptdev_def readable_def)
  have "?R (sim_readers Rd_idle {})"
    by (rule reachable.start) (simp add: rd_start_def sim_readers_def sim_eptdev_def fun_eq_iff)
  then have "?R (sim_readers (Rd_checked True) {})"
    by (rule reachable.next_state) (use rd_step.start [where w = "sim_readers Rd_idle {}" and t = 0 and blocks = True] in simp)
  then have "?R (sim_readers Rd_waits {})"
    by (rule reachable.next_state) (use rd_step.lock_wait [where w = "sim_readers (Rd_checked True) {}" and t = 0] q in simp)
  then show ?thesis
    by (rule reachable.next_state) (use rd_step.look_sleep [where w = "sim_readers Rd_waits {}" and t = 0] q in simp)
qed

theorem readers_woken_in_order_witness:
  "rd_pc (sim_readers Rd_waits {0}) 0 = Rd_waits \<and> rd_in (sim_readers Rd_waits {0}) =
     rd_out (sim_readers Rd_waits {0}) @ ed_queue (rd_dev (sim_readers Rd_waits {0}))"
  using readers_woken_in_order [OF sim_sleeper_reachable, of 0] by simp

text \<open>
  Closing another file on the device leaves a sleeping reader behind: its endpoint is gone,
  nobody owes it a wake-up, and nothing but a signal of its own takes it off the queue before
  some later call wakes it.
\<close>

lemma close_loses_reader:
  "\<exists>w. reachable rd_start (rd_step True) w \<and> 0 \<in> rd_parked w \<and> ed_ept (rd_dev w) = None \<and> rd_owed w = 0 \<and>
     (\<forall>w'. rd_step True w w' \<longrightarrow> 0 \<in> rd_parked w' \<or> rd_pc w' 0 = Rd_done (- ERESTARTSYS))"
proof -
  let ?s = "sim_readers Rd_waits {0}"
  let ?w = "?s\<lparr>rd_dev := (rd_dev ?s)\<lparr>ed_ept := None, ed_queue := []\<rparr>\<rparr>"
  have "rd_step True ?s ?w" by (rule rd_step.close_other) simp
  with sim_sleeper_reachable have "reachable rd_start (rd_step True) ?w" by (rule reachable.next_state)
  moreover have "0 \<in> rd_parked ?w" "rd_pc ?w 0 = Rd_waits" "ed_ept (rd_dev ?w) = None" "rd_owed ?w = 0" by simp_all
  ultimately show ?thesis using parked_stays [of True ?w _ 0] by blast
qed

text \<open>Two readers and one message: the one that comes second is told that its buffer was bad.\<close>

lemma second_reader_fault:
  assumes "rd_pc w t = Rd_locks" and "ed_queue (rd_dev w) = []" and "rd_step closes w w'" and "rd_pc w' t \<noteq> Rd_locks"
  shows "rd_pc w' t = Rd_done (- EFAULT)"
  using assms(3) assms(1,2,4) by cases (auto split: if_splits)

end
