(* ===== verification/MemMap.thy ===== *)
theory MemMap
  imports KernelApi
begin

text \<open>
  The physical memory device of mem_map.c: reading and writing through page mappings,
  mapping, seeking, and the registration of the device. \<open>loff_t\<close>, \<open>phys_addr_t\<close>,
  \<open>size_t\<close> and \<open>unsigned long\<close> are 64 bits wide. What \<open>memremap\<close>, \<open>probe_kernel_read\<close>
  and the copies to and from the user answer is the argument \<open>E\<close>.
\<close>

unbundle bit_operations_syntax

section \<open>Physical memory\<close>

definition load_phys :: "(u64 \<Rightarrow> u8) \<Rightarrow> u64 \<Rightarrow> nat \<Rightarrow> u8 list" where
  "load_phys m p n = map (\<lambda>i. m (p + of_nat i)) [0..<n]"

definition store_phys :: "(u64 \<Rightarrow> u8) \<Rightarrow> u64 \<Rightarrow> u8 list \<Rightarrow> u64 \<Rightarrow> u8" where
  "store_phys m p bs = (\<lambda>x. if unat (x - p) < length bs then bs ! unat (x - p) else m x)"

text \<open>\<open>mm_maps\<close> are the addresses \<open>memremap\<close> has returned and nobody has unmapped.\<close>

record mm_state =
  mm_phys :: "u64 \<Rightarrow> u8"
  mm_maps :: "u64 multiset"

text \<open>
  \<open>mm_uncopied k n\<close> is the number of bytes the copy of \<open>n\<close> bytes leaves out, when \<open>k\<close> bytes
  have been transferred before it.
\<close>

record mm_env =
  mm_bounce :: bool
  mm_remap :: "u64 \<Rightarrow> u64 option"
  mm_probe_fails :: "u64 \<Rightarrow> u64 \<Rightarrow> bool"
  mm_uncopied :: "u64 \<Rightarrow> u64 \<Rightarrow> u64"

definition PAGE_MASK :: u64 where "PAGE_MASK = NOT (of_nat PAGE_SIZE - 1)"

definition page_is_allowed :: "u64 \<Rightarrow> bool" where
  "page_is_allowed pfn = True"

definition size_inside_page :: "u64 \<Rightarrow> u64 \<Rightarrow> u64" where
  "size_inside_page start n = min (of_nat PAGE_SIZE - (start AND (of_nat PAGE_SIZE - 1))) n"

definition my_xlate_dev_mem_ptr :: "mm_env \<Rightarrow> u64 \<Rightarrow> mm_state \<Rightarrow> u64 option \<times> mm_state" where
  "my_xlate_dev_mem_ptr E p s =
     (case mm_remap E (p AND PAGE_MASK) of None \<Rightarrow> (None, s)
      | Some v \<Rightarrow> (Some (v + (p AND NOT PAGE_MASK)), s\<lparr>mm_maps := add_mset v (mm_maps s)\<rparr>))"

definition my_unxlate_dev_mem_ptr :: "u64 \<Rightarrow> u64 \<Rightarrow> mm_state \<Rightarrow> mm_state" where
  "my_unxlate_dev_mem_ptr p ptr s = s\<lparr>mm_maps := mm_maps s - {#ptr AND PAGE_MASK#}\<rparr>"

section \<open>The transfer of a page\<close>

lemma page_offset: "unat (p AND 4095 :: u64) = unat p mod 4096"
proof -
  have "p AND 4095 = take_bit 12 p" by (simp add: take_bit_eq_mask mask_eq_exp_minus_1)
  then show ?thesis by (simp only: unsigned_take_bit_eq) (simp add: take_bit_eq_mod)
qed

lemma size_inside_page_unat:
  "unat (size_inside_page p n) = min (4096 - unat p mod 4096) (unat n)"
proof -
  have "unat (4096 - (p AND 4095) :: u64) = 4096 - unat p mod 4096"
    using page_offset [of p] by (subst unat_sub) (simp_all add: word_le_nat_alt)
  then show ?thesis by (simp add: size_inside_page_def PAGE_SIZE_def min_def word_le_nat_alt)
qed

lemma size_inside_page_bounds:
  assumes "0 < n"
  shows "0 < unat (size_inside_page p n)" and "unat (size_inside_page p n) \<le> unat n"
    and "unat (n - size_inside_page p n) = unat n - unat (size_inside_page p n)"
proof -
  have "unat p mod 4096 < 4096" by simp
  then show "0 < unat (size_inside_page p n)"
    using assms by (simp add: size_inside_page_unat word_gt_0 unat_gt_0)
  show le: "unat (size_inside_page p n) \<le> unat n" by (simp add: size_inside_page_unat)
  then show "unat (n - size_inside_page p n) = unat n - unat (size_inside_page p n)"
    by (intro unat_sub) (simp add: word_le_nat_alt)
qed

lemma size_inside_page_less: "n \<noteq> 0 \<Longrightarrow> unat (n - size_inside_page p n) < unat n"
  using size_inside_page_bounds [of n p] by (simp add: word_gt_0)

section \<open>Reading and writing\<close>

text \<open>
  The loop of \<open>mem_map_read\<close>: whether it ended well, the bytes read, what the user has got.
\<close>

function mem_read_loop ::
  "mm_env \<Rightarrow> u64 \<Rightarrow> u64 \<Rightarrow> u64 \<Rightarrow> u8 list \<Rightarrow> mm_state \<Rightarrow> bool \<times> u64 \<times> u8 list \<times> mm_state" where
  "mem_read_loop E p n rd user s =
     (if n = 0 then (True, rd, user, s)
      else
        let sz = size_inside_page p n
        in case my_xlate_dev_mem_ptr E p s of
             (None, s1) \<Rightarrow> (False, rd, user, s1)
           | (Some ptr, s1) \<Rightarrow>
               let bounce = load_phys (mm_phys s1) p (unat sz);
                   s2 = my_unxlate_dev_mem_ptr p ptr s1;
                   remaining = mm_uncopied E rd sz;
                   user2 = user @ take (unat sz - unat remaining) bounce
               in if mm_probe_fails E p sz then (False, rd, user, s2)
                  else if remaining \<noteq> 0 then (False, rd, user2, s2)
                  else mem_read_loop E (p + sz) (n - sz) (rd + sz) user2 s2)"
  by pat_completeness auto

termination
  by (relation "measure (\<lambda>(E, p, n, rd, user, s). unat n)")
    (auto intro: size_inside_page_less)

declare mem_read_loop.simps [simp del]

definition mem_map_read ::
  "mm_env \<Rightarrow> u64 \<Rightarrow> u64 \<Rightarrow> mm_state \<Rightarrow> int \<times> u8 list \<times> u64 \<times> mm_state" where
  "mem_map_read E n ppos s =
     (let p = ppos
      in if p \<noteq> ppos then (0, [], ppos, s)
         else if \<not> mm_bounce E then (- ENOMEM, [], ppos, s)
         else case mem_read_loop E p n 0 [] s of
                (True, rd, user, s1) \<Rightarrow> (sint rd, user, ppos + rd, s1)
              | (False, rd, user, s1) \<Rightarrow> (- EFAULT, user, ppos, s1))"

text \<open>
  The loop of \<open>mem_map_write\<close>, with the error it returns at once. A \<open>copy_from_user\<close> that
  stops early fills the rest of its destination with zeros.
\<close>

function mem_write_loop ::
  "mm_env \<Rightarrow> (nat \<Rightarrow> u8) \<Rightarrow> u64 \<Rightarrow> u64 \<Rightarrow> u64 \<Rightarrow> mm_state \<Rightarrow> int option \<times> u64 \<times> mm_state" where
  "mem_write_loop E user p n wr s =
     (if n = 0 then (None, wr, s)
      else
        let sz = size_inside_page p n
        in if \<not> page_is_allowed (drop_bit 12 p) then (Some (- EPERM), wr, s)
           else case my_xlate_dev_mem_ptr E p s of
             (None, s1) \<Rightarrow> (if wr \<noteq> 0 then None else Some (- EFAULT), wr, s1)
           | (Some ptr, s1) \<Rightarrow>
               let copied = mm_uncopied E wr sz;
                   data = map (\<lambda>i. user (unat wr + i)) [0..<unat sz - unat copied] @ replicate (unat copied) 0;
                   s2 = my_unxlate_dev_mem_ptr p ptr (s1\<lparr>mm_phys := store_phys (mm_phys s1) p data\<rparr>);
                   wr2 = wr + (sz - copied)
               in if copied \<noteq> 0 then (if wr2 \<noteq> 0 then None else Some (- EFAULT), wr2, s2)
                  else mem_write_loop E user (p + sz) (n - sz) (wr + sz) s2)"
  by pat_completeness auto

termination
  by (relation "measure (\<lambda>(E, user, p, n, wr, s). unat n)")
    (auto intro: size_inside_page_less)

declare mem_write_loop.simps [simp del]

definition mem_map_write ::
  "mm_env \<Rightarrow> (nat \<Rightarrow> u8) \<Rightarrow> u64 \<Rightarrow> u64 \<Rightarrow> mm_state \<Rightarrow> int \<times> u64 \<times> mm_state" where
  "mem_map_write E user n ppos s =
     (let p = ppos
      in if p \<noteq> ppos then (- EFBIG, ppos, s)
         else case mem_write_loop E user p n 0 s of
                (None, wr, s1) \<Rightarrow> (sint wr, ppos + wr, s1)
              | (Some err, wr, s1) \<Rightarrow> (err, ppos, s1))"

section \<open>Mapping, seeking, registering\<close>

record 'prot vm_area =
  vm_start :: u64
  vm_end :: u64
  vm_pgoff :: u64
  vm_page_prot :: 'prot

definition uncached_access :: "u64 \<Rightarrow> bool \<Rightarrow> u64 \<Rightarrow> bool" where
  "uncached_access high_memory o_dsync a \<longleftrightarrow> (if o_dsync then True else high_memory \<le> a)"

definition my_phys_mem_access_prot :: "('prot \<Rightarrow> 'prot) \<Rightarrow> u64 \<Rightarrow> bool \<Rightarrow> u64 \<Rightarrow> 'prot \<Rightarrow> 'prot" where
  "my_phys_mem_access_prot noncached high_memory o_dsync pfn prot =
     (if uncached_access high_memory o_dsync (push_bit 12 pfn) then noncached prot else prot)"

text \<open>\<open>remap\<close> is what \<open>remap_pfn_range\<close> answers for the start, the frame, the size and the protection.\<close>

definition mem_map_mmap ::
  "('prot \<Rightarrow> 'prot) \<Rightarrow> u64 \<Rightarrow> bool \<Rightarrow> (u64 \<Rightarrow> u64 \<Rightarrow> u64 \<Rightarrow> 'prot \<Rightarrow> int) \<Rightarrow> 'prot vm_area \<Rightarrow> int \<times> 'prot vm_area" where
  "mem_map_mmap noncached high_memory o_dsync remap vma =
     (let sz = vm_end vma - vm_start vma; offset = push_bit 12 (vm_pgoff vma)
      in if drop_bit 12 offset \<noteq> vm_pgoff vma then (- EINVAL, vma)
         else if offset + sz - 1 < offset then (- EINVAL, vma)
         else
           let prot = my_phys_mem_access_prot noncached high_memory o_dsync (vm_pgoff vma) (vm_page_prot vma);
               vma1 = vma\<lparr>vm_page_prot := prot\<rparr>
           in if remap (vm_start vma) (vm_pgoff vma) sz prot \<noteq> 0 then (- EAGAIN, vma1) else (0, vma1))"

definition SEEK_SET :: int where "SEEK_SET = 0"
definition SEEK_CUR :: int where "SEEK_CUR = 1"
definition MAX_ERRNO :: u64 where "MAX_ERRNO = 4095"

text \<open>The position and the offset as bit patterns; the result is the \<open>loff_t\<close> they stand for.\<close>

definition mem_map_lseek :: "u64 \<Rightarrow> u64 \<Rightarrow> int \<Rightarrow> int \<times> u64" where
  "mem_map_lseek f_pos offset orig =
     (if orig = SEEK_CUR \<or> orig = SEEK_SET
      then let off = (if orig = SEEK_CUR then offset + f_pos else offset)
           in if - MAX_ERRNO \<le> off then (- EOVERFLOW, f_pos) else (sint off, off)
      else (- EINVAL, f_pos))"

datatype mm_resource = Mm_chrdev | Mm_class | Mm_device

record mem_map_dev_t =
  md_dev :: bool
  md_class :: bool
  md_major :: int
  md_minor :: int

text \<open>The static object: no device, no class, major 0.\<close>

definition mem_map_dev :: mem_map_dev_t where
  "mem_map_dev = \<lparr>md_dev = False, md_class = False, md_major = 0, md_minor = 0\<rparr>"

text \<open>
  \<open>reg\<close>, \<open>cls\<close> and \<open>dev\<close> are the answers of the three registrations, negative when they
  fail; what is registered afterwards is the set.
\<close>

definition chr_dev_init ::
  "int \<Rightarrow> int \<Rightarrow> int \<Rightarrow> mem_map_dev_t \<times> mm_resource set \<Rightarrow> int \<times> mem_map_dev_t \<times> mm_resource set" where
  "chr_dev_init reg cls dev = (\<lambda>(d, held).
     if reg < 0 then (- 1, d, held)
     else let held1 = insert Mm_chrdev held
          in if cls < 0 then (cls, d, held1)
             else let held2 = insert Mm_class held1
                  in if dev < 0 then (- 1, d, held2)
                     else (0, d\<lparr>md_class := True, md_dev := True, md_major := reg, md_minor := 1\<rparr>, insert Mm_device held2))"

definition mem_map_init ::
  "int \<Rightarrow> int \<Rightarrow> int \<Rightarrow> mem_map_dev_t \<times> mm_resource set \<Rightarrow> int \<times> mem_map_dev_t \<times> mm_resource set" where
  "mem_map_init reg cls dev st = (case chr_dev_init reg cls dev st of (_, st1) \<Rightarrow> (0, st1))"

definition release_mem_map_resource :: "mem_map_dev_t \<times> mm_resource set \<Rightarrow> mm_resource set" where
  "release_mem_map_resource = (\<lambda>(d, held).
     let held1 = (if md_dev d then held - {Mm_device} else held);
         held2 = (if md_class d then held1 - {Mm_class} else held1)
     in if md_major d \<noteq> 0 then held2 - {Mm_chrdev} else held2)"

definition mem_map_exit :: "mem_map_dev_t \<times> mm_resource set \<Rightarrow> mm_resource set" where
  "mem_map_exit st = release_mem_map_resource st"

section \<open>Mappings are balanced\<close>

text \<open>\<open>memremap\<close> maps a page at an address that is aligned to a page.\<close>

definition remap_law :: "mm_env \<Rightarrow> bool" where
  "remap_law E \<longleftrightarrow> (\<forall>a v. mm_remap E a = Some v \<longrightarrow> v AND 4095 = 0)"

lemma page_mask_aligned:
  assumes "v AND 4095 = (0 :: u64)"
  shows "(v + (p AND 4095)) AND NOT 4095 = v"
proof -
  have split: "v = (v AND m) OR (v AND NOT m)" "(v OR (p AND m)) AND NOT m = v AND NOT m" for m
    by (auto simp: bit_eq_iff bit_simps)
  have "v AND (p AND 4095) = (v AND 4095) AND p" by (simp only: ac_simps)
  then have "v + (p AND 4095) = v OR (p AND 4095)" using assms by (simp add: disjunctive_add_eq_or)
  then show ?thesis using split(1) [of 4095] split(2) [of 4095] assms by simp
qed

lemma xlate_unxlate:
  assumes "remap_law E" and "my_xlate_dev_mem_ptr E p s = (r, s1)"
  shows "mm_phys s1 = mm_phys s" and "r = None \<Longrightarrow> s1 = s"
    and "r = Some ptr \<Longrightarrow> my_unxlate_dev_mem_ptr p ptr (s1\<lparr>mm_phys := m\<rparr>) = s\<lparr>mm_phys := m\<rparr>"
    and "r = Some ptr \<Longrightarrow> my_unxlate_dev_mem_ptr p ptr s1 = s"
proof -
  have mask: "NOT PAGE_MASK = 4095" "PAGE_MASK = NOT 4095" by (simp_all add: PAGE_MASK_def PAGE_SIZE_def)
  consider "r = None" "s1 = s" | v where "mm_remap E (p AND PAGE_MASK) = Some v" "r = Some (v + (p AND 4095))"
      "s1 = s\<lparr>mm_maps := add_mset v (mm_maps s)\<rparr>"
    using assms(2) by (auto simp: my_xlate_dev_mem_ptr_def mask split: option.splits)
  then have "mm_phys s1 = mm_phys s \<and> (r = None \<longrightarrow> s1 = s) \<and>
      (r = Some ptr \<longrightarrow> my_unxlate_dev_mem_ptr p ptr (s1\<lparr>mm_phys := m\<rparr>) = s\<lparr>mm_phys := m\<rparr>) \<and>
      (r = Some ptr \<longrightarrow> my_unxlate_dev_mem_ptr p ptr s1 = s)"
  proof cases
    case 2
    have "v AND 4095 = 0" using assms(1) 2(1) by (auto simp: remap_law_def)
    from page_mask_aligned [OF this] 2(2,3) show ?thesis by (auto simp: my_unxlate_dev_mem_ptr_def mask)
  qed simp
  then show "mm_phys s1 = mm_phys s" and "r = None \<Longrightarrow> s1 = s"
    and "r = Some ptr \<Longrightarrow> my_unxlate_dev_mem_ptr p ptr (s1\<lparr>mm_phys := m\<rparr>) = s\<lparr>mm_phys := m\<rparr>"
    and "r = Some ptr \<Longrightarrow> my_unxlate_dev_mem_ptr p ptr s1 = s" by blast+
qed

lemma read_loop_step:
  assumes "remap_law E" and "n \<noteq> 0"
  shows "mem_read_loop E p n rd user s =
     (let sz = size_inside_page p n; remaining = mm_uncopied E rd sz;
          user2 = user @ take (unat sz - unat remaining) (load_phys (mm_phys s) p (unat sz))
      in if mm_remap E (p AND PAGE_MASK) = None \<or> mm_probe_fails E p sz then (False, rd, user, s)
         else if remaining \<noteq> 0 then (False, rd, user2, s)
         else mem_read_loop E (p + sz) (n - sz) (rd + sz) user2 s)"
proof -
  obtain r s1 where x: "my_xlate_dev_mem_ptr E p s = (r, s1)" by fastforce
  have r: "r = None \<longleftrightarrow> mm_remap E (p AND PAGE_MASK) = None"
    using x by (auto simp: my_xlate_dev_mem_ptr_def split: option.splits)
  show ?thesis
    using assms(2) x r xlate_unxlate(1,2,4) [OF assms(1) x]
    by (subst mem_read_loop.simps) (auto simp: Let_def split: option.split)
qed

lemma read_loop_keeps:
  "remap_law E \<Longrightarrow> mem_read_loop E p n rd user s = (ok, rd', user', s') \<Longrightarrow> s' = s"
proof (induction "unat n" arbitrary: p n rd user rule: less_induct)
  case less
  show ?case
  proof (cases "n = 0")
    case True
    with less.prems(2) show ?thesis by (simp add: mem_read_loop.simps)
  next
    case False
    note step = less.prems(2) [unfolded read_loop_step [OF less.prems(1) False] Let_def]
    show ?thesis
      using step less.hyps [OF size_inside_page_less [OF False] less.prems(1)] by (auto split: if_splits)
  qed
qed

lemma write_loop_step:
  assumes "remap_law E" and "n \<noteq> 0"
  shows "mem_write_loop E user p n wr s =
     (let sz = size_inside_page p n; copied = mm_uncopied E wr sz;
          data = map (\<lambda>i. user (unat wr + i)) [0..<unat sz - unat copied] @ replicate (unat copied) 0;
          s2 = s\<lparr>mm_phys := store_phys (mm_phys s) p data\<rparr>; wr2 = wr + (sz - copied)
      in if mm_remap E (p AND PAGE_MASK) = None then (if wr \<noteq> 0 then None else Some (- EFAULT), wr, s)
         else if copied \<noteq> 0 then (if wr2 \<noteq> 0 then None else Some (- EFAULT), wr2, s2)
         else mem_write_loop E user (p + sz) (n - sz) (wr + sz) s2)"
proof -
  obtain r s1 where x: "my_xlate_dev_mem_ptr E p s = (r, s1)" by fastforce
  have r: "r = None \<longleftrightarrow> mm_remap E (p AND PAGE_MASK) = None"
    using x by (auto simp: my_xlate_dev_mem_ptr_def split: option.splits)
  show ?thesis
    using assms(2) x r xlate_unxlate(1-3) [OF assms(1) x]
    by (subst mem_write_loop.simps) (auto simp: Let_def page_is_allowed_def split: option.split)
qed

lemma write_loop_keeps:
  "remap_law E \<Longrightarrow> mem_write_loop E user p n wr s = (err, wr', s') \<Longrightarrow> mm_maps s' = mm_maps s"
proof (induction "unat n" arbitrary: p n wr s rule: less_induct)
  case less
  show ?case
  proof (cases "n = 0")
    case True
    with less.prems(2) show ?thesis by (simp add: mem_write_loop.simps)
  next
    case False
    note step = less.prems(2) [unfolded write_loop_step [OF less.prems(1) False] Let_def]
    show ?thesis
      using step less.hyps [OF size_inside_page_less [OF False] less.prems(1)] by (fastforce split: if_splits)
  qed
qed

lemma read_loop_count:
  "remap_law E \<Longrightarrow> mem_read_loop E p n rd user s = (True, rd', user', s') \<Longrightarrow> rd' = rd + n"
proof (induction "unat n" arbitrary: p n rd user rule: less_induct)
  case less
  show ?case
  proof (cases "n = 0")
    case True
    with less.prems(2) show ?thesis by (simp add: mem_read_loop.simps)
  next
    case False
    note step = less.prems(2) [unfolded read_loop_step [OF less.prems(1) False] Let_def]
    show ?thesis
      using step less.hyps [OF size_inside_page_less [OF False] less.prems(1)] by (fastforce split: if_splits)
  qed
qed

lemma write_loop_error:
  "remap_law E \<Longrightarrow> mem_write_loop E user p n wr s = (e, wr', s') \<Longrightarrow> e = Some (- EFAULT) \<or> e = None"
proof (induction "unat n" arbitrary: p n wr s rule: less_induct)
  case less
  show ?case
  proof (cases "n = 0")
    case True
    with less.prems(2) show ?thesis by (simp add: mem_write_loop.simps)
  next
    case False
    note step = less.prems(2) [unfolded write_loop_step [OF less.prems(1) False] Let_def]
    show ?thesis
      using step less.hyps [OF size_inside_page_less [OF False] less.prems(1)] by (fastforce split: if_splits)
  qed
qed

section \<open>Transfers\<close>

lemma length_load_phys [simp]: "length (load_phys m p n) = n"
  by (simp add: load_phys_def)

lemma load_phys_append: "load_phys m p (a + b) = load_phys m p a @ load_phys m (p + of_nat a) b"
  by (rule nth_equalityI) (auto simp: load_phys_def nth_append)

lemma unat_of_nat_u64: "i < 2 ^ 64 \<Longrightarrow> unat (of_nat i :: u64) = i"
  by (simp add: unsigned_of_nat take_bit_nat_eq_self_iff)

lemma load_store_phys:
  assumes "length bs \<le> 2 ^ 64"
  shows "load_phys (store_phys m p bs) p (length bs) = bs"
proof (rule nth_equalityI)
  fix i assume "i < length (load_phys (store_phys m p bs) p (length bs))"
  then have "i < length bs" by simp
  with assms unat_of_nat_u64 [of i] show "load_phys (store_phys m p bs) p (length bs) ! i = bs ! i"
    by (simp add: load_phys_def store_phys_def)
qed simp

lemma store_phys_append:
  assumes "length xs + length ys \<le> 2 ^ 64"
  shows "store_phys (store_phys m p xs) (p + of_nat (length xs)) ys = store_phys m p (xs @ ys)"
proof
  fix x
  let ?l = "length xs"
  show "store_phys (store_phys m p xs) (p + of_nat ?l) ys x = store_phys m p (xs @ ys) x"
  proof (cases "?l = 2 ^ 64")
    case True
    with assms show ?thesis by (simp add: store_phys_def)
  next
    case False
    with assms have l: "unat (of_nat ?l :: u64) = ?l" by (intro unat_of_nat_u64) simp
    have d: "x - (p + of_nat ?l) = (x - p) - of_nat ?l" by simp
    show ?thesis
    proof (cases "unat (x - p) < ?l")
      case True
      have "unat ((x - p) - of_nat ?l :: u64) = unat (x - p) + 2 ^ 64 - ?l"
        using True l by (simp add: unat_sub_if_size word_size)
      then have "\<not> unat ((x - p) - of_nat ?l :: u64) < length ys" using assms by linarith
      with True show ?thesis by (simp add: store_phys_def d nth_append)
    next
      case False
      then have "unat ((x - p) - of_nat ?l :: u64) = unat (x - p) - ?l"
        using l by (simp add: unat_sub_if_size)
      with False show ?thesis by (auto simp: store_phys_def d nth_append)
    qed
  qed
qed

text \<open>A kernel that grants everything: the pages can be mapped, and no copy stops early.\<close>

definition mm_good :: "mm_env \<Rightarrow> bool" where
  "mm_good E \<longleftrightarrow> remap_law E \<and> mm_bounce E \<and> (\<forall>a. mm_remap E a \<noteq> None) \<and>
     (\<forall>p n. \<not> mm_probe_fails E p n) \<and> (\<forall>k n. mm_uncopied E k n = 0)"

lemma mm_goodD:
  assumes "mm_good E"
  shows "remap_law E" and "mm_bounce E" and "mm_remap E a \<noteq> None" and "\<not> mm_probe_fails E p n" and "mm_uncopied E k n = 0"
  using assms unfolding mm_good_def by blast+

lemma chunk:
  fixes n :: u64
  assumes "n \<noteq> 0"
  obtains k where "size_inside_page p n = of_nat k" and "unat (size_inside_page p n) = k"
    and "unat n = k + unat (n - size_inside_page p n)"
proof (rule that [of "unat (size_inside_page p n)"])
  show "unat n = unat (size_inside_page p n) + unat (n - size_inside_page p n)"
    using size_inside_page_bounds [of n p] assms by (simp add: word_gt_0)
qed simp_all

lemma read_loop_good:
  assumes "mm_good E"
  shows "mem_read_loop E p n rd user s = (True, rd + n, user @ load_phys (mm_phys s) p (unat n), s)"
proof (induction "unat n" arbitrary: p n rd user rule: less_induct)
  case less
  have law: "remap_law E" using assms by (simp add: mm_good_def)
  show ?case
  proof (cases "n = 0")
    case True
    then show ?thesis by (simp add: mem_read_loop.simps load_phys_def)
  next
    case False
    let ?sz = "size_inside_page p n"
    obtain k where k: "?sz = of_nat k" "unat ?sz = k" "unat n = k + unat (n - ?sz)" by (rule chunk [OF False])
    have "mem_read_loop E p n rd user s =
        mem_read_loop E (p + ?sz) (n - ?sz) (rd + ?sz) (user @ load_phys (mm_phys s) p (unat ?sz)) s"
      unfolding read_loop_step [OF law False] Let_def by (simp add: mm_goodD [OF assms])
    also have "\<dots> = (True, rd + n, user @ load_phys (mm_phys s) p k @ load_phys (mm_phys s) (p + of_nat k) (unat (n - ?sz)), s)"
      unfolding less.hyps [OF size_inside_page_less [OF False]] using k(2) by (simp add: k(1) [symmetric])
    also have "load_phys (mm_phys s) p k @ load_phys (mm_phys s) (p + of_nat k) (unat (n - ?sz)) =
        load_phys (mm_phys s) p (unat n)"
      by (simp only: k(3) load_phys_append)
    finally show ?thesis .
  qed
qed

lemma write_loop_good:
  assumes "mm_good E" and "unat wr + unat n < 2 ^ 64"
  shows "mem_write_loop E user p n wr s =
    (None, wr + n, s\<lparr>mm_phys := store_phys (mm_phys s) p (map (\<lambda>i. user (unat wr + i)) [0..<unat n])\<rparr>)"
  using assms(2)
proof (induction "unat n" arbitrary: p n wr s rule: less_induct)
  case less
  have law: "remap_law E" using assms by (simp add: mm_good_def)
  show ?case
  proof (cases "n = 0")
    case True
    then show ?thesis by (simp add: mem_write_loop.simps store_phys_def)
  next
    case False
    let ?sz = "size_inside_page p n" and ?u = "\<lambda>w k. map (\<lambda>i. user (w + i)) [0..<k]"
    obtain k where k: "?sz = of_nat k" "unat ?sz = k" "unat n = k + unat (n - ?sz)" by (rule chunk [OF False])
    have "unat wr + unat ?sz < 2 ^ 64" using less.prems k(2,3) by simp
    then have w: "unat (wr + ?sz) = unat wr + k" using k(2) by (simp add: unat_add_lem [THEN iffD1])
    have rest: "?u (unat wr) (unat n) = ?u (unat wr) k @ ?u (unat wr + k) (unat (n - ?sz))"
      unfolding k(3) by (rule nth_equalityI) (auto simp: nth_append)
    have "mem_write_loop E user p n wr s =
        mem_write_loop E user (p + ?sz) (n - ?sz) (wr + ?sz)
          (s\<lparr>mm_phys := store_phys (mm_phys s) p (?u (unat wr) k)\<rparr>)"
      unfolding write_loop_step [OF law False] Let_def using k(2) by (simp add: mm_goodD [OF assms(1)])
    also have "\<dots> = (None, wr + n, s\<lparr>mm_phys := store_phys (store_phys (mm_phys s) p (?u (unat wr) k)) (p + of_nat k)
        (?u (unat wr + k) (unat (n - ?sz)))\<rparr>)"
      using less.hyps [OF size_inside_page_less [OF False], of "wr + ?sz" p] less.prems k w by simp
    also have "store_phys (store_phys (mm_phys s) p (?u (unat wr) k)) (p + of_nat k) (?u (unat wr + k) (unat (n - ?sz))) =
        store_phys (mm_phys s) p (?u (unat wr) (unat n))"
      unfolding rest using store_phys_append [of "?u (unat wr) k" "?u (unat wr + k) (unat (n - ?sz))" "mm_phys s" p]
        less.prems k(3) by simp
    finally show ?thesis .
  qed
qed

section \<open>The properties of the device\<close>


definition sim_mm_env :: mm_env where
  "sim_mm_env = \<lparr>mm_bounce = True, mm_remap = (\<lambda>a. Some (a AND NOT 4095)), mm_probe_fails = (\<lambda>_ _. False), mm_uncopied = (\<lambda>_ _. 0)\<rparr>"

lemma sim_remap_law: "remap_law sim_mm_env"
  by (simp add: remap_law_def sim_mm_env_def and.assoc)

lemma sim_mm_good: "mm_good sim_mm_env"
  using sim_remap_law by (simp add: mm_good_def) (simp add: sim_mm_env_def)


text \<open>
  C20. Whatever fails, every page that is mapped is unmapped again and the position agrees
  with the result: a read either delivers the whole count and moves behind it, or returns
  an error and stays, even when it has already delivered bytes; a write moves exactly by
  the count it returns, or returns an error and stays. A read never changes the memory.
\<close>

theorem mem_transfers_balanced:
  assumes "remap_law E" and "mem_map_read E n pos s = (r, user, pos', s')"
    and "mem_map_write E src n pos t = (w, pos'', t')"
  shows "s' = s \<and> (r = sint n \<and> pos' = pos + n \<or> (r = - ENOMEM \<or> r = - EFAULT) \<and> pos' = pos) \<and>
    mm_maps t' = mm_maps t \<and> (w = sint (pos'' - pos) \<or> w = - EFAULT \<and> pos'' = pos)"
proof -
  obtain ok rd' u' s1 where r: "mem_read_loop E pos n 0 [] s = (ok, rd', u', s1)" by (metis prod_cases4)
  obtain e wr t1 where w: "mem_write_loop E src pos n 0 t = (e, wr, t1)" by (metis prod_cases3)
  have "s1 = s" by (rule read_loop_keeps [OF assms(1) r])
  moreover have "mm_maps t1 = mm_maps t" by (rule write_loop_keeps [OF assms(1) w])
  moreover have "ok \<longrightarrow> rd' = n" using read_loop_count [OF assms(1)] r by fastforce
  ultimately show ?thesis
    using assms(2,3) r w write_loop_error [OF assms(1) w]
    by (cases ok) (auto simp: mem_map_read_def mem_map_write_def split: if_splits)
qed

theorem mem_transfers_balanced_witness:
  "\<exists>r user pos' s'. mem_map_read (sim_mm_env\<lparr>mm_remap := \<lambda>a. if a = 0 then Some 0x1000 else None\<rparr>) 5000 0
       \<lparr>mm_phys = (\<lambda>_. 7), mm_maps = {#}\<rparr> = (r, user, pos', s') \<and> mm_maps s' = {#}"
proof -
  let ?E = "sim_mm_env\<lparr>mm_remap := \<lambda>a. if a = 0 then Some 0x1000 else None\<rparr>" and ?s = "\<lparr>mm_phys = (\<lambda>_. 7), mm_maps = {#}\<rparr>"
  obtain r user pos' s' where r: "mem_map_read ?E 5000 0 ?s = (r, user, pos', s')" by (metis prod_cases4)
  obtain w pos'' t' where w: "mem_map_write ?E (\<lambda>_. 1) 5000 0 ?s = (w, pos'', t')" by (metis prod_cases3)
  have "remap_law ?E" by (simp add: remap_law_def)
  from mem_transfers_balanced [OF this r w] r show ?thesis by auto
qed

text \<open>
  Unloading the module gives back what loading registered only when loading got to its
  end or to nothing at all: loading always returns 0, and when the class or the device could
  not be made, the character device (and the class) stay registered after the module is gone.
\<close>

lemma mem_map_unload:
  assumes "reg \<noteq> 0"
  shows "\<exists>st. mem_map_init reg cls dev (mem_map_dev, {}) = (0, st) \<and>
    mem_map_exit st = (if reg < 0 then {} else if cls < 0 then {Mm_chrdev}
      else if dev < 0 then {Mm_chrdev, Mm_class} else {})"
  using assms
  by (auto simp: mem_map_init_def chr_dev_init_def mem_map_exit_def release_mem_map_resource_def mem_map_dev_def Let_def)

lemma mem_map_unload_witness:
  "\<exists>st. mem_map_init 240 0 (- 12) (mem_map_dev, {}) = (0, st) \<and> mem_map_exit st = {Mm_chrdev, Mm_class}"
  using mem_map_unload [of 240 0 "- 12"] by simp

lemma frame_fits:
  assumes "drop_bit 12 (push_bit 12 p) = (p :: u64)"
  shows "unat (push_bit 12 p) = 4096 * unat p"
proof -
  have "unat p = unat (push_bit 12 p) div 4096"
    using arg_cong [OF assms, of unat] by (simp add: drop_bit_eq_div unat_div)
  moreover have "unat (push_bit 12 p) mod 4096 = 0"
  proof -
    have "take_bit 12 (push_bit 12 p) = 0" by (rule bit_word_eqI) (auto simp: bit_simps)
    then have "take_bit 12 (unat (push_bit 12 p)) = 0" by (metis unsigned_take_bit_eq unsigned_0)
    then show ?thesis by (simp add: take_bit_eq_mod)
  qed
  ultimately show ?thesis by (metis add.right_neutral mult_div_mod_eq)
qed

lemma no_wrap_range:
  assumes "\<not> off + sz - 1 < (off :: u64)" and "sz \<noteq> 0"
  shows "unat off + unat sz \<le> 2 ^ 64"
proof -
  have "off \<le> off + (sz - 1)" using assms(1) by (simp add: algebra_simps not_less)
  then have "unat off + unat (sz - 1) < 2 ^ 64" by (simp add: no_olen_add_nat)
  moreover have "unat (sz - 1) = unat sz - 1" and "0 < unat sz"
    using assms(2) by (simp_all add: unat_minus_one unat_gt_0)
  ultimately show ?thesis by linarith
qed

text \<open>
  C36. A mapping that the driver accepts lies inside the physical address space: the page
  frame fits when it is shifted to an address, the last byte does not wrap around, and the
  pages are uncached exactly when they start at or above the end of memory or the file was
  opened with \<open>O_DSYNC\<close>. A refused mapping changes nothing but the protection.
\<close>

theorem mmap_in_range:
  assumes "mem_map_mmap nc high dsync remap vma = (r, vma')" and "vm_start vma < vm_end vma"
  shows "(r = 0 \<longrightarrow> 4096 * unat (vm_pgoff vma) + unat (vm_end vma - vm_start vma) \<le> 2 ^ 64 \<and>
      remap (vm_start vma) (vm_pgoff vma) (vm_end vma - vm_start vma) (vm_page_prot vma') = 0 \<and>
      vm_page_prot vma' = (if dsync \<or> unat high \<le> 4096 * unat (vm_pgoff vma) then nc (vm_page_prot vma) else vm_page_prot vma)) \<and>
    r \<in> {0, - EINVAL, - EAGAIN} \<and> vma' = vma\<lparr>vm_page_prot := vm_page_prot vma'\<rparr>"
proof -
  let ?p = "vm_pgoff vma" and ?sz = "vm_end vma - vm_start vma"
  have sz: "?sz \<noteq> 0" using assms(2) by auto
  show ?thesis
  proof (cases "r = 0")
    case True
    then have d: "drop_bit 12 (push_bit 12 ?p) = ?p" and w: "\<not> push_bit 12 ?p + ?sz - 1 < push_bit 12 ?p"
      and v: "vma' = vma\<lparr>vm_page_prot := my_phys_mem_access_prot nc high dsync ?p (vm_page_prot vma)\<rparr>"
      and m: "remap (vm_start vma) ?p ?sz (my_phys_mem_access_prot nc high dsync ?p (vm_page_prot vma)) = 0"
      using assms(1) by (auto simp: mem_map_mmap_def Let_def split: if_splits)
    have "4096 * unat ?p + unat ?sz \<le> 2 ^ 64" using no_wrap_range [OF w sz] frame_fits [OF d] by simp
    moreover have "high \<le> push_bit 12 ?p \<longleftrightarrow> unat high \<le> 4096 * unat ?p" using frame_fits [OF d] by (simp add: word_le_nat_alt)
    ultimately show ?thesis using v m True by (simp add: my_phys_mem_access_prot_def uncached_access_def)
  next
    case False
    then show ?thesis using assms(1) by (auto simp: mem_map_mmap_def Let_def split: if_splits)
  qed
qed

theorem mmap_in_range_witness:
  "\<exists>vma'. mem_map_mmap Suc 0x100000000 False (\<lambda>_ _ _ _. 0)
       \<lparr>vm_start = 0x7F0000000000, vm_end = 0x7F0000002000, vm_pgoff = 0x100001, vm_page_prot = 0\<rparr> = (0, vma') \<and>
     vm_page_prot vma' = 1"
proof -
  let ?vma = "\<lparr>vm_start = 0x7F0000000000 :: u64, vm_end = 0x7F0000002000, vm_pgoff = 0x100001, vm_page_prot = 0\<rparr>"
  obtain r vma' where m: "mem_map_mmap Suc 0x100000000 False (\<lambda>_ _ _ _. 0) ?vma = (r, vma')" by fastforce
  have "r = 0" using m by (simp add: mem_map_mmap_def Let_def push_bit_eq_mult drop_bit_eq_div split: if_splits)
  then show ?thesis using mmap_in_range [OF m] m by simp
qed

end
