(* ===== verification/LibMem.thy ===== *)
theory LibMem
  imports MemMap RpmsgWire
begin

text \<open>
  The library of test_mem_map/libmem.c over the device of mem_map.c: words of physical memory
  read and written by file position, and through a mapped page. The system calls are
  the driver's handlers behind the checks the kernel makes before it calls them; what the
  kernel decides itself (the descriptor of an open, the place of a mapping) is in \<open>E\<close>.
\<close>

section \<open>System calls\<close>

text \<open>The open descriptors with their positions, and the areas that are mapped.\<close>

record dram_state =
  ds_mm :: mm_state
  ds_fds :: "int \<Rightarrow> u64 option"
  ds_areas :: "u64 multiset"

record dram_env =
  de_mm :: mm_env
  de_open :: "(int \<Rightarrow> u64 option) \<Rightarrow> int"
  de_area :: "u64 option"
  de_high_memory :: u64
  de_remap :: "u64 \<Rightarrow> u64 \<Rightarrow> u64 \<Rightarrow> bool \<Rightarrow> int"

definition sys_page_size :: u64 where "sys_page_size = of_nat PAGE_SIZE"

definition sys_lseek :: "int \<Rightarrow> u64 \<Rightarrow> dram_state \<Rightarrow> dram_state" where
  "sys_lseek fd off s = (case ds_fds s fd of None \<Rightarrow> s
     | Some pos \<Rightarrow> s\<lparr>ds_fds := (ds_fds s)(fd \<mapsto> snd (mem_map_lseek pos off SEEK_SET))\<rparr>)"

text \<open>
  The kernel refuses a descriptor that is not open and a negative position, and cuts a count
  at \<open>MAX_RW_COUNT\<close>, before it calls the driver.
\<close>

definition MAX_RW_COUNT :: u64 where "MAX_RW_COUNT = 0x7FFFF000"

definition sys_read :: "dram_env \<Rightarrow> int \<Rightarrow> u64 \<Rightarrow> dram_state \<Rightarrow> int \<times> u8 list \<times> dram_state" where
  "sys_read E fd n s = (case ds_fds s fd of None \<Rightarrow> (- 9, [], s)
     | Some pos \<Rightarrow>
         if sint pos < 0 then (- EINVAL, [], s)
         else case mem_map_read (de_mm E) (min n MAX_RW_COUNT) pos (ds_mm s) of
                (r, bs, pos', m) \<Rightarrow> (r, bs, s\<lparr>ds_mm := m, ds_fds := (ds_fds s)(fd \<mapsto> pos')\<rparr>))"

definition sys_write :: "dram_env \<Rightarrow> int \<Rightarrow> u8 list \<Rightarrow> u64 \<Rightarrow> dram_state \<Rightarrow> int \<times> dram_state" where
  "sys_write E fd buf n s = (case ds_fds s fd of None \<Rightarrow> (- 9, s)
     | Some pos \<Rightarrow>
         if sint pos < 0 then (- EINVAL, s)
         else case mem_map_write (de_mm E) (\<lambda>i. buf ! i) (min n MAX_RW_COUNT) pos (ds_mm s) of
                (r, pos', m) \<Rightarrow> (r, s\<lparr>ds_mm := m, ds_fds := (ds_fds s)(fd \<mapsto> pos')\<rparr>))"

definition sys_close :: "int \<Rightarrow> dram_state \<Rightarrow> dram_state" where
  "sys_close fd s = s\<lparr>ds_fds := (ds_fds s)(fd := None)\<rparr>"

text \<open>
  A mapping of one page: the start of the area, or \<open>MAP_FAILED\<close>, which is \<open>None\<close> here and
  not \<open>NULL\<close>. The protection is whether the page is uncached.
\<close>

definition sys_mmap :: "dram_env \<Rightarrow> int \<Rightarrow> u64 \<Rightarrow> dram_state \<Rightarrow> u64 option \<times> dram_state" where
  "sys_mmap E fd off s = (case (ds_fds s fd, de_area E) of
       (Some pos, Some a) \<Rightarrow>
         let vma = \<lparr>vm_start = a, vm_end = a + sys_page_size, vm_pgoff = drop_bit 12 off, vm_page_prot = False\<rparr>
         in if fst (mem_map_mmap (\<lambda>_. True) (de_high_memory E) True (de_remap E) vma) = 0
            then (Some a, s\<lparr>ds_areas := add_mset a (ds_areas s)\<rparr>) else (None, s)
     | _ \<Rightarrow> (None, s))"

definition sys_munmap :: "u64 \<Rightarrow> dram_state \<Rightarrow> dram_state" where
  "sys_munmap a s = s\<lparr>ds_areas := ds_areas s - {#a#}\<rparr>"

section \<open>The library\<close>

definition get_fd :: "dram_env \<Rightarrow> dram_state \<Rightarrow> int \<times> dram_state" where
  "get_fd E s =
     (let fd = de_open E (ds_fds s)
      in if fd = - 1 then (- 1, s) else (fd, s\<lparr>ds_fds := (ds_fds s)(fd \<mapsto> 0)\<rparr>))"

definition get_mem_fd :: "dram_env \<Rightarrow> dram_state \<Rightarrow> int \<times> dram_state" where
  "get_mem_fd E s = get_fd E s"

text \<open>The value of the first 4, 2 or 1 bytes at a pointer; \<open>None\<close> for any other size.\<close>

definition value_at :: "u32 \<Rightarrow> u8 list \<Rightarrow> u32 option" where
  "value_at n bs =
     (if n = 4 then Some (le_dec (take 4 bs)) else if n = 2 then Some (le_dec (take 2 bs))
      else if n = 1 then Some (le_dec (take 1 bs)) else None)"

text \<open>
  The page is read through the mapping, which covers one page and nothing behind it; a
  mapping that failed is dereferenced like any other.
\<close>

definition read_dram_map_raw ::
  "dram_env \<Rightarrow> u64 \<Rightarrow> u32 \<Rightarrow> u32 \<Rightarrow> dram_state \<Rightarrow> (u16 \<times> u32 \<times> dram_state) outcome" where
  "read_dram_map_raw E dram_addr value n s =
     (let (fd, s1) = get_mem_fd E s;
          aligned = (dram_addr div sys_page_size) * sys_page_size;
          ofst = dram_addr mod sys_page_size;
          (tmp, s2) = sys_mmap E fd aligned s1
      in if n \<noteq> 4 \<and> n \<noteq> 2 \<and> n \<noteq> 1 then Returns (1, value, s2)
         else case tmp of None \<Rightarrow> Faults
           | Some a \<Rightarrow>
               if unat ofst + unat n \<le> PAGE_SIZE
               then case value_at n (load_phys (mm_phys (ds_mm s2)) (aligned + ofst) (unat n)) of
                      None \<Rightarrow> Returns (1, value, s2)
                    | Some v \<Rightarrow> Returns (0, v, sys_munmap a s2)
               else Faults)"

text \<open>The four bytes of \<open>tmp\<close> are the whole destination of the \<open>read\<close>.\<close>

definition read_dram_raw ::
  "dram_env \<Rightarrow> u64 \<Rightarrow> u32 \<Rightarrow> u32 \<Rightarrow> dram_state \<Rightarrow> (u16 \<times> u32 \<times> dram_state) outcome" where
  "read_dram_raw E dram_addr value n s =
     (let (fd, s1) = get_mem_fd E s;
          s2 = sys_lseek fd dram_addr s1;
          (ret, bs, s3) = sys_read E fd (ucast n) s2
      in if 4 < length bs then Faults
         else case value_at n (bs @ replicate (4 - length bs) 0) of
                None \<Rightarrow> Returns (1, value, s3)
              | Some v \<Rightarrow> if word_of_int ret \<noteq> n then Returns (1, v, s3) else Returns (0, v, sys_close fd s3))"

text \<open>The page is mapped with \<open>PROT_READ\<close> alone, so the store faults wherever it goes.\<close>

definition write_dram_map_raw :: "dram_env \<Rightarrow> u64 \<Rightarrow> u32 \<Rightarrow> u32 \<Rightarrow> dram_state \<Rightarrow> (u16 \<times> dram_state) outcome" where
  "write_dram_map_raw E dram_addr value n s =
     (let (fd, s1) = get_mem_fd E s;
          (tmp, s2) = sys_mmap E fd ((dram_addr div sys_page_size) * sys_page_size) s1
      in if n = 4 \<or> n = 2 \<or> n = 1 then Faults else Returns (1, s2))"

definition write_dram_raw :: "dram_env \<Rightarrow> u64 \<Rightarrow> u32 \<Rightarrow> u32 \<Rightarrow> dram_state \<Rightarrow> u16 \<times> dram_state" where
  "write_dram_raw E dram_addr value n s =
     (let (fd, s1) = get_mem_fd E s;
          s2 = sys_lseek fd dram_addr s1
      in if n \<noteq> 4 \<and> n \<noteq> 2 \<and> n \<noteq> 1 then (1, s2)
         else let tmp = le_enc (unat n) value @ replicate (4 - unat n) 0;
                  (ret, s3) = sys_write E fd tmp (ucast n) s2
              in if word_of_int ret \<noteq> n then (1, s3) else (0, sys_close fd s3))"

text \<open>The part of \<open>main\<close> that is compiled: three reads of the same place, 4, 2 and 1 bytes wide.\<close>

definition main_reads :: "dram_env \<Rightarrow> dram_state \<Rightarrow> (u32 list \<times> dram_state) outcome" where
  "main_reads E s =
     (let addr = 0xF000D018
      in bind_outcome (read_dram_raw E addr 0 4 s) (\<lambda>(_, v4, s1).
         bind_outcome (read_dram_raw E addr v4 2 s1) (\<lambda>(_, v2, s2).
         bind_outcome (read_dram_raw E addr v2 1 s2) (\<lambda>(_, v1, s3). Returns ([v4, v2, v1], s3)))))"

section \<open>Values and bytes\<close>

lemma le_dec_append_zeros: "le_dec (bs @ replicate k 0) = (le_dec bs :: u32)"
proof (induction bs)
  case Nil
  show ?case by (induction k) simp_all
qed simp

lemma value_at_bytes:
  assumes "n \<in> {4, 2, 1}" and "length bs = unat n"
  shows "value_at n (bs @ replicate k 0) = Some (le_dec bs)"
  using assms by (auto simp: value_at_def)

lemma le_bytes_value:
  assumes "n \<in> {4, 2, 1}"
  shows "le_dec (le_enc (unat n) v) = take_bit (8 * unat n) (v :: u32)"
  by (rule le_dec_enc)

lemma low_position:
  assumes "0 \<le> sint (a :: u64)"
  shows "\<not> - MAX_ERRNO \<le> a"
proof -
  have "sint a < 2 ^ 63" using sint_lt [of a] by simp
  moreover have "uint a = sint a mod 2 ^ 64" by (simp add: uint_sint take_bit_eq_mod)
  ultimately have "uint a < 2 ^ 63" using assms by simp
  then show ?thesis by (simp add: MAX_ERRNO_def word_le_def)
qed

section \<open>The library on a kernel that grants everything\<close>

text \<open>\<open>open\<close> answers a descriptor that is not in use.\<close>

definition open_law :: "dram_env \<Rightarrow> bool" where
  "open_law E \<longleftrightarrow> (\<forall>t. de_open E t \<noteq> - 1 \<longrightarrow> 0 \<le> de_open E t \<and> t (de_open E t) = None)"

lemma get_mem_fd_opens:
  assumes "de_open E (ds_fds s) \<noteq> - 1"
  shows "get_mem_fd E s = (de_open E (ds_fds s), s\<lparr>ds_fds := (ds_fds s)(de_open E (ds_fds s) \<mapsto> 0)\<rparr>)"
  using assms by (simp add: get_mem_fd_def get_fd_def Let_def)

lemma fresh_fd:
  assumes "open_law E" and "de_open E t \<noteq> - 1"
  shows "t(de_open E t := None) = t"
proof -
  have "t (de_open E t) = None" using assms by (simp add: open_law_def)
  then show ?thesis by (simp add: fun_upd_idem)
qed

lemma seek_to:
  assumes "0 \<le> sint a"
  shows "sys_lseek fd a (s\<lparr>ds_fds := t(fd \<mapsto> pos)\<rparr>) = s\<lparr>ds_fds := t(fd \<mapsto> a)\<rparr>"
  using low_position [OF assms] by (simp add: sys_lseek_def mem_map_lseek_def SEEK_SET_def SEEK_CUR_def)

lemma small_count: "n \<in> {4, 2, 1 :: u32} \<Longrightarrow> min (ucast n) MAX_RW_COUNT = ucast n"
  by (auto simp: MAX_RW_COUNT_def)

lemma write_small:
  assumes "mm_good M" and "n \<in> {4, 2, 1 :: u32}"
  shows "mem_map_write M (\<lambda>i. buf ! i) (ucast n) a m =
    (int (unat n), a + ucast n, m\<lparr>mm_phys := store_phys (mm_phys m) a (map ((!) buf) [0..<unat n])\<rparr>)"
  using write_loop_good [OF assms(1), of 0 "ucast n" "\<lambda>i. buf ! i" a m] assms(2)
  by (auto simp: mem_map_write_def)

lemma read_small:
  assumes "mm_good M" and "n \<in> {4, 2, 1 :: u32}"
  shows "mem_map_read M (ucast n) a m = (int (unat n), load_phys (mm_phys m) a (unat n), a + ucast n, m)"
  using read_loop_good [OF assms(1), of a "ucast n" 0 "[]" m] assms mm_goodD(2) [OF assms(1)]
  by (auto simp: mem_map_read_def)

text \<open>The bytes a write stores.\<close>

definition poked :: "u64 \<Rightarrow> u32 \<Rightarrow> u32 \<Rightarrow> mm_state \<Rightarrow> mm_state" where
  "poked a v n m = m\<lparr>mm_phys := store_phys (mm_phys m) a (le_enc (unat n) v)\<rparr>"

lemma write_dram_good:
  assumes "mm_good (de_mm E)" and "open_law E" and "de_open E (ds_fds s) \<noteq> - 1"
    and "0 \<le> sint a" and "n \<in> {4, 2, 1}"
  shows "write_dram_raw E a v n s = (0, s\<lparr>ds_mm := poked a v n (ds_mm s)\<rparr>)"
proof -
  let ?fd = "de_open E (ds_fds s)" and ?buf = "le_enc (unat n) v @ replicate (4 - unat n) 0"
  have fresh: "(ds_fds s)(?fd := None) = ds_fds s" by (rule fresh_fd [OF assms(2,3)])
  have bytes: "map ((!) ?buf) [0..<unat n] = le_enc (unat n) v"
    by (rule nth_equalityI) (auto simp: nth_append)
  have n: "n = 4 \<or> n = 2 \<or> n = 1" and w: "word_of_int (int (unat n)) = n" using assms(5) by auto
  show ?thesis
    unfolding write_dram_raw_def get_mem_fd_opens [OF assms(3)] Let_def prod.case seek_to [OF assms(4)]
    using n assms(4) fresh
    by (simp add: sys_write_def small_count [OF assms(5)] write_small [OF assms(1,5)] bytes w sys_close_def poked_def)
qed

lemma read_dram_good:
  assumes "mm_good (de_mm E)" and "open_law E" and "de_open E (ds_fds s) \<noteq> - 1"
    and "0 \<le> sint a" and "n \<in> {4, 2, 1}"
  shows "read_dram_raw E a v n s = Returns (0, le_dec (load_phys (mm_phys (ds_mm s)) a (unat n)), s)"
proof -
  let ?fd = "de_open E (ds_fds s)"
  have fresh: "(ds_fds s)(?fd := None) = ds_fds s" by (rule fresh_fd [OF assms(2,3)])
  have n: "\<not> 4 < unat n" and w: "word_of_int (int (unat n)) = n" using assms(5) by auto
  show ?thesis
    unfolding read_dram_raw_def get_mem_fd_opens [OF assms(3)] Let_def prod.case seek_to [OF assms(4)]
    using n assms(4) fresh
    by (simp add: sys_read_def small_count [OF assms(5)] read_small [OF assms(1,5)] w sys_close_def
      value_at_bytes [OF assms(5)])
qed

section \<open>The properties of the library\<close>

text \<open>
  C37. A word written to physical memory by 4, 2 or 1 bytes, at an address below two to the
  63, is what a read of that width gives back, cut to the width; both calls return 0, and
  no descriptor stays open.
\<close>

theorem dram_write_then_read:
  assumes "mm_good (de_mm E)" and "open_law E" and op: "de_open E (ds_fds s) \<noteq> - 1"
    and "0 \<le> sint a" and "n \<in> {4, 2, 1}"
  shows "\<exists>s1. write_dram_raw E a v n s = (0, s1) \<and>
    read_dram_raw E a w n s1 = Returns (0, take_bit (8 * unat n) v, s1) \<and>
    ds_fds s1 = ds_fds s \<and> ds_areas s1 = ds_areas s \<and> mm_maps (ds_mm s1) = mm_maps (ds_mm s)"
proof -
  let ?s1 = "s\<lparr>ds_mm := poked a v n (ds_mm s)\<rparr>"
  have "length (le_enc (unat n) v) \<le> 2 ^ 64" using assms(5) by auto
  then have "load_phys (mm_phys (ds_mm ?s1)) a (unat n) = le_enc (unat n) v"
    using load_store_phys [of "le_enc (unat n) v" "mm_phys (ds_mm s)" a] by (simp add: poked_def)
  then have "read_dram_raw E a w n ?s1 = Returns (0, take_bit (8 * unat n) v, ?s1)"
    using read_dram_good [OF assms(1,2) _ assms(4,5), of ?s1] op le_bytes_value [OF assms(5)] by simp
  then show ?thesis
    using write_dram_good [OF assms(1,2) op assms(4,5)] by (intro exI [of _ ?s1]) (simp add: poked_def)
qed

definition sim_dram :: dram_env where
  "sim_dram = \<lparr>de_mm = sim_mm_env, de_open = (\<lambda>t. if t 3 = None then 3 else if t 4 = None then 4 else - 1),
     de_area = Some 0x7F0000000000, de_high_memory = 0x100000000, de_remap = (\<lambda>_ _ _ _. 0)\<rparr>"

definition sim_dram_state :: dram_state where
  "sim_dram_state = \<lparr>ds_mm = \<lparr>mm_phys = (\<lambda>_. 0xA5), mm_maps = {#}\<rparr>, ds_fds = (\<lambda>_. None), ds_areas = {#}\<rparr>"

lemma sim_open_law: "open_law sim_dram"
  by (simp add: open_law_def sim_dram_def)

theorem dram_write_then_read_witness:
  "\<exists>s1. write_dram_raw sim_dram 0xF000D018 0xFFFF1234 2 sim_dram_state = (0, s1) \<and>
    read_dram_raw sim_dram 0xF000D018 0 2 s1 = Returns (0, 0x1234, s1) \<and> ds_fds s1 = ds_fds sim_dram_state"
proof -
  have good: "mm_good (de_mm sim_dram)" using sim_mm_good by (simp add: sim_dram_def)
  have op: "de_open sim_dram (ds_fds sim_dram_state) \<noteq> - 1" by (simp add: sim_dram_def sim_dram_state_def)
  have "take_bit (8 * unat (2 :: u32)) (0xFFFF1234 :: u32) = 0x1234" by (simp add: take_bit_eq_mod)
  then show ?thesis
    using dram_write_then_read [OF good sim_open_law op, of "0xF000D018" 2 "0xFFFF1234" 0] by auto
qed

text \<open>A call that fails after \<open>open\<close> leaves the descriptor open.\<close>

lemma sys_calls_keep_fds:
  "dom (ds_fds (sys_lseek fd off s)) = dom (ds_fds s)"
  "sys_read E fd n s = (r, bs, s') \<Longrightarrow> dom (ds_fds s') = dom (ds_fds s)"
  "sys_write E fd buf n s = (r, s') \<Longrightarrow> dom (ds_fds s') = dom (ds_fds s)"
  by (auto simp: sys_lseek_def sys_read_def sys_write_def split: option.splits if_splits prod.splits)

lemma get_mem_fd_dom:
  assumes "open_law E" and "get_mem_fd E s = (fd, s1)"
  shows "dom (ds_fds s1) = (if fd = - 1 then {} else {fd}) \<union> dom (ds_fds s)"
    and "fd \<noteq> - 1 \<Longrightarrow> fd \<notin> dom (ds_fds s)"
  using assms by (auto simp: get_mem_fd_def get_fd_def open_law_def Let_def split: if_splits)

text \<open>
  The library loses a descriptor on every failure: a word read or written by position
  returns 0 or 1; with 0 the open descriptors are those before the call, with 1 the
  descriptor that the call has opened is still among them.
\<close>

lemma dram_failure_leaks_fd:
  assumes "open_law E" and "de_open E (ds_fds s) \<noteq> - 1"
  shows "(\<forall>r v s'. read_dram_raw E a w n s = Returns (r, v, s') \<longrightarrow>
       r = 0 \<and> dom (ds_fds s') = dom (ds_fds s) \<or>
       r = 1 \<and> dom (ds_fds s') = insert (de_open E (ds_fds s)) (dom (ds_fds s))) \<and>
    (\<forall>r s'. write_dram_raw E a w n s = (r, s') \<longrightarrow>
       r = 0 \<and> dom (ds_fds s') = dom (ds_fds s) \<or>
       r = 1 \<and> dom (ds_fds s') = insert (de_open E (ds_fds s)) (dom (ds_fds s)))"
proof -
  let ?fd = "de_open E (ds_fds s)"
  obtain s1 where s1: "get_mem_fd E s = (?fd, s1)" using get_mem_fd_opens [OF assms(2)] by blast
  note d = get_mem_fd_dom [OF assms(1) s1]
  obtain ret bs s3 where rd: "sys_read E ?fd (ucast n) (sys_lseek ?fd a s1) = (ret, bs, s3)" by (metis prod_cases3)
  have d3: "dom (ds_fds s3) = insert ?fd (dom (ds_fds s))"
    using sys_calls_keep_fds(1,2) rd d(1) assms(2) by simp
  have dw: "dom (ds_fds t) = insert ?fd (dom (ds_fds s))"
    if "sys_write E ?fd buf (ucast n) (sys_lseek ?fd a s1) = (r, t)" for buf r t
    using sys_calls_keep_fds(3) [OF that] sys_calls_keep_fds(1) d(1) assms(2) by simp
  have close: "dom (ds_fds (sys_close ?fd t)) = dom (ds_fds s)" if "dom (ds_fds t) = insert ?fd (dom (ds_fds s))" for t
    using that d(2) assms(2) by (auto simp: sys_close_def)
  have "read_dram_raw E a w n s = Returns (r, v, s') \<longrightarrow>
       r = 0 \<and> dom (ds_fds s') = dom (ds_fds s) \<or>
       r = 1 \<and> dom (ds_fds s') = insert ?fd (dom (ds_fds s))" for r v s'
    using d3 close [OF d3] by (auto simp: read_dram_raw_def s1 rd split: option.splits if_splits)
  moreover have "write_dram_raw E a w n s = (r, s') \<longrightarrow>
       r = 0 \<and> dom (ds_fds s') = dom (ds_fds s) \<or>
       r = 1 \<and> dom (ds_fds s') = insert ?fd (dom (ds_fds s))" for r s'
  proof (cases "n \<noteq> 4 \<and> n \<noteq> 2 \<and> n \<noteq> 1")
    case True
    then show ?thesis
      using d(1) assms(2) sys_calls_keep_fds(1) [of ?fd a s1] by (auto simp: write_dram_raw_def s1)
  next
    case False
    let ?buf = "le_enc (unat n) w @ replicate (4 - unat n) 0"
    obtain wr s4 where wr: "sys_write E ?fd ?buf (ucast n) (sys_lseek ?fd a s1) = (wr, s4)" by fastforce
    have "write_dram_raw E a w n s = (if word_of_int wr \<noteq> n then (1, s4) else (0, sys_close ?fd s4))"
      unfolding write_dram_raw_def Let_def s1 prod.case wr if_not_P [OF False] ..
    then show ?thesis using dw [OF wr] close [OF dw [OF wr]] by (cases "word_of_int wr = n") clarsimp+
  qed
  ultimately show ?thesis by blast
qed

lemma dram_failure_leaks_fd_witness:
  "\<exists>s'. write_dram_raw sim_dram 0xF000D018 7 3 sim_dram_state = (1, s') \<and> dom (ds_fds s') = {3}"
proof -
  have op: "de_open sim_dram (ds_fds sim_dram_state) = 3" by (simp add: sim_dram_def sim_dram_state_def)
  then have "de_open sim_dram (ds_fds sim_dram_state) \<noteq> - 1" by simp
  moreover obtain r s' where w: "write_dram_raw sim_dram 0xF000D018 7 3 sim_dram_state = (r, s')" by fastforce
  moreover have "r = 1" using w by (simp add: write_dram_raw_def get_mem_fd_def get_fd_def Let_def split: prod.splits if_splits)
  ultimately show ?thesis
    using dram_failure_leaks_fd [OF sim_open_law, of sim_dram_state "0xF000D018" 7 3] op by (auto simp: sim_dram_state_def)
qed

text \<open>
  The destination of the \<open>read\<close> has four bytes: a wider read, at any address the file can
  reach, writes past it before the width is checked.
\<close>

lemma read_dram_raw_overflows:
  assumes "mm_good (de_mm E)" and "de_open E (ds_fds s) \<noteq> - 1" and "0 \<le> sint a" and "4 < n"
  shows "read_dram_raw E a w n s = Faults"
proof -
  let ?fd = "de_open E (ds_fds s)" and ?n = "min (ucast n) MAX_RW_COUNT :: u64"
  have "unat (ucast n :: u64) = unat n" 
    using unsigned_less [of n, where 'a = nat] by (simp add: unsigned_ucast_eq take_bit_nat_eq_self_iff)
  then have n: "4 < unat ?n" using assms(4) by (simp add: min_def MAX_RW_COUNT_def word_less_nat_alt)
  have "mem_map_read (de_mm E) ?n a (ds_mm s) = (sint ?n, load_phys (mm_phys (ds_mm s)) a (unat ?n), a + ?n, ds_mm s)"
    using read_loop_good [OF assms(1), of a ?n 0 "[]" "ds_mm s"] mm_goodD(2) [OF assms(1)] by (simp add: mem_map_read_def)
  then show ?thesis
    unfolding read_dram_raw_def get_mem_fd_opens [OF assms(2)] Let_def prod.case seek_to [OF assms(3)]
    using n assms(3) by (simp add: sys_read_def)
qed

lemma write_dram_map_raw_never: "write_dram_map_raw E a v n s \<noteq> Returns (0, s')"
  by (simp add: write_dram_map_raw_def split: prod.split)

end
