(* ===== verification/CdevModules.thy ===== *)
theory CdevModules
  imports Prelude
begin

text \<open>
  The modules that register character devices: moduleCharDriver.c, moduleCreateCharNode.c,
  moduleRegistCdev.c, moduleIrqRegist.c, and moduleSCdevNum.c and moduleDCdevNum.c, which only
  claim device numbers. The state is the module's own variables with everything it has
  registered or allocated; what the kernel answers to each request is the argument \<open>E\<close>.
\<close>

section \<open>State\<close>

definition DEVICE_MINOR_NUM :: nat where "DEVICE_MINOR_NUM = 2"
definition REG_DEV_SIZE :: nat where "REG_DEV_SIZE = 1024"

text \<open>A region starts at a major and a minor number; a device and its node have one number.\<close>

datatype cd_resource =
  Region int int | Class | Cdev int int | Node int int | Devices | Data nat | Gpio nat | Irq nat

record reg_dev =
  rd_data :: "u8 list option"
  rd_size :: u64

text \<open>
  \<open>cd_inputs\<close> are the pins set up as interrupt inputs with a pull-up, and \<open>cd_warned\<close> the
  interrupts the kernel was asked to free without a handler to free.
\<close>

record cd_state =
  numdev_major :: int
  numdev_minor :: int
  my_devices :: "reg_dev list option"
  cd_held :: "cd_resource set"
  cd_inputs :: "nat set"
  cd_warned :: "nat list"

record cd_env =
  ce_region :: int
  ce_major :: int
  ce_class :: bool
  ce_array :: bool
  ce_data :: "nat \<Rightarrow> bool"
  ce_add :: "nat \<Rightarrow> int"
  ce_node :: "nat \<Rightarrow> bool"
  ce_gpio :: "nat \<Rightarrow> int"

definition hold :: "cd_resource \<Rightarrow> cd_state \<Rightarrow> cd_state" where
  "hold r s = s\<lparr>cd_held := insert r (cd_held s)\<rparr>"

definition let_go :: "cd_resource \<Rightarrow> cd_state \<Rightarrow> cd_state" where
  "let_go r s = s\<lparr>cd_held := cd_held s - {r}\<rparr>"

text \<open>A module as it is loaded, with its two parameters.\<close>

definition cd_unloaded :: "int \<Rightarrow> int \<Rightarrow> cd_state" where
  "cd_unloaded major minor =
     \<lparr>numdev_major = major, numdev_minor = minor, my_devices = None, cd_held = {}, cd_inputs = {}, cd_warned = []\<rparr>"

section \<open>Reading and writing\<close>

text \<open>
  The loop of \<open>hello_read\<close> and \<open>hello_write\<close>: byte by byte, with no bound but the count. An
  index past the end of either buffer touches memory that belongs to somebody else.
\<close>

function copy_bytes :: "nat \<Rightarrow> nat \<Rightarrow> u8 list \<Rightarrow> u8 list \<Rightarrow> u8 list outcome" where
  "copy_bytes n i src dst =
     (if n \<le> i then Returns dst
      else if i < length src \<and> i < length dst then copy_bytes n (Suc i) src (dst[i := src ! i])
      else Faults)"
  by pat_completeness auto

termination
  by (relation "measure (\<lambda>(n, i, src, dst). n - i)") auto

declare copy_bytes.simps [simp del]

text \<open>Both devices read and write the data of the first.\<close>

definition first_data :: "cd_state \<Rightarrow> u8 list outcome" where
  "first_data s = (case my_devices s of Some (d # ds) \<Rightarrow>
       (case rd_data d of None \<Rightarrow> Faults | Some bs \<Rightarrow> Returns bs) | _ \<Rightarrow> Faults)"

definition set_first_data :: "u8 list \<Rightarrow> cd_state \<Rightarrow> cd_state" where
  "set_first_data bs s = s\<lparr>my_devices := map_option (\<lambda>ds. ds[0 := (ds ! 0)\<lparr>rd_data := Some bs\<rparr>]) (my_devices s)\<rparr>"

definition char_hello_read :: "u8 list \<Rightarrow> u64 \<Rightarrow> cd_state \<Rightarrow> (u64 \<times> u8 list) outcome" where
  "char_hello_read user n s =
     bind_outcome (first_data s) (\<lambda>bs. bind_outcome (copy_bytes (unat n) 0 bs user) (\<lambda>user'. Returns (0, user')))"

definition char_hello_write :: "u8 list \<Rightarrow> u64 \<Rightarrow> cd_state \<Rightarrow> (u64 \<times> cd_state) outcome" where
  "char_hello_write user n s =
     bind_outcome (first_data s) (\<lambda>bs. bind_outcome (copy_bytes (unat n) 0 user bs) (\<lambda>bs'. Returns (0, set_first_data bs' s)))"

section \<open>Loading\<close>

text \<open>A major number of 0 asks for any; the number that comes back is stored whatever the answer.\<close>

definition register_numbers :: "cd_env \<Rightarrow> cd_state \<Rightarrow> int \<times> cd_state" where
  "register_numbers E s =
     (let s1 = (if numdev_major s \<noteq> 0 then s else s\<lparr>numdev_major := ce_major E\<rparr>)
      in (ce_region E, if ce_region E < 0 then s1 else hold (Region (numdev_major s1) (numdev_minor s1)) s1))"

definition reg_init_cdev :: "cd_env \<Rightarrow> nat \<Rightarrow> cd_state \<Rightarrow> int \<times> cd_state" where
  "reg_init_cdev E i s = (if ce_add E i < 0 then (- 1, s) else (0, hold (Cdev (numdev_major s) (int i)) s))"

definition init_data :: "cd_env \<Rightarrow> nat \<Rightarrow> cd_state \<Rightarrow> cd_state outcome" where
  "init_data E i s =
     (if ce_data E i
      then Returns (hold (Data i) (s\<lparr>my_devices := map_option
        (\<lambda>ds. ds[i := \<lparr>rd_data = Some (replicate REG_DEV_SIZE 0), rd_size = of_nat REG_DEV_SIZE\<rparr>]) (my_devices s)\<rparr>))
      else Faults)"

primrec for_devices :: "(nat \<Rightarrow> cd_state \<Rightarrow> cd_state outcome) \<Rightarrow> nat list \<Rightarrow> cd_state \<Rightarrow> cd_state outcome" where
  "for_devices f [] s = Returns s"
| "for_devices f (i # is) s = bind_outcome (f i s) (for_devices f is)"

definition char_init_dev :: "cd_env \<Rightarrow> nat \<Rightarrow> cd_state \<Rightarrow> cd_state outcome" where
  "char_init_dev E i s = bind_outcome (init_data E i s) (\<lambda>s1.
     let (_, s2) = reg_init_cdev E i s1
     in Returns (if ce_class E \<and> ce_node E i then hold (Node (numdev_major s2) (int i)) s2 else s2))"

definition empty_devs :: "reg_dev list" where
  "empty_devs = replicate DEVICE_MINOR_NUM \<lparr>rd_data = None, rd_size = 0\<rparr>"

definition char_hello_init :: "cd_env \<Rightarrow> cd_state \<Rightarrow> (int \<times> cd_state) outcome" where
  "char_hello_init E s = (case register_numbers E s of (ret, s1) \<Rightarrow>
     if ret < 0 then Returns (- 1, s1)
     else
       let s2 = (if ce_class E then hold Class s1 else s1)
       in if \<not> ce_array E then Returns (- 1, let_go (Region (numdev_major s2) (numdev_minor s2)) s2)
          else bind_outcome (for_devices (char_init_dev E) [0..<DEVICE_MINOR_NUM]
                 (hold Devices (s2\<lparr>my_devices := Some empty_devs\<rparr>)))
               (\<lambda>s3. Returns (0, s3)))"

text \<open>
  Unloading passes on whatever \<open>class_create\<close> answered. \<open>device_destroy\<close> looks for the device in
  the class, which must be one and not the pointer that stands for an error.
\<close>

definition device_destroy :: "nat \<Rightarrow> cd_state \<Rightarrow> cd_state outcome" where
  "device_destroy i s = (if Class \<in> cd_held s then Returns (let_go (Node (numdev_major s) (int i)) s) else Faults)"

definition char_hello_exit :: "cd_state \<Rightarrow> cd_state outcome" where
  "char_hello_exit s = bind_outcome
     (for_devices (\<lambda>i s. case my_devices s of None \<Rightarrow> Faults
         | Some ds \<Rightarrow> device_destroy i (let_go (Cdev (numdev_major s) (int i)) s))
       [0..<DEVICE_MINOR_NUM] s)
     (\<lambda>s1. Returns (let_go (Region (numdev_major s1) (numdev_minor s1))
        (let_go Devices ((let_go Class s1)\<lparr>my_devices := None\<rparr>))))"

text \<open>moduleCreateCharNode.c loads and unloads with the same statements; it has no data to read.\<close>

definition node_hello_init :: "cd_env \<Rightarrow> cd_state \<Rightarrow> (int \<times> cd_state) outcome" where
  "node_hello_init = char_hello_init"

definition node_hello_exit :: "cd_state \<Rightarrow> cd_state outcome" where
  "node_hello_exit = char_hello_exit"

text \<open>moduleRegistCdev.c has neither class nor nodes, and does not free the array.\<close>

definition cdev_init_dev :: "cd_env \<Rightarrow> nat \<Rightarrow> cd_state \<Rightarrow> cd_state outcome" where
  "cdev_init_dev E i s = bind_outcome (init_data E i s) (\<lambda>s1. Returns (snd (reg_init_cdev E i s1)))"

definition cdev_hello_init :: "cd_env \<Rightarrow> cd_state \<Rightarrow> (int \<times> cd_state) outcome" where
  "cdev_hello_init E s = (case register_numbers E s of (ret, s1) \<Rightarrow>
     if ret < 0 then Returns (- 1, s1)
     else if \<not> ce_array E then Returns (- 1, let_go (Region (numdev_major s1) (numdev_minor s1)) s1)
     else bind_outcome (for_devices (cdev_init_dev E) [0..<DEVICE_MINOR_NUM]
            (hold Devices (s1\<lparr>my_devices := Some empty_devs\<rparr>)))
          (\<lambda>s2. Returns (0, s2)))"

definition cdev_hello_exit :: "cd_state \<Rightarrow> cd_state outcome" where
  "cdev_hello_exit s = bind_outcome
     (for_devices (\<lambda>i s. case my_devices s of None \<Rightarrow> Faults
         | Some ds \<Rightarrow> Returns (let_go (Cdev (numdev_major s) (int i)) s)) [0..<DEVICE_MINOR_NUM] s)
     (\<lambda>s1. Returns (let_go (Region (numdev_major s1) (numdev_minor s1)) s1))"

text \<open>
  moduleIrqRegist.c goes on with two pins and returns at the first that is refused. The
  requests for the interrupts are commented out, and unloading frees them all the same.
\<close>

definition cfg_input :: "nat \<Rightarrow> cd_state \<Rightarrow> cd_state" where
  "cfg_input pin s = s\<lparr>cd_inputs := insert pin (cd_inputs s)\<rparr>"

definition irq_hello_init :: "cd_env \<Rightarrow> cd_state \<Rightarrow> (int \<times> cd_state) outcome" where
  "irq_hello_init E s = bind_outcome (char_hello_init E s) (\<lambda>(r, s1).
     if r < 0 then Returns (r, s1)
     else if ce_gpio E 1 \<noteq> 0 then Returns (ce_gpio E 1, s1)
     else let s2 = cfg_input 1 (hold (Gpio 1) s1)
          in if ce_gpio E 2 \<noteq> 0 then Returns (ce_gpio E 2, s2) else Returns (0, cfg_input 2 (hold (Gpio 2) s2)))"

definition free_irq :: "nat \<Rightarrow> cd_state \<Rightarrow> cd_state" where
  "free_irq i s = (if Irq i \<in> cd_held s then let_go (Irq i) s else s\<lparr>cd_warned := cd_warned s @ [i]\<rparr>)"

definition irq_hello_exit :: "cd_state \<Rightarrow> cd_state outcome" where
  "irq_hello_exit s = bind_outcome
     (for_devices (\<lambda>i s. case my_devices s of None \<Rightarrow> Faults
         | Some ds \<Rightarrow> device_destroy i (let_go (Cdev (numdev_major s) (int i)) s))
       [0..<DEVICE_MINOR_NUM] s)
     (\<lambda>s1. let s2 = let_go Devices ((let_go Class s1)\<lparr>my_devices := None\<rparr>); s3 = free_irq 10 (free_irq 9 s2)
        in Returns (let_go (Region (numdev_major s3) (numdev_minor s3)) s3))"

text \<open>
  moduleSCdevNum.c and moduleDCdevNum.c: load and unload of the numbers alone. Both report a
  failure and load all the same; the first only takes a major number it is given.
\<close>

definition snum_hello_init :: "cd_env \<Rightarrow> cd_state \<Rightarrow> int \<times> cd_state" where
  "snum_hello_init E s = (if numdev_major s \<noteq> 0 then (0, snd (register_numbers E s)) else (0, s))"

definition dnum_hello_init :: "cd_env \<Rightarrow> cd_state \<Rightarrow> int \<times> cd_state" where
  "dnum_hello_init E s = (0, snd (register_numbers E s))"

definition num_hello_exit :: "cd_state \<Rightarrow> cd_state" where
  "num_hello_exit s = let_go (Region (numdev_major s) (numdev_minor s)) s"

section \<open>Loading and unloading\<close>

lemma hold_simps [simp]:
  "numdev_major (hold r s) = numdev_major s" "numdev_minor (hold r s) = numdev_minor s"
  "my_devices (hold r s) = my_devices s" "cd_held (hold r s) = insert r (cd_held s)" "cd_warned (hold r s) = cd_warned s"
  by (simp_all add: hold_def)

lemma let_go_simps [simp]:
  "numdev_major (let_go r s) = numdev_major s" "numdev_minor (let_go r s) = numdev_minor s"
  "my_devices (let_go r s) = my_devices s" "cd_held (let_go r s) = cd_held s - {r}" "cd_warned (let_go r s) = cd_warned s"
  by (simp_all add: let_go_def)

lemma cfg_input_simps [simp]:
  "numdev_major (cfg_input i s) = numdev_major s" "numdev_minor (cfg_input i s) = numdev_minor s"
  "my_devices (cfg_input i s) = my_devices s" "cd_held (cfg_input i s) = cd_held s" "cd_warned (cfg_input i s) = cd_warned s"
  by (simp_all add: cfg_input_def)

lemma cd_unloaded_simps [simp]:
  "numdev_major (cd_unloaded a b) = a" "numdev_minor (cd_unloaded a b) = b" "cd_held (cd_unloaded a b) = {}"
  "cd_warned (cd_unloaded a b) = []"
  by (simp_all add: cd_unloaded_def)

lemma both_devices: "[0..<DEVICE_MINOR_NUM] = [0, 1]"
  by (simp add: DEVICE_MINOR_NUM_def upt_rec)

lemma empty_devs_two: "empty_devs = [\<lparr>rd_data = None, rd_size = 0\<rparr>, \<lparr>rd_data = None, rd_size = 0\<rparr>]"
  by (simp add: empty_devs_def DEVICE_MINOR_NUM_def numeral_2_eq_2)

definition zero_dev :: reg_dev where
  "zero_dev = \<lparr>rd_data = Some (replicate REG_DEV_SIZE 0), rd_size = of_nat REG_DEV_SIZE\<rparr>"

text \<open>A module that is loaded: what it surely holds, and what it holds at most.\<close>

definition loaded :: "int \<Rightarrow> int \<Rightarrow> cd_state \<Rightarrow> bool" where
  "loaded major minor s \<longleftrightarrow>
     numdev_major s = major \<and> numdev_minor s = minor \<and> my_devices s = Some [zero_dev, zero_dev] \<and> cd_warned s = [] \<and>
     {Region major minor, Devices, Data 0, Data 1} \<subseteq> cd_held s \<and>
     cd_held s \<subseteq> {Region major minor, Devices, Data 0, Data 1, Class, Cdev major 0, Cdev major 1, Node major 0, Node major 1}"

definition the_major :: "cd_env \<Rightarrow> int \<Rightarrow> int" where
  "the_major E major = (if major \<noteq> 0 then major else ce_major E)"

lemma register_numbers_fresh:
  "register_numbers E (cd_unloaded major minor) =
     (ce_region E, (cd_unloaded (the_major E major) minor)
        \<lparr>cd_held := if ce_region E < 0 then {} else {Region (the_major E major) minor}\<rparr>)"
  by (simp add: register_numbers_def the_major_def Let_def) (simp add: cd_unloaded_def hold_def)

lemma char_init_dev_returns:
  assumes "char_init_dev E i s = Returns t" and "my_devices s = Some ds"
  shows "numdev_major t = numdev_major s" and "numdev_minor t = numdev_minor s" and "cd_warned t = cd_warned s"
    and "my_devices t = Some (ds[i := zero_dev])" and "insert (Data i) (cd_held s) \<subseteq> cd_held t"
    and "cd_held t \<subseteq> {Data i, Cdev (numdev_major s) (int i), Node (numdev_major s) (int i)} \<union> cd_held s"
proof -
  have "numdev_major t = numdev_major s \<and> numdev_minor t = numdev_minor s \<and> cd_warned t = cd_warned s \<and>
      my_devices t = Some (ds[i := zero_dev]) \<and> insert (Data i) (cd_held s) \<subseteq> cd_held t \<and>
      cd_held t \<subseteq> {Data i, Cdev (numdev_major s) (int i), Node (numdev_major s) (int i)} \<union> cd_held s"
    using assms by (auto simp: char_init_dev_def init_data_def reg_init_cdev_def zero_dev_def split: if_splits)
  then show "numdev_major t = numdev_major s" and "numdev_minor t = numdev_minor s" and "cd_warned t = cd_warned s"
    and "my_devices t = Some (ds[i := zero_dev])" and "insert (Data i) (cd_held s) \<subseteq> cd_held t"
    and "cd_held t \<subseteq> {Data i, Cdev (numdev_major s) (int i), Node (numdev_major s) (int i)} \<union> cd_held s" by blast+
qed

lemma cdev_init_dev_char:
  "cdev_init_dev E = char_init_dev (E\<lparr>ce_class := False\<rparr>)"
  by (intro ext) (simp add: cdev_init_dev_def char_init_dev_def init_data_def reg_init_cdev_def)

lemma for_char_devices_loaded:
  assumes "for_devices (char_init_dev E) [0..<DEVICE_MINOR_NUM] (hold Devices (u\<lparr>my_devices := Some empty_devs\<rparr>)) = Returns s"
    and "numdev_major u = major" and "numdev_minor u = minor" and "cd_warned u = []"
    and "cd_held u = {Region major minor} \<or> cd_held u = {Class, Region major minor}"
  shows "loaded major minor s" and "Class \<in> cd_held s \<longleftrightarrow> Class \<in> cd_held u"
proof -
  from assms(1) obtain t where t: "char_init_dev E 0 (hold Devices (u\<lparr>my_devices := Some empty_devs\<rparr>)) = Returns t"
    "char_init_dev E 1 t = Returns s" by (auto simp: both_devices)
  note a = char_init_dev_returns [OF t(1), of empty_devs, simplified]
  note b = char_init_dev_returns [OF t(2) a(4)]
  have "my_devices s = Some [zero_dev, zero_dev]" using b(4) by (simp add: empty_devs_two)
  then show "loaded major minor s" unfolding loaded_def using a(1-3,5,6) b(1-3,5,6) assms(2-5) by auto
  show "Class \<in> cd_held s \<longleftrightarrow> Class \<in> cd_held u" using a(5,6) b(5,6) by auto
qed

lemma char_hello_init_loaded:
  assumes "char_hello_init E (cd_unloaded major minor) = Returns (r, s)"
  shows "r = - 1 \<and> cd_held s = (if 0 \<le> ce_region E \<and> ce_class E then {Class} else {}) \<or>
    r = 0 \<and> loaded (the_major E major) minor s \<and> (Class \<in> cd_held s \<longleftrightarrow> ce_class E)"
proof (cases "ce_region E < 0 \<or> \<not> ce_array E")
  case True
  then show ?thesis
    using assms by (auto simp: char_hello_init_def register_numbers_fresh Let_def split: if_splits)
next
  case False
  let ?u = "(cd_unloaded (the_major E major) minor)\<lparr>cd_held := {Region (the_major E major) minor}\<rparr>"
  have "r = 0" and run: "for_devices (char_init_dev E) [0..<DEVICE_MINOR_NUM]
      (hold Devices ((if ce_class E then hold Class ?u else ?u)\<lparr>my_devices := Some empty_devs\<rparr>)) = Returns s"
    using False assms by (simp_all add: char_hello_init_def register_numbers_fresh Let_def)
  from for_char_devices_loaded [OF run] \<open>r = 0\<close> show ?thesis by auto
qed

lemma cdev_hello_init_loaded:
  assumes "cdev_hello_init E (cd_unloaded major minor) = Returns (r, s)"
  shows "r = - 1 \<and> cd_held s = {} \<or> r = 0 \<and> loaded (the_major E major) minor s"
proof (cases "ce_region E < 0 \<or> \<not> ce_array E")
  case True
  then show ?thesis
    using assms by (auto simp: cdev_hello_init_def register_numbers_fresh split: if_splits)
next
  case False
  let ?u = "(cd_unloaded (the_major E major) minor)\<lparr>cd_held := {Region (the_major E major) minor}\<rparr>"
  have "r = 0" and run: "for_devices (char_init_dev (E\<lparr>ce_class := False\<rparr>)) [0..<DEVICE_MINOR_NUM]
      (hold Devices (?u\<lparr>my_devices := Some empty_devs\<rparr>)) = Returns s"
    using False assms by (simp_all add: cdev_hello_init_def register_numbers_fresh cdev_init_dev_char)
  from for_char_devices_loaded [OF run] \<open>r = 0\<close> show ?thesis by auto
qed

text \<open>What unloading takes away from a module that has its array.\<close>

lemma char_exit_held:
  assumes "my_devices s = Some ds" and "numdev_major s = major" and "numdev_minor s = minor" and "Class \<in> cd_held s"
  obtains t where "char_hello_exit s = Returns t" and "cd_warned t = cd_warned s" and "my_devices t = None"
    and "cd_held t = cd_held s - {Cdev major 0, Node major 0, Cdev major 1, Node major 1, Class, Devices, Region major minor}"
  using assms by (simp add: char_hello_exit_def device_destroy_def both_devices set_diff_eq)

lemma cdev_exit_held:
  assumes "my_devices s = Some ds" and "numdev_major s = major" and "numdev_minor s = minor"
  obtains t where "cdev_hello_exit s = Returns t"
    and "cd_held t = cd_held s - {Cdev major 0, Cdev major 1, Region major minor}"
  using assms by (simp add: cdev_hello_exit_def both_devices set_diff_eq)

lemma irq_exit_held:
  assumes "my_devices s = Some ds" and "numdev_major s = major" and "numdev_minor s = minor"
    and "Class \<in> cd_held s" and "Irq 9 \<notin> cd_held s" and "Irq 10 \<notin> cd_held s"
  obtains t where "irq_hello_exit s = Returns t" and "cd_warned t = cd_warned s @ [9, 10]"
    and "cd_held t = cd_held s - {Cdev major 0, Node major 0, Cdev major 1, Node major 1, Class, Devices, Region major minor}"
  using assms by (simp add: irq_hello_exit_def device_destroy_def both_devices free_irq_def Let_def set_diff_eq)

lemma char_init_dev_no_node:
  assumes "char_init_dev E i s = Returns t" and "\<not> ce_class E"
  shows "cd_held t \<subseteq> {Data i, Cdev (numdev_major s) (int i)} \<union> cd_held s" and "numdev_major t = numdev_major s"
  using assms by (auto simp: char_init_dev_def init_data_def reg_init_cdev_def split: if_splits)

lemma cdev_hello_init_no_node:
  assumes "cdev_hello_init E (cd_unloaded major minor) = Returns (0, s)"
  shows "cd_held s \<subseteq> {Region (the_major E major) minor, Devices, Data 0, Data 1, Cdev (the_major E major) 0, Cdev (the_major E major) 1}"
proof -
  let ?u = "(cd_unloaded (the_major E major) minor)\<lparr>cd_held := {Region (the_major E major) minor}\<rparr>"
  let ?E = "E\<lparr>ce_class := False\<rparr>"
  obtain t where t: "char_init_dev ?E 0 (hold Devices (?u\<lparr>my_devices := Some empty_devs\<rparr>)) = Returns t"
      "char_init_dev ?E 1 t = Returns s"
    using assms by (auto simp: cdev_hello_init_def register_numbers_fresh cdev_init_dev_char both_devices split: if_splits)
  show ?thesis
    using char_init_dev_no_node [OF t(1)] char_init_dev_no_node [OF t(2)] by auto
qed

lemma irq_hello_init_cases:
  assumes "irq_hello_init E (cd_unloaded major minor) = Returns (r, s)"
  obtains (fails) "r = - 1" and "cd_held s \<subseteq> {Class}"
    | (pin) u where "r \<noteq> 0" and "loaded (the_major E major) minor u" and "cd_held u \<subseteq> cd_held s"
    | (loads) u where "r = 0" and "loaded (the_major E major) minor u" and "Class \<in> cd_held u \<longleftrightarrow> ce_class E" and "s = cfg_input 2 (hold (Gpio 2) (cfg_input 1 (hold (Gpio 1) u)))"
proof -
  obtain q u where u: "char_hello_init E (cd_unloaded major minor) = Returns (q, u)"
    using assms by (auto simp: irq_hello_init_def)
  from char_hello_init_loaded [OF u] show thesis
  proof (elim disjE conjE)
    assume q: "q = - 1" and held: "cd_held u = (if 0 \<le> ce_region E \<and> ce_class E then {Class} else {})"
    have "r = - 1" and "s = u" using assms q u by (simp_all add: irq_hello_init_def)
    then show thesis using held by (intro fails) (simp_all split: if_splits)
  next
    assume q: "q = 0" and l: "loaded (the_major E major) minor u" and c: "Class \<in> cd_held u \<longleftrightarrow> ce_class E"
    show thesis
    proof (cases "ce_gpio E 1 = 0 \<and> ce_gpio E 2 = 0")
      case True
      then have "r = 0" and "s = cfg_input 2 (hold (Gpio 2) (cfg_input 1 (hold (Gpio 1) u)))" using assms q u by (simp_all add: irq_hello_init_def)
      then show thesis using l c by (intro loads)
    next
      case False
      then have "r \<noteq> 0 \<and> cd_held u \<subseteq> cd_held s"
        using assms q u by (cases "ce_gpio E 1 = 0") (auto simp: irq_hello_init_def)
      then show thesis using l by (intro pin) blast+
    qed
  qed
qed

text \<open>What is left of a module that was loaded, by the function that unloads it.\<close>

lemma char_exit_leaves:
  assumes l: "loaded m minor s"
  shows "if Class \<in> cd_held s then \<exists>t. char_hello_exit s = Returns t \<and> cd_held t = {Data 0, Data 1} else char_hello_exit s = Faults"
proof (cases "Class \<in> cd_held s")
  case True
  obtain t where "char_hello_exit s = Returns t" "cd_held t =
      cd_held s - {Cdev m 0, Node m 0, Cdev m 1, Node m 1, Class, Devices, Region m minor}"
    by (rule char_exit_held [of s "[zero_dev, zero_dev]" m minor]) (use l True in \<open>auto simp: loaded_def\<close>)
  then show ?thesis using l True by (auto simp: loaded_def)
next
  case False
  with l show ?thesis by (simp add: char_hello_exit_def both_devices device_destroy_def loaded_def)
qed

lemma cdev_exit_leaves:
  assumes l: "loaded (the_major E major) minor s" and a: "cdev_hello_init E (cd_unloaded major minor) = Returns (0, s)"
  shows "\<exists>t. cdev_hello_exit s = Returns t \<and> cd_held t = {Devices, Data 0, Data 1}"
proof -
  let ?m = "the_major E major"
  obtain t where "cdev_hello_exit s = Returns t" "cd_held t = cd_held s - {Cdev ?m 0, Cdev ?m 1, Region ?m minor}"
    by (rule cdev_exit_held [of s "[zero_dev, zero_dev]" ?m minor]) (use l in \<open>auto simp: loaded_def\<close>)
  moreover have "{Devices, Data 0, Data 1} \<subseteq> cd_held s" using l by (simp add: loaded_def)
  ultimately show ?thesis using cdev_hello_init_no_node [OF a] by auto
qed

lemma irq_exit_leaves:
  assumes l: "loaded m minor u" and s: "s = cfg_input 2 (hold (Gpio 2) (cfg_input 1 (hold (Gpio 1) u)))"
  shows "if Class \<in> cd_held u
    then \<exists>t. irq_hello_exit s = Returns t \<and> cd_held t = {Data 0, Data 1, Gpio 1, Gpio 2} \<and> cd_warned t = [9, 10]
    else irq_hello_exit s = Faults"
proof (cases "Class \<in> cd_held u")
  case True
  obtain t where "irq_hello_exit s = Returns t" "cd_warned t = cd_warned s @ [9, 10]" "cd_held t =
      cd_held s - {Cdev m 0, Node m 0, Cdev m 1, Node m 1, Class, Devices, Region m minor}"
    by (rule irq_exit_held [of s "[zero_dev, zero_dev]" m minor]) (use l s True in \<open>auto simp: loaded_def\<close>)
  then show ?thesis using l s True by (auto simp: loaded_def)
next
  case False
  with l s show ?thesis by (simp add: irq_hello_exit_def both_devices device_destroy_def loaded_def)
qed

section \<open>The properties of the modules\<close>

text \<open>
  C40. What the modules leave behind when they are loaded and unloaded, whatever the kernel
  answers: moduleCharDriver keeps its two buffers; moduleRegistCdev also keeps the array;
  moduleIrqRegist also keeps the two pins and has had the kernel complain about two
  interrupts that were never requested. A load that fails for want of memory keeps the class,
  and one that fails at a pin keeps everything: region, array and buffers are still held
  when the code that serves them is gone. When the class cannot be made, two of the modules load
  all the same, and unloading them crashes.
\<close>

theorem cdev_modules_leak:
  "(\<forall>r s. char_hello_init E (cd_unloaded major minor) = Returns (r, s) \<longrightarrow>
      r = - 1 \<and> cd_held s = (if 0 \<le> ce_region E \<and> ce_class E then {Class} else {}) \<or>
      r = 0 \<and> (if ce_class E then \<exists>t. char_hello_exit s = Returns t \<and> cd_held t = {Data 0, Data 1} else char_hello_exit s = Faults)) \<and>
   (\<forall>r s. cdev_hello_init E (cd_unloaded major minor) = Returns (r, s) \<longrightarrow>
      r = - 1 \<and> cd_held s = {} \<or>
      r = 0 \<and> (\<exists>t. cdev_hello_exit s = Returns t \<and> cd_held t = {Devices, Data 0, Data 1})) \<and>
   (\<forall>r s. irq_hello_init E (cd_unloaded major minor) = Returns (r, s) \<longrightarrow>
      r = - 1 \<and> cd_held s \<subseteq> {Class} \<or>
      r \<noteq> 0 \<and> {Region (the_major E major) minor, Devices, Data 0, Data 1} \<subseteq> cd_held s \<or>
      r = 0 \<and> (if ce_class E then \<exists>t. irq_hello_exit s = Returns t \<and> cd_held t = {Data 0, Data 1, Gpio 1, Gpio 2} \<and> cd_warned t = [9, 10]
        else irq_hello_exit s = Faults))"
proof (intro conjI allI impI)
  fix r s assume "char_hello_init E (cd_unloaded major minor) = Returns (r, s)"
  from char_hello_init_loaded [OF this] char_exit_leaves [of "the_major E major" minor s]
  show "r = - 1 \<and> cd_held s = (if 0 \<le> ce_region E \<and> ce_class E then {Class} else {}) \<or>
      r = 0 \<and> (if ce_class E then \<exists>t. char_hello_exit s = Returns t \<and> cd_held t = {Data 0, Data 1} else char_hello_exit s = Faults)" by (cases "ce_class E"; elim disjE conjE; simp)
next
  fix r s assume a: "cdev_hello_init E (cd_unloaded major minor) = Returns (r, s)"
  show "r = - 1 \<and> cd_held s = {} \<or>
      r = 0 \<and> (\<exists>t. cdev_hello_exit s = Returns t \<and> cd_held t = {Devices, Data 0, Data 1})"
    using cdev_hello_init_loaded [OF a] cdev_exit_leaves a by blast
next
  fix r s assume "irq_hello_init E (cd_unloaded major minor) = Returns (r, s)"
  then show "r = - 1 \<and> cd_held s \<subseteq> {Class} \<or>
      r \<noteq> 0 \<and> {Region (the_major E major) minor, Devices, Data 0, Data 1} \<subseteq> cd_held s \<or>
      r = 0 \<and> (if ce_class E then \<exists>t. irq_hello_exit s = Returns t \<and> cd_held t = {Data 0, Data 1, Gpio 1, Gpio 2} \<and> cd_warned t = [9, 10]
        else irq_hello_exit s = Faults)"
  proof (cases rule: irq_hello_init_cases)
    case (pin u)
    then show ?thesis by (auto simp: loaded_def)
  next
    case (loads u)
    with irq_exit_leaves [OF loads(2,4)] show ?thesis by (cases "ce_class E"; simp)
  qed simp
qed

definition sim_cd_env :: cd_env where
  "sim_cd_env = \<lparr>ce_region = 0, ce_major = 244, ce_class = True, ce_array = True, ce_data = (\<lambda>_. True),
     ce_add = (\<lambda>_. 0), ce_node = (\<lambda>_. True), ce_gpio = (\<lambda>_. 0)\<rparr>"

lemma sim_char_loads: "\<exists>s. char_hello_init sim_cd_env (cd_unloaded 0 0) = Returns (0, s)"
  by (simp add: char_hello_init_def register_numbers_fresh both_devices char_init_dev_def init_data_def sim_cd_env_def Let_def
    split: prod.split)

theorem cdev_modules_leak_witness:
  "\<exists>s t. char_hello_init sim_cd_env (cd_unloaded 0 0) = Returns (0, s) \<and>
     char_hello_exit s = Returns t \<and> cd_held t = {Data 0, Data 1}"
proof -
  obtain s where s: "char_hello_init sim_cd_env (cd_unloaded 0 0) = Returns (0, s)" using sim_char_loads by blast
  then show ?thesis using cdev_modules_leak [THEN conjunct1, rule_format, OF s] by (auto simp: sim_cd_env_def)
qed

section \<open>Data\<close>

lemma copy_bytes_within:
  assumes "n \<le> length src" and "n \<le> length dst" and "i \<le> n"
  shows "copy_bytes n i src dst = Returns (take i dst @ drop i (take n src) @ drop n dst)"
  using assms
proof (induction n i src dst rule: copy_bytes.induct)
  case (1 n i src dst)
  show ?case
  proof (cases "n = i")
    case True
    with 1 show ?thesis by (simp add: copy_bytes.simps)
  next
    case False
    with "1.prems" have i: "i < n" "i < length src" "i < length dst" by auto
    have "copy_bytes n i src dst = copy_bytes n (Suc i) src (dst[i := src ! i])"
      using i by (subst copy_bytes.simps) simp
    also have "\<dots> = Returns (take (Suc i) (dst[i := src ! i]) @ drop (Suc i) (take n src) @ drop n (dst[i := src ! i]))"
      using "1.IH" "1.prems" i by simp
    also have "take (Suc i) (dst[i := src ! i]) = take i dst @ [src ! i]" using i(3) by (simp add: take_Suc_conv_app_nth)
    also have "drop n (dst[i := src ! i]) = drop n dst" using i(1) by simp
    also have "(take i dst @ [src ! i]) @ drop (Suc i) (take n src) @ drop n dst = take i dst @ drop i (take n src) @ drop n dst"
      using Cons_nth_drop_Suc [of i "take n src"] i(1,2) by simp
    finally show ?thesis .
  qed
qed

lemma copy_bytes_beyond:
  assumes "length src < n \<or> length dst < n" and "i \<le> length src" and "i \<le> length dst"
  shows "copy_bytes n i src dst = Faults"
  using assms
proof (induction n i src dst rule: copy_bytes.induct)
  case (1 n i src dst)
  then show ?case by (subst copy_bytes.simps) auto
qed

text \<open>The data that both nodes read and write, as long as it is there.\<close>

definition has_data :: "u8 list \<Rightarrow> cd_state \<Rightarrow> bool" where
  "has_data bs s \<longleftrightarrow> first_data s = Returns bs"

lemma has_data_first: "my_devices s = Some (d # ds) \<Longrightarrow> rd_data d = Some bs \<Longrightarrow> has_data bs s"
  by (simp add: has_data_def first_data_def)

lemma has_data_set: "has_data bs s \<Longrightarrow> has_data cs (set_first_data cs s)"
  by (auto simp: has_data_def first_data_def set_first_data_def split: option.splits list.splits)

lemma char_write_within:
  assumes "has_data bs s" and "unat n \<le> length bs" and "unat n \<le> length user"
  shows "char_hello_write user n s = Returns (0, set_first_data (take (unat n) user @ drop (unat n) bs) s)"
  using assms by (simp add: char_hello_write_def has_data_def copy_bytes_within)

lemma char_read_within:
  assumes "has_data bs s" and "unat n \<le> length bs" and "unat n \<le> length dst"
  shows "char_hello_read dst n s = Returns (0, take (unat n) bs @ drop (unat n) dst)"
  using assms by (simp add: char_hello_read_def has_data_def copy_bytes_within)

text \<open>
  The character device has no bounds: a write of at most 1024 bytes, the size of the
  buffer, is read back byte for byte, whichever of the two nodes it went to and comes from,
  and both calls return 0; a longer write or read runs over the end of the buffer.
\<close>

lemma char_write_then_read:
  assumes "my_devices s = Some (d # ds)" and "rd_data d = Some bs" and "length bs = REG_DEV_SIZE"
    and "unat n \<le> length user" and "unat n \<le> length dst"
  shows "(unat n \<le> REG_DEV_SIZE \<longrightarrow> (\<exists>t. char_hello_write user n s = Returns (0, t) \<and>
      char_hello_read dst n t = Returns (0, take (unat n) user @ drop (unat n) dst))) \<and>
    (REG_DEV_SIZE < unat n \<longrightarrow> char_hello_write user n s = Faults \<and> char_hello_read dst n s = Faults)"
proof (intro conjI impI)
  assume n: "unat n \<le> REG_DEV_SIZE"
  note data = has_data_first [OF assms(1,2)]
  show "\<exists>t. char_hello_write user n s = Returns (0, t) \<and>
      char_hello_read dst n t = Returns (0, take (unat n) user @ drop (unat n) dst)"
    using char_write_within [OF data] char_read_within [OF has_data_set [OF data]] assms(3-5) n by simp
next
  assume "REG_DEV_SIZE < unat n"
  then show "char_hello_write user n s = Faults" and "char_hello_read dst n s = Faults"
    using assms by (simp_all add: char_hello_write_def char_hello_read_def first_data_def copy_bytes_beyond)
qed

lemma char_write_then_read_witness:
  "\<exists>s t. char_hello_init sim_cd_env (cd_unloaded 0 0) = Returns (0, s) \<and>
     char_hello_write [1, 2, 3] 3 s = Returns (0, t) \<and> char_hello_read [9, 9, 9, 9] 3 t = Returns (0, [1, 2, 3, 9])"
proof -
  obtain s where s: "char_hello_init sim_cd_env (cd_unloaded 0 0) = Returns (0, s)" using sim_char_loads by blast
  then have d: "my_devices s = Some (zero_dev # [zero_dev])"
    using char_hello_init_loaded [OF s] by (simp add: loaded_def)
  have z: "rd_data zero_dev = Some (replicate REG_DEV_SIZE 0)" "length (replicate REG_DEV_SIZE (0 :: u8)) = REG_DEV_SIZE"
    by (simp_all add: zero_dev_def)
  show ?thesis using char_write_then_read [OF d z, of 3 "[1, 2, 3]" "[9, 9, 9, 9]"] s by (auto simp: REG_DEV_SIZE_def)
qed

text \<open>
  The minor number given as a parameter is not added to those of the devices: with any other
  than 0, the first device is outside of the region that was claimed.
\<close>

lemma devices_outside_region:
  assumes "char_hello_init E (cd_unloaded major minor) = Returns (0, s)" and "0 < minor"
    and "Cdev (the_major E major) 0 \<in> cd_held s"
  shows "\<exists>a b. Cdev a b \<in> cd_held s \<and> \<not> (\<exists>c. Region a c \<in> cd_held s \<and> c \<le> b \<and> b < c + int DEVICE_MINOR_NUM)"
proof (intro exI conjI)
  show "Cdev (the_major E major) 0 \<in> cd_held s" by (rule assms(3))
  have "loaded (the_major E major) minor s" using char_hello_init_loaded [OF assms(1)] by simp
  then have "c = minor" if "Region (the_major E major) c \<in> cd_held s" for c using that by (auto simp: loaded_def)
  with assms(2) show "\<not> (\<exists>c. Region (the_major E major) c \<in> cd_held s \<and> c \<le> 0 \<and> 0 < c + int DEVICE_MINOR_NUM)" by force
qed

end
