(* ===== verification/PlatformModules.thy ===== *)
theory PlatformModules
  imports Prelude
begin

text \<open>
  The modules around the platform bus: the LED driver of moduleDriverLEDS.c, the misc device of
  moduleMiscDriverRegist.c, the bare driver of moduleDriverRegist.c, and the pair
  platform_drv.c and platform_dev.c. What the kernel holds for a module is a record of sets;
  its answers are arguments.
\<close>

datatype plat_object = Drv_hello | Drv_test | Dev_test

text \<open>
  The registered drivers and devices, the pins that are requested and those that are set up as
  outputs, the level each pin drives, whether the misc device is there, and the number of complaints about taking away what is not there.
\<close>

record plat_state =
  pl_objects :: "plat_object set"
  pl_pins :: "nat set"
  pl_outputs :: "nat set"
  pl_levels :: "nat \<Rightarrow> bool"
  pl_misc :: bool
  pl_warnings :: nat

definition plat_register :: "int \<Rightarrow> plat_object \<Rightarrow> plat_state \<Rightarrow> int \<times> plat_state" where
  "plat_register ret x s =
     (if x \<in> pl_objects s then (- EBUSY, s)
      else if ret \<noteq> 0 then (ret, s) else (0, s\<lparr>pl_objects := insert x (pl_objects s)\<rparr>))"

definition plat_unregister :: "plat_object \<Rightarrow> plat_state \<Rightarrow> plat_state" where
  "plat_unregister x s =
     (if x \<in> pl_objects s then s\<lparr>pl_objects := pl_objects s - {x}\<rparr> else s\<lparr>pl_warnings := Suc (pl_warnings s)\<rparr>)"

definition misc_register :: "int \<Rightarrow> plat_state \<Rightarrow> int \<times> plat_state" where
  "misc_register ret s = (if ret < 0 then (ret, s) else (0, s\<lparr>pl_misc := True\<rparr>))"

definition misc_deregister :: "plat_state \<Rightarrow> plat_state" where
  "misc_deregister s = (if pl_misc s then s\<lparr>pl_misc := False\<rparr> else s\<lparr>pl_warnings := Suc (pl_warnings s)\<rparr>)"

text \<open>A pin that is requested already is busy.\<close>

definition gpio_request :: "int \<Rightarrow> nat \<Rightarrow> plat_state \<Rightarrow> int \<times> plat_state" where
  "gpio_request ret pin s =
     (if pin \<in> pl_pins s then (- EBUSY, s)
      else if ret < 0 then (ret, s) else (0, s\<lparr>pl_pins := insert pin (pl_pins s)\<rparr>))"

definition cfg_output :: "nat \<Rightarrow> plat_state \<Rightarrow> plat_state" where
  "cfg_output pin s = s\<lparr>pl_outputs := insert pin (pl_outputs s)\<rparr>"

definition gpio_set_value :: "nat \<Rightarrow> u32 \<Rightarrow> plat_state \<Rightarrow> plat_state" where
  "gpio_set_value pin v s = s\<lparr>pl_levels := (pl_levels s)(pin := v \<noteq> 0)\<rparr>"

section \<open>moduleDriverLEDS.c\<close>

definition LED :: nat where "LED = 0"

text \<open>A command above 1 is reported and driven all the same.\<close>

definition leds_misc_ioctl :: "u32 \<Rightarrow> u64 \<Rightarrow> plat_state \<Rightarrow> int \<times> plat_state" where
  "leds_misc_ioctl cmd arg s = (0, gpio_set_value LED cmd s)"

definition leds_probe :: "int \<Rightarrow> int \<Rightarrow> plat_state \<Rightarrow> int \<times> plat_state" where
  "leds_probe gpio misc s = (case gpio_request gpio LED s of (ret, s1) \<Rightarrow>
     if ret < 0 then (ret, s1)
     else (0, snd (misc_register misc (gpio_set_value LED 0 (cfg_output LED s1)))))"

definition leds_remove :: "plat_state \<Rightarrow> int \<times> plat_state" where
  "leds_remove s = (0, misc_deregister s)"

definition leds_init :: "int \<Rightarrow> plat_state \<Rightarrow> int \<times> plat_state" where
  "leds_init ret s = (0, snd (plat_register ret Drv_hello s))"

definition leds_exit :: "plat_state \<Rightarrow> plat_state" where
  "leds_exit s = plat_unregister Drv_hello s"

section \<open>moduleMiscDriverRegist.c and moduleDriverRegist.c\<close>

definition misc_probe :: "int \<Rightarrow> plat_state \<Rightarrow> int \<times> plat_state" where
  "misc_probe misc s = (0, snd (misc_register misc s))"

definition misc_remove :: "plat_state \<Rightarrow> int \<times> plat_state" where
  "misc_remove s = (0, misc_deregister s)"

definition misc_init :: "int \<Rightarrow> plat_state \<Rightarrow> int \<times> plat_state" where
  "misc_init ret s = (0, snd (plat_register ret Drv_hello s))"

definition misc_exit :: "plat_state \<Rightarrow> plat_state" where
  "misc_exit s = plat_unregister Drv_hello s"

definition drv_init :: "int \<Rightarrow> plat_state \<Rightarrow> int \<times> plat_state" where
  "drv_init ret s = (0, snd (plat_register ret Drv_hello s))"

text \<open>Unloading prints a line and leaves the driver registered.\<close>

definition drv_exit :: "plat_state \<Rightarrow> plat_state" where
  "drv_exit s = s"

section \<open>platform_drv.c and platform_dev.c\<close>

definition add_my_platform_drv :: "int \<Rightarrow> plat_state \<Rightarrow> int \<times> plat_state" where
  "add_my_platform_drv ret s = (case plat_register ret Drv_test s of (r, s1) \<Rightarrow>
     if r \<noteq> 0 then (- 1, s1) else (0, s1))"

definition kill_my_platform_drv :: "plat_state \<Rightarrow> int \<times> plat_state" where
  "kill_my_platform_drv s = (0, plat_unregister Drv_test s)"

definition platform_test_init :: "int \<Rightarrow> plat_state \<Rightarrow> int \<times> plat_state" where
  "platform_test_init ret s = (0, snd (add_my_platform_drv ret s))"

definition platform_test_exit :: "plat_state \<Rightarrow> plat_state" where
  "platform_test_exit s = snd (kill_my_platform_drv s)"

definition add_my_platform_dev :: "int \<Rightarrow> plat_state \<Rightarrow> int \<times> plat_state" where
  "add_my_platform_dev ret s = (case plat_register ret Dev_test s of (r, s1) \<Rightarrow>
     if r \<noteq> 0 then (- 1, s1) else (0, s1))"

definition kill_my_platform_dev :: "plat_state \<Rightarrow> int \<times> plat_state" where
  "kill_my_platform_dev s = (0, plat_unregister Dev_test s)"

definition platform_dev_init :: "int \<Rightarrow> plat_state \<Rightarrow> int \<times> plat_state" where
  "platform_dev_init ret s = (0, snd (add_my_platform_dev ret s))"

definition platform_dev_exit :: "plat_state \<Rightarrow> plat_state" where
  "platform_dev_exit s = snd (kill_my_platform_dev s)"

lemmas plat_defs = plat_register_def plat_unregister_def misc_register_def misc_deregister_def
  gpio_request_def cfg_output_def gpio_set_value_def

section \<open>Properties\<close>

text \<open>
  The LED driver asks for its pin and never gives it back: once it has been probed and
  removed, every later probe is refused with \<open>-EBUSY\<close>.
\<close>

lemma leds_reprobe_fails:
  assumes "leds_probe g m s = (0, s1)" and "leds_remove s1 = (r, s2)"
  shows "leds_probe g' m' s2 = (- EBUSY, s2)" and "\<not> pl_levels s2 LED" and "pl_misc s2 = False \<or> m < 0"
proof -
  have "LED \<in> pl_pins s2 \<and> \<not> pl_levels s2 LED \<and> (pl_misc s2 = False \<or> m < 0)"
    using assms by (auto simp: leds_probe_def leds_remove_def plat_defs split: if_splits)
  then show "leds_probe g' m' s2 = (- EBUSY, s2)" and "\<not> pl_levels s2 LED" and "pl_misc s2 = False \<or> m < 0"
    by (auto simp: leds_probe_def gpio_request_def)
qed

text \<open>The bare driver stays registered after its module is gone, and loading it again
  registers nothing.\<close>

lemma drv_exit_leaves_driver:
  assumes "Drv_hello \<notin> pl_objects s"
  shows "Drv_hello \<in> pl_objects (drv_exit (snd (drv_init 0 s)))"
    and "drv_init 0 (drv_exit (snd (drv_init 0 s))) = (0, drv_exit (snd (drv_init 0 s)))"
  using assms by (simp_all add: drv_init_def drv_exit_def plat_defs)

text \<open>
  Loading the driver or the device always succeeds; unloading restores what was registered, and
  when the registration had failed it takes away what is not there.
\<close>

lemma platform_load_unload:
  assumes "Drv_test \<notin> pl_objects s" and "Dev_test \<notin> pl_objects s"
  shows "platform_test_exit (snd (platform_test_init ret s)) = (if ret = 0 then s else s\<lparr>pl_warnings := Suc (pl_warnings s)\<rparr>)"
    and "platform_dev_exit (snd (platform_dev_init ret s)) = (if ret = 0 then s else s\<lparr>pl_warnings := Suc (pl_warnings s)\<rparr>)"
  using assms
  by (auto simp: platform_test_exit_def platform_test_init_def platform_dev_exit_def platform_dev_init_def
    add_my_platform_drv_def kill_my_platform_drv_def add_my_platform_dev_def kill_my_platform_dev_def plat_defs)

end
