(* ===== verification/MiscModules.thy ===== *)
theory MiscModules
  imports CStrings
begin

text \<open>
  The modules that only print: moduleOnlyMiscDriverRegist.c and moduleParam.c, which register a
  misc device of the same name, and moduleTest.c. The state is the list of misc devices the
  kernel has, what it has complained about, and its log, line by line without the level
  that \<open>KERN_EMERG\<close> puts in front.
\<close>

section \<open>The misc devices and the log\<close>

abbreviation (input) EEXIST :: int where "EEXIST \<equiv> 17"

datatype misc_owner = Only_misc | Param_misc

record misc_state =
  ms_nodes :: "(misc_owner \<times> string) list"
  ms_warnings :: nat
  ms_log :: "u8 list list"

definition printk :: "u8 list \<Rightarrow> misc_state \<Rightarrow> misc_state" where
  "printk l s = s\<lparr>ms_log := ms_log s @ [l]\<rparr>"

text \<open>
  The kernel refuses a second device of a name, and complains when a device is taken
  away that is not registered.
\<close>

definition misc_add :: "int \<Rightarrow> misc_owner \<Rightarrow> string \<Rightarrow> misc_state \<Rightarrow> int \<times> misc_state" where
  "misc_add ret owner name s =
     (if name \<in> snd ` set (ms_nodes s) then (- EEXIST, s)
      else if ret < 0 then (ret, s) else (0, s\<lparr>ms_nodes := ms_nodes s @ [(owner, name)]\<rparr>))"

definition misc_del :: "misc_owner \<Rightarrow> misc_state \<Rightarrow> misc_state" where
  "misc_del owner s =
     (if owner \<in> fst ` set (ms_nodes s) then s\<lparr>ms_nodes := filter (\<lambda>e. fst e \<noteq> owner) (ms_nodes s)\<rparr>
      else s\<lparr>ms_warnings := Suc (ms_warnings s)\<rparr>)"

section \<open>Printed lines\<close>

definition text_line :: "string \<Rightarrow> u8 list" where
  "text_line t = lit t @ [10]"

definition int_line :: "string \<Rightarrow> int \<Rightarrow> u8 list" where
  "int_line t n = lit t @ show_d n @ [10]"

text \<open>
  The commands are \<open>unsigned int\<close> printed with \<open>%d\<close>. One module also prints the \<open>unsigned long\<close>
  with \<open>%d\<close>, which takes the low 32 bits of it.
\<close>

definition cmd_line :: "u32 \<Rightarrow> u64 \<Rightarrow> u8 list" where
  "cmd_line cmd arg = lit ''cmd is '' @ show_d (int_of_u32 cmd) @ lit '',arg is '' @ show_nat 10 (unat arg) @ [10]"

definition cmd_line_d :: "u32 \<Rightarrow> u64 \<Rightarrow> u8 list" where
  "cmd_line_d cmd arg =
     lit ''cmd is '' @ show_d (int_of_u32 cmd) @ lit '',arg is '' @ show_d (int_of_u32 (ucast arg)) @ [10]"

section \<open>moduleTest.c and moduleOnlyMiscDriverRegist.c\<close>

definition test_init :: "misc_state \<Rightarrow> int \<times> misc_state" where
  "test_init s = (0, printk (text_line ''Hello world! '') s)"

definition test_exit :: "misc_state \<Rightarrow> misc_state" where
  "test_exit s = printk (text_line ''Goodbye the cruel world! '') s"

definition MISC_DEVICE_NAME :: string where
  "MISC_DEVICE_NAME = ''hello_only_misc_device''"

definition only_misc_ioctl :: "u32 \<Rightarrow> u64 \<Rightarrow> misc_state \<Rightarrow> int \<times> misc_state" where
  "only_misc_ioctl cmd arg s =
     (0, printk (cmd_line_d cmd arg) (printk (text_line ''hello_misc is unlocked ioctling'') s))"

definition only_misc_release :: "misc_state \<Rightarrow> int \<times> misc_state" where
  "only_misc_release s = (0, printk (text_line ''hello_misc is releaseing!'') s)"

definition only_misc_open :: "misc_state \<Rightarrow> int \<times> misc_state" where
  "only_misc_open s = (0, printk (text_line ''hello_misc is opening!'') s)"

text \<open>Whether the device was registered is not looked at.\<close>

definition only_misc_init :: "int \<Rightarrow> misc_state \<Rightarrow> int \<times> misc_state" where
  "only_misc_init misc s =
     (let s1 = printk (text_line ''Hello world! hello driver init'') s;
          (_, s2) = misc_add misc Only_misc MISC_DEVICE_NAME s1
      in (0, printk (int_line ''hello_ctlDriverState = '' 0) s2))"

definition only_misc_exit :: "misc_state \<Rightarrow> misc_state" where
  "only_misc_exit s = misc_del Only_misc (printk (text_line ''Goodbye the cruel world! Goodbye hello driver '') s)"

section \<open>moduleParam.c\<close>

text \<open>
  The parameters. Loading is refused by the kernel when more values are given for the array
  than it has places; otherwise the rest is zero and \<open>array_num\<close> says how many were given.
\<close>

record param_vars =
  module_arg1 :: int
  module_arg2 :: int
  int_array :: "int list"
  array_num :: int

definition parse_params :: "int \<Rightarrow> int \<Rightarrow> int list \<Rightarrow> param_vars option" where
  "parse_params a1 a2 vals =
     (if length vals \<le> 50
      then Some \<lparr>module_arg1 = a1, module_arg2 = a2, int_array = vals @ replicate (50 - length vals) 0,
        array_num = int (length vals)\<rparr>
      else None)"

definition array_line :: "int \<Rightarrow> int \<Rightarrow> u8 list" where
  "array_line i v = lit ''int_array['' @ show_d i @ lit ''] = '' @ show_d v @ [10]"

text \<open>The loop that prints the array reads \<open>int_array[i]\<close> as long as \<open>i < array_num\<close>.\<close>

function print_array :: "int \<Rightarrow> param_vars \<Rightarrow> misc_state \<Rightarrow> misc_state outcome" where
  "print_array i p s =
     (if i < array_num p
      then (if 0 \<le> i \<and> nat i < length (int_array p)
            then print_array (i + 1) p (printk (array_line i (int_array p ! nat i)) s) else Faults)
      else Returns s)"
  by pat_completeness auto

termination
  by (relation "measure (\<lambda>(i, p, s). nat (array_num p - i))") auto

declare print_array.simps [simp del]

definition print_params :: "param_vars \<Rightarrow> misc_state \<Rightarrow> misc_state outcome" where
  "print_params p s = print_array 0 p
     (printk (int_line ''module_arg2 = '' (module_arg2 p)) (printk (int_line ''module_arg1 = '' (module_arg1 p)) s))"

definition param_ioctl :: "u32 \<Rightarrow> u64 \<Rightarrow> param_vars \<Rightarrow> misc_state \<Rightarrow> (int \<times> misc_state) outcome" where
  "param_ioctl cmd arg p s =
     bind_outcome (print_params p (printk (cmd_line cmd arg) (printk (text_line ''hello_misc is unlocked ioctling'') s)))
       (\<lambda>s1. Returns (0, s1))"

definition param_release :: "misc_state \<Rightarrow> int \<times> misc_state" where
  "param_release s = (0, printk (text_line ''hello_misc is releaseing!'') s)"

definition param_open :: "misc_state \<Rightarrow> int \<times> misc_state" where
  "param_open s = (0, printk (text_line ''hello_misc is opening!'') s)"

definition param_init :: "int \<Rightarrow> param_vars \<Rightarrow> misc_state \<Rightarrow> (int \<times> misc_state) outcome" where
  "param_init misc p s =
     (let s1 = printk (text_line ''Hello world! hello driver init'') s;
          (_, s2) = misc_add misc Param_misc MISC_DEVICE_NAME s1
      in bind_outcome (print_params p (printk (int_line ''hello_ctlDriverState = '' 0) s2)) (\<lambda>s3. Returns (0, s3)))"

definition param_exit :: "misc_state \<Rightarrow> misc_state" where
  "param_exit s = misc_del Param_misc (printk (text_line ''Goodbye the cruel world! Goodbye hello driver '') s)"

section \<open>What the array prints\<close>

lemma printk_simps [simp]:
  "ms_nodes (printk l s) = ms_nodes s" "ms_warnings (printk l s) = ms_warnings s" "ms_log (printk l s) = ms_log s @ [l]"
  by (simp_all add: printk_def)

definition param_lines :: "int \<Rightarrow> int \<Rightarrow> int list \<Rightarrow> u8 list list" where
  "param_lines a1 a2 vals = int_line ''module_arg1 = '' a1 # int_line ''module_arg2 = '' a2 #
     map (\<lambda>k. array_line (int k) (vals ! k)) [0..<length vals]"

lemma print_array_within:
  assumes "0 \<le> i" and "array_num p \<le> int (length (int_array p))"
  shows "print_array i p s = Returns (s\<lparr>ms_log := ms_log s @
    map (\<lambda>k. array_line (int k) (int_array p ! k)) [nat i..<nat (array_num p)]\<rparr>)"
  using assms
proof (induction i p s rule: print_array.induct)
  case (1 i p s)
  show ?case
  proof (cases "i < array_num p")
    case True
    with "1.prems" have i: "nat i < length (int_array p)" "nat i < nat (array_num p)" "nat (i + 1) = Suc (nat i)" by auto
    have "print_array i p s = print_array (i + 1) p (printk (array_line i (int_array p ! nat i)) s)"
      using True "1.prems" i(1) by (subst print_array.simps) simp
    also have "\<dots> = Returns (s\<lparr>ms_log := ms_log s @ array_line i (int_array p ! nat i) #
        map (\<lambda>k. array_line (int k) (int_array p ! k)) [Suc (nat i)..<nat (array_num p)]\<rparr>)"
      using "1.IH" True "1.prems" i by (simp add: printk_def)
    finally show ?thesis using i(2) "1.prems" by (simp add: upt_conv_Cons)
  next
    case False
    then show ?thesis by (subst print_array.simps) simp
  qed
qed

lemma print_params_lines:
  assumes "parse_params a1 a2 vals = Some p"
  shows "print_params p s = Returns (s\<lparr>ms_log := ms_log s @ param_lines a1 a2 vals\<rparr>)"
proof -
  have p: "length vals \<le> 50" "p = \<lparr>module_arg1 = a1, module_arg2 = a2, int_array = vals @ replicate (50 - length vals) 0,
      array_num = int (length vals)\<rparr>"
    using assms by (auto simp: parse_params_def split: if_splits)
  have "map (\<lambda>k. array_line (int k) ((vals @ replicate (50 - length vals) 0) ! k)) [0..<length vals] =
      map (\<lambda>k. array_line (int k) (vals ! k)) [0..<length vals]"
    by (rule map_cong) (simp_all add: nth_append)
  then show ?thesis
    using p(1) by (simp add: p(2) print_params_def print_array_within param_lines_def printk_def)
qed

lemma param_lines_inj:
  assumes "param_lines a1 a2 vals = param_lines b1 b2 ws"
  shows "a1 = b1 \<and> a2 = b2 \<and> vals = ws"
proof -
  have len: "length vals = length ws" using arg_cong [OF assms, of length] by (simp add: param_lines_def)
  have "vals ! k = ws ! k" if "k < length vals" for k
  proof -
    have "array_line (int k) (vals ! k) = array_line (int k) (ws ! k)"
      using assms that len by (simp add: param_lines_def)
    then show ?thesis by (simp add: array_line_def show_d_inj)
  qed
  with len have "vals = ws" by (intro nth_equalityI) simp_all
  then show ?thesis using assms by (auto simp: param_lines_def int_line_def dest: show_d_inj)
qed

section \<open>Properties\<close>

text \<open>
  The parameter module shows its arguments: at most 50 values for the array are accepted,
  and then loading it and every ioctl stay within the array, return 0 and log both
  arguments and exactly the given values in order; no two lists of arguments give the same lines.
\<close>

lemma param_module_shows_arguments:
  assumes "parse_params a1 a2 vals = Some p"
  shows "length vals \<le> 50 \<and>
    (\<exists>t. param_ioctl cmd arg p s = Returns (0, t) \<and> ms_nodes t = ms_nodes s \<and> ms_log t =
       ms_log s @ [text_line ''hello_misc is unlocked ioctling'', cmd_line cmd arg] @ param_lines a1 a2 vals) \<and>
    (\<exists>t. param_init misc p s = Returns (0, t) \<and> ms_log t = ms_log s @
       [text_line ''Hello world! hello driver init'', int_line ''hello_ctlDriverState = '' 0] @ param_lines a1 a2 vals) \<and>
    (\<forall>b1 b2 ws. param_lines a1 a2 vals = param_lines b1 b2 ws \<longrightarrow> (a1, a2, vals) = (b1, b2, ws))"
proof -
  obtain r s2 where m: "misc_add misc Param_misc MISC_DEVICE_NAME (printk (text_line ''Hello world! hello driver init'') s) = (r, s2)"
    by fastforce
  then have "ms_log s2 = ms_log s @ [text_line ''Hello world! hello driver init'']"
    by (auto simp: misc_add_def split: if_splits)
  moreover have "length vals \<le> 50" using assms by (simp add: parse_params_def split: if_splits)
  ultimately show ?thesis
    using m param_lines_inj [of a1 a2 vals]
    by (auto simp: param_ioctl_def param_init_def print_params_lines [OF assms])
qed

lemma param_module_shows_arguments_witness:
  "\<exists>p t. parse_params 1 2 [7, - 8] = Some p \<and>
     param_ioctl 1 1 p \<lparr>ms_nodes = [], ms_warnings = 0, ms_log = []\<rparr> = Returns (0, t) \<and>
     drop 2 (ms_log t) = [lit ''module_arg1 = 1'' @ [10], lit ''module_arg2 = 2'' @ [10],
       lit ''int_array[0] = 7'' @ [10], lit ''int_array[1] = -8'' @ [10]]"
proof -
  obtain p where p: "parse_params 1 2 [7, - 8] = Some p" by (simp add: parse_params_def)
  have "param_lines 1 2 [7, - 8] = [lit ''module_arg1 = 1'' @ [10], lit ''module_arg2 = 2'' @ [10],
      lit ''int_array[0] = 7'' @ [10], lit ''int_array[1] = -8'' @ [10]]"
    by (simp add: param_lines_def int_line_def array_line_def lit_def show_d_def show_nat_def digits.simps digit_char_def)
  then show ?thesis
    using param_module_shows_arguments [OF p, of 1 1 "\<lparr>ms_nodes = [], ms_warnings = 0, ms_log = []\<rparr>" 0] p by auto
qed

text \<open>
  Both modules want the same name. The one that is loaded second reports success without a
  device, its unloading draws a complaint, and the device stays with the first.
\<close>

lemma misc_name_clash:
  assumes "ms_nodes s = [(Only_misc, MISC_DEVICE_NAME)]" and "parse_params a1 a2 vals = Some p"
  shows "\<exists>t. param_init misc p s = Returns (0, t) \<and> ms_nodes t = ms_nodes s \<and>
    ms_warnings (param_exit t) = Suc (ms_warnings s) \<and> ms_nodes (param_exit t) = ms_nodes s"
  using assms(1)
  by (simp add: param_init_def misc_add_def print_params_lines [OF assms(2)] param_exit_def misc_del_def)

end
