(* ===== verification/ModuleOps.thy ===== *)
theory ModuleOps
  imports CdevModules PlatformModules MiscModules
begin

text \<open>
  The operations of the tutorial modules that only print, each with its result and the lines it
  adds to the log: open, release and ioctl of the character devices, the interrupt handlers,
  the open of the memory device, and the probes and power management of the platform drivers.
\<close>

section \<open>Character devices\<close>

definition char_hello_open :: "int \<times> u8 list list" where
  "char_hello_open = (0, [text_line ''hello_misc is opening!''])"

definition char_hello_release :: "int \<times> u8 list list" where
  "char_hello_release = (0, [text_line ''hello_misc is releaseing!''])"

definition char_hello_unlocked_ioctl :: "u32 \<Rightarrow> u64 \<Rightarrow> cd_state \<Rightarrow> int \<times> u8 list list" where
  "char_hello_unlocked_ioctl cmd arg s =
     (0, [text_line ''hello_misc is unlocked ioctling'', cmd_line cmd arg,
       int_line ''numdev_major = '' (numdev_major s), int_line ''numdev_minor = '' (numdev_minor s)])"

text \<open>The other five modules repeat them word by word, those with devices also
  \<open>reg_init_cdev\<close>; moduleIrqRegist also reads and writes alike.\<close>

definition node_hello_open :: "int \<times> u8 list list" where
  "node_hello_open = char_hello_open"

definition node_hello_release :: "int \<times> u8 list list" where
  "node_hello_release = char_hello_release"

definition node_hello_unlocked_ioctl :: "u32 \<Rightarrow> u64 \<Rightarrow> cd_state \<Rightarrow> int \<times> u8 list list" where
  "node_hello_unlocked_ioctl = char_hello_unlocked_ioctl"

definition cdev_hello_open :: "int \<times> u8 list list" where
  "cdev_hello_open = char_hello_open"

definition cdev_hello_release :: "int \<times> u8 list list" where
  "cdev_hello_release = char_hello_release"

definition cdev_hello_unlocked_ioctl :: "u32 \<Rightarrow> u64 \<Rightarrow> cd_state \<Rightarrow> int \<times> u8 list list" where
  "cdev_hello_unlocked_ioctl = char_hello_unlocked_ioctl"

definition snum_hello_open :: "int \<times> u8 list list" where
  "snum_hello_open = char_hello_open"

definition snum_hello_release :: "int \<times> u8 list list" where
  "snum_hello_release = char_hello_release"

definition snum_hello_unlocked_ioctl :: "u32 \<Rightarrow> u64 \<Rightarrow> cd_state \<Rightarrow> int \<times> u8 list list" where
  "snum_hello_unlocked_ioctl = char_hello_unlocked_ioctl"

definition dnum_hello_open :: "int \<times> u8 list list" where
  "dnum_hello_open = char_hello_open"

definition dnum_hello_release :: "int \<times> u8 list list" where
  "dnum_hello_release = char_hello_release"

definition dnum_hello_unlocked_ioctl :: "u32 \<Rightarrow> u64 \<Rightarrow> cd_state \<Rightarrow> int \<times> u8 list list" where
  "dnum_hello_unlocked_ioctl = char_hello_unlocked_ioctl"

definition irq_hello_open :: "int \<times> u8 list list" where
  "irq_hello_open = char_hello_open"

definition irq_hello_release :: "int \<times> u8 list list" where
  "irq_hello_release = char_hello_release"

definition irq_hello_unlocked_ioctl :: "u32 \<Rightarrow> u64 \<Rightarrow> cd_state \<Rightarrow> int \<times> u8 list list" where
  "irq_hello_unlocked_ioctl = char_hello_unlocked_ioctl"

definition node_reg_init_cdev :: "cd_env \<Rightarrow> nat \<Rightarrow> cd_state \<Rightarrow> int \<times> cd_state" where
  "node_reg_init_cdev = reg_init_cdev"

definition cdev_reg_init_cdev :: "cd_env \<Rightarrow> nat \<Rightarrow> cd_state \<Rightarrow> int \<times> cd_state" where
  "cdev_reg_init_cdev = reg_init_cdev"

definition irq_reg_init_cdev :: "cd_env \<Rightarrow> nat \<Rightarrow> cd_state \<Rightarrow> int \<times> cd_state" where
  "irq_reg_init_cdev = reg_init_cdev"

definition irq_hello_read :: "u8 list \<Rightarrow> u64 \<Rightarrow> cd_state \<Rightarrow> (u64 \<times> u8 list) outcome" where
  "irq_hello_read = char_hello_read"

definition irq_hello_write :: "u8 list \<Rightarrow> u64 \<Rightarrow> cd_state \<Rightarrow> (u64 \<times> cd_state) outcome" where
  "irq_hello_write = char_hello_write"

text \<open>The handlers print their name and line and report the interrupt as handled.\<close>

definition IRQ_HANDLED :: int where "IRQ_HANDLED = 1"

definition eint9_interrrupt :: "int \<times> u8 list list" where
  "eint9_interrrupt = (IRQ_HANDLED, [text_line ''eint9_interrrupt(102)''])"

definition eint10_interrupt :: "int \<times> u8 list list" where
  "eint10_interrupt = (IRQ_HANDLED, [text_line ''eint10_interrupt(108)''])"

text \<open>Opening the memory device does nothing but print.\<close>

definition mem_map_open :: "int \<times> u8 list list" where
  "mem_map_open = (0, [text_line ''in function:mem_map_open''])"

section \<open>Platform drivers\<close>

text \<open>What the ioctl of the LED driver prints beside driving the pin.\<close>

definition leds_ioctl_lines :: "u32 \<Rightarrow> u64 \<Rightarrow> u8 list list" where
  "leds_ioctl_lines cmd arg =
     [text_line ''hello_misc is unlocked ioctling'', cmd_line cmd arg] @
     (if 1 < cmd then [text_line ''cmd must be 0 or 1''] else []) @
     (if 1 < arg then [text_line ''arg is only 1''] else [])"

definition leds_misc_open :: "int \<times> u8 list list" where
  "leds_misc_open = (0, [text_line ''hello_misc is opening!''])"

definition leds_misc_release :: "int \<times> u8 list list" where
  "leds_misc_release = (0, [text_line ''hello_misc is releaseing!''])"

definition leds_suspend :: int where "leds_suspend = 0"
definition leds_resume :: int where "leds_resume = 0"

definition misc_ioctl :: "u32 \<Rightarrow> u64 \<Rightarrow> int \<times> u8 list list" where
  "misc_ioctl cmd arg = (0, [text_line ''hello_misc is unlocked ioctling'', cmd_line_d cmd arg])"

definition misc_open :: "int \<times> u8 list list" where
  "misc_open = (0, [text_line ''hello_misc is opening!''])"

definition misc_release :: "int \<times> u8 list list" where
  "misc_release = (0, [text_line ''hello_misc is releaseing!''])"

definition misc_suspend :: int where "misc_suspend = 0"
definition misc_resume :: int where "misc_resume = 0"

definition drv_probe :: "int \<times> u8 list list" where
  "drv_probe = (0, [text_line ''hello_ctlhello is probing''])"

definition drv_remove :: int where "drv_remove = 0"
definition drv_suspend :: int where "drv_suspend = 0"
definition drv_resume :: int where "drv_resume = 0"

text \<open>The driver and the device of src/platform meet by this name.\<close>

definition platform_name :: string where "platform_name = ''platform_test''"

definition my_platform_probe :: "string \<Rightarrow> int \<times> u8 list list" where
  "my_platform_probe name =
     (0, [text_line ''in fun: my_platform_probe'', text_line (''platform_dev name: '' @ name)])"

definition my_platform_remove :: "string \<Rightarrow> int \<times> u8 list list" where
  "my_platform_remove name =
     (0, [text_line ''in fun: my_platform_remove'', text_line (''platform_dev name: '' @ name)])"

section \<open>What the lines tell\<close>

text \<open>
  The lines of an ioctl tell the numbers the module has claimed: after a load that
  succeeded they name the major number of its region.
\<close>

lemma ioctl_shows_region:
  assumes "char_hello_init E (cd_unloaded major minor) = Returns (0, s)"
  shows "\<exists>a b. Region a b \<in> cd_held s \<and> snd (char_hello_unlocked_ioctl cmd arg s) =
    [text_line ''hello_misc is unlocked ioctling'', cmd_line cmd arg, int_line ''numdev_major = '' a, int_line ''numdev_minor = '' b]"
  using char_hello_init_loaded [OF assms] by (auto simp: loaded_def char_hello_unlocked_ioctl_def)

text \<open>The line of a command above 1 does not keep the pin from being driven high.\<close>

lemma leds_bad_command_drives:
  assumes "1 < cmd"
  shows "text_line ''cmd must be 0 or 1'' \<in> set (leds_ioctl_lines cmd arg)"
    and "pl_levels (snd (leds_misc_ioctl cmd arg s)) LED"
  using assms by (auto simp: leds_ioctl_lines_def leds_misc_ioctl_def gpio_set_value_def)

end
