(* ===== verification/MyDevice.thy ===== *)
theory MyDevice
  imports Prelude
begin

text \<open>
  The character device of moduleUbuntuTest/moduleTest.c: its file operations on the one device
  object, loading and unloading, and the way a blocked reader and a writer meet at the wait
  queue. What the kernel answers while the module is loaded is the argument \<open>E\<close>.
\<close>

section \<open>The device object\<close>

definition DEV_BUFF_MAX :: nat where "DEV_BUFF_MAX = 128"

text \<open>A buffer is \<open>None\<close> when its \<open>kmalloc\<close> has failed; \<open>md_ops\<close> is whether \<open>fileOperation\<close> is set.\<close>

record MY_DEV =
  md_ops :: bool
  iOpenCount :: int
  pOutputData :: "u8 list option"
  pInputData :: "u8 list option"
  enable_read :: int

datatype md_resource = Md_region | Md_class | Md_cdev | Md_node | Md_object | Md_output | Md_input

text \<open>\<open>myDev\<close> is the object the pointer leads to, \<open>None\<close> while it is \<open>NULL\<close> or freed.\<close>

record md_state =
  myDev :: "MY_DEV option"
  md_held :: "md_resource set"

record md_env =
  me_object :: bool
  me_output :: bool
  me_input :: bool
  me_region :: int
  me_class :: bool
  me_cdev_add :: int
  me_node :: bool

section \<open>File operations\<close>

definition on_dev :: "(MY_DEV \<Rightarrow> ('r \<times> MY_DEV) outcome) \<Rightarrow> md_state \<Rightarrow> ('r \<times> md_state) outcome" where
  "on_dev f s = (case myDev s of None \<Rightarrow> Faults
     | Some d \<Rightarrow> bind_outcome (f d) (\<lambda>(r, d'). Returns (r, s\<lparr>myDev := Some d'\<rparr>)))"

definition hello_open :: "md_state \<Rightarrow> (int \<times> md_state) outcome" where
  "hello_open = on_dev (\<lambda>d. Returns (0, d\<lparr>iOpenCount := iOpenCount d + 1\<rparr>))"

definition hello_release :: "md_state \<Rightarrow> (int \<times> md_state) outcome" where
  "hello_release = on_dev (\<lambda>d. Returns (0, d\<lparr>iOpenCount := iOpenCount d - 1\<rparr>))"

definition hello_unlocked_ioctl :: "u32 \<Rightarrow> u64 \<Rightarrow> md_state \<Rightarrow> (int \<times> md_state) outcome" where
  "hello_unlocked_ioctl cmd arg = on_dev (\<lambda>d. Returns (0, d))"

text \<open>
  \<open>user\<close> are the bytes that can be reached from the user's pointer. A copy that comes to
  their end stops there, and the loop that prints \<open>user[i]\<close> runs into it.
\<close>

definition copy_into :: "u8 list \<Rightarrow> u8 list \<Rightarrow> nat \<Rightarrow> u8 list" where
  "copy_into dst src n = take n (src @ replicate (n - length src) 0) @ drop n dst"

definition hello_write :: "u8 list \<Rightarrow> u64 \<Rightarrow> md_state \<Rightarrow> (int \<times> md_state) outcome" where
  "hello_write user n s =
     (if DEV_BUFF_MAX < unat n then Returns (- 1, s)
      else on_dev (\<lambda>d. case pInputData d of None \<Rightarrow> Faults
        | Some buf \<Rightarrow>
            let d1 = d\<lparr>pInputData := Some (copy_into buf user (unat n)), enable_read := 1\<rparr>
            in if length user < unat n then Faults else Returns (0, d1)) s)"

text \<open>The wait ends by the flag, by the timeout or by a signal; the code does not look at which.\<close>

definition hello_read :: "u8 list \<Rightarrow> u64 \<Rightarrow> md_state \<Rightarrow> (int \<times> u8 list \<times> md_state) outcome" where
  "hello_read user n s =
     (if DEV_BUFF_MAX < unat n then Returns (- 1, user, s)
      else bind_outcome (on_dev (\<lambda>d. case (pInputData d, pOutputData d) of
          (Some inp, Some out) \<Rightarrow>
            let out1 = map (\<lambda>b. b + 2) (take (unat n) inp) @ drop (unat n) out
            in if length user < unat n then Faults
               else Returns (take (unat n) out1 @ drop (unat n) user, d\<lparr>pOutputData := Some out1, enable_read := 0\<rparr>)
        | _ \<Rightarrow> Faults) s) (\<lambda>(user', s'). Returns (0, user', s')))"

section \<open>Loading and unloading\<close>

definition md_hold :: "md_resource \<Rightarrow> md_state \<Rightarrow> md_state" where
  "md_hold r s = s\<lparr>md_held := insert r (md_held s)\<rparr>"

definition md_let_go :: "md_resource \<Rightarrow> md_state \<Rightarrow> md_state" where
  "md_let_go r s = s\<lparr>md_held := md_held s - {r}\<rparr>"

definition InitMyDev :: "md_env \<Rightarrow> md_state \<Rightarrow> md_state" where
  "InitMyDev E s =
     (let zeros = replicate DEV_BUFF_MAX 0;
          d0 = \<lparr>md_ops = False, iOpenCount = 0, pOutputData = None, pInputData = None, enable_read = 0\<rparr>
      in if \<not> me_object E then s\<lparr>myDev := None\<rparr>
         else let s1 = md_hold Md_object (s\<lparr>myDev := Some d0\<rparr>)
              in if \<not> me_output E then s1
                 else let d1 = d0\<lparr>pOutputData := Some zeros\<rparr>; s2 = md_hold Md_output (s1\<lparr>myDev := Some d1\<rparr>)
                      in if \<not> me_input E then s2
                         else md_hold Md_input (s2\<lparr>myDev := Some (d1\<lparr>pInputData := Some zeros, iOpenCount := 0, md_ops := True, enable_read := 0\<rparr>)\<rparr>))"

text \<open>
  A region that is refused is only reported. Neither is the answer of \<open>class_create\<close> looked
  at, and \<open>device_create\<close> refuses a class that is an error.
\<close>

definition hello_init :: "md_env \<Rightarrow> md_state \<Rightarrow> (int \<times> md_state) outcome" where
  "hello_init E s =
     (let s1 = InitMyDev E s;
          s2 = (if me_region E < 0 then s1 else md_hold Md_region s1)
      in case myDev s2 of None \<Rightarrow> Faults
       | Some d \<Rightarrow>
           let s3 = (if me_class E then md_hold Md_class s2 else s2)
           in if me_cdev_add E < 0 then Returns (- 1, s3)
              else let s4 = md_hold Md_cdev s3
                   in Returns (0, if me_class E \<and> me_node E then md_hold Md_node s4 else s4))"

text \<open>\<open>kfree(myDev)\<close> comes before the two stores through the pointer.\<close>

definition hello_exit :: "md_state \<Rightarrow> md_state outcome" where
  "hello_exit s = (case myDev s of None \<Rightarrow> Faults
     | Some d \<Rightarrow>
         let s1 = md_let_go Md_region (md_let_go Md_class (md_let_go Md_node (md_let_go Md_cdev s)));
             s2 = md_let_go Md_object (md_let_go Md_input (md_let_go Md_output s1))
         in case myDev (s2\<lparr>myDev := None\<rparr>) of None \<Rightarrow> Faults
            | Some d' \<Rightarrow> Returns (s2\<lparr>myDev := None\<rparr>))"

section \<open>The wait queue\<close>

text \<open>
  A reader and the writers, one call at a time to the wait queue. A reader that waits has put
  itself on the queue before it looks at the flag; a wake-up makes it look again. A writer
  wakes the queue first and sets the flag afterwards.
\<close>

datatype reader_pc = R_looks | R_sleeps | R_goes_on | R_done
datatype writer_pc = W_wakes | W_sets | W_done

record rw_state =
  rw_flag :: int
  rw_reader :: reader_pc
  rw_writer :: writer_pc

inductive rw_step :: "rw_state \<Rightarrow> rw_state \<Rightarrow> bool" where
  look_set: "rw_reader s = R_looks \<Longrightarrow> rw_flag s \<noteq> 0 \<Longrightarrow> rw_step s (s\<lparr>rw_reader := R_goes_on\<rparr>)"
| look_clear: "rw_reader s = R_looks \<Longrightarrow> rw_flag s = 0 \<Longrightarrow> rw_step s (s\<lparr>rw_reader := R_sleeps\<rparr>)"
| give_up: "rw_reader s = R_sleeps \<Longrightarrow> rw_step s (s\<lparr>rw_reader := R_goes_on\<rparr>)"
| clear: "rw_reader s = R_goes_on \<Longrightarrow> rw_step s (s\<lparr>rw_flag := 0, rw_reader := R_done\<rparr>)"
| read_again: "rw_reader s = R_done \<Longrightarrow> rw_step s (s\<lparr>rw_reader := R_looks\<rparr>)"
| wake: "rw_writer s = W_wakes \<Longrightarrow>
    rw_step s (s\<lparr>rw_writer := W_sets, rw_reader := if rw_reader s = R_sleeps then R_looks else rw_reader s\<rparr>)"
| set_flag: "rw_writer s = W_sets \<Longrightarrow> rw_step s (s\<lparr>rw_flag := 1, rw_writer := W_done\<rparr>)"
| write_again: "rw_writer s = W_done \<Longrightarrow> rw_step s (s\<lparr>rw_writer := W_wakes\<rparr>)"

definition rw_start :: "rw_state \<Rightarrow> bool" where
  "rw_start s \<longleftrightarrow> rw_flag s = 0 \<and> rw_reader s = R_looks \<and> rw_writer s = W_wakes"

section \<open>Properties\<close>

inductive_cases rw_stepE: "rw_step s t"

text \<open>What loading establishes and every file operation keeps: the buffers are there, 128 bytes each.\<close>

definition md_ready :: "md_state \<Rightarrow> bool" where
  "md_ready s \<longleftrightarrow> (case myDev s of None \<Rightarrow> False | Some d \<Rightarrow> md_ops d \<and>
     (case (pInputData d, pOutputData d) of
        (Some i, Some out) \<Rightarrow> length i = DEV_BUFF_MAX \<and> length out = DEV_BUFF_MAX
      | _ \<Rightarrow> False))"

lemma md_readyE:
  assumes "md_ready s"
  obtains d i out where "myDev s = Some d" and "md_ops d" and "pInputData d = Some i" and "pOutputData d = Some out"
    and "length i = DEV_BUFF_MAX" and "length out = DEV_BUFF_MAX"
  using assms by (auto simp: md_ready_def split: option.splits)

lemma md_hold_simps [simp]: "myDev (md_hold r s) = myDev s" "md_held (md_hold r s) = insert r (md_held s)"
  by (simp_all add: md_hold_def)

lemma md_ready_hold [simp]: "md_ready (md_hold r s) \<longleftrightarrow> md_ready s"
  by (simp add: md_ready_def)

lemma md_ready_init:
  assumes "me_object E" and "me_output E" and "me_input E" and "0 \<le> me_cdev_add E"
  obtains s' where "hello_init E s = Returns (0, s')" and "md_ready s'"
  using assms by (cases "me_region E < 0") (simp_all add: hello_init_def InitMyDev_def Let_def, simp_all add: md_ready_def)

lemma length_copy_into [simp]: "n \<le> length dst \<Longrightarrow> length (copy_into dst src n) = length dst"
  by (simp add: copy_into_def)

lemma take_copy_into: "n \<le> length src \<Longrightarrow> m \<le> n \<Longrightarrow> n \<le> length dst \<Longrightarrow> take m (copy_into dst src n) = take m src"
  by (simp add: copy_into_def min_def)

lemma hello_write_ready:
  assumes "md_ready s" and "unat n \<le> DEV_BUFF_MAX" and "unat n \<le> length user"
  obtains d i s' where "hello_write user n s = Returns (0, s')" and "md_ready s'" and "myDev s' = Some d"
    and "pInputData d = Some i" and "take (unat n) i = take (unat n) user" and "enable_read d = 1"
proof -
  from assms(1) obtain d i out where d: "myDev s = Some d" "md_ops d" "pInputData d = Some i"
      "pOutputData d = Some out" "length i = DEV_BUFF_MAX" "length out = DEV_BUFF_MAX" by (rule md_readyE)
  let ?d = "d\<lparr>pInputData := Some (copy_into i user (unat n)), enable_read := 1\<rparr>"
  show ?thesis
  proof (rule that [of "s\<lparr>myDev := Some ?d\<rparr>" ?d "copy_into i user (unat n)"])
    show "hello_write user n s = Returns (0, s\<lparr>myDev := Some ?d\<rparr>)"
      using assms(2,3) d by (simp add: hello_write_def on_dev_def)
    show "md_ready (s\<lparr>myDev := Some ?d\<rparr>)" using d assms(2) by (simp add: md_ready_def)
    show "take (unat n) (copy_into i user (unat n)) = take (unat n) user"
      using assms(2,3) d(5) by (simp add: take_copy_into)
  qed simp_all
qed

lemma hello_read_ready:
  assumes "md_ready s" and "unat n \<le> DEV_BUFF_MAX" and "unat n \<le> length user"
    and "myDev s = Some d" and "pInputData d = Some i"
  obtains s' where "hello_read user n s = Returns (0, map (\<lambda>b. b + 2) (take (unat n) i) @ drop (unat n) user, s')"
    and "md_ready s'"
proof -
  from assms(1,4,5) obtain out where d: "md_ops d" "pOutputData d = Some out"
      "length i = DEV_BUFF_MAX" "length out = DEV_BUFF_MAX" by (elim md_readyE) simp
  let ?o = "map (\<lambda>b. b + 2) (take (unat n) i) @ drop (unat n) out"
  let ?s = "s\<lparr>myDev := Some (d\<lparr>pOutputData := Some ?o, enable_read := 0\<rparr>)\<rparr>"
  show ?thesis
  proof (rule that)
    show "hello_read user n s = Returns (0, map (\<lambda>b. b + 2) (take (unat n) i) @ drop (unat n) user, ?s)"
      using assms(2-5) d by (simp add: hello_read_def on_dev_def min_def)
    show "md_ready ?s" using assms(2,4,5) d by (simp add: md_ready_def)
  qed
qed

text \<open>
  The test device gives back what was written, each byte two higher: after a write of at
  most 128 bytes, a read of no more bytes delivers them incremented by 2, modulo 256, and
  leaves the rest of the user's buffer alone. Both calls return 0, which a program takes for
  the end of the file. A count above 128 is refused with -1 and changes nothing, and a
  count beyond the user's own buffer crashes the kernel instead of failing.
\<close>

lemma my_write_then_read:
  assumes "md_ready s" and "unat n \<le> DEV_BUFF_MAX" and "unat n \<le> length src"
    and "unat m \<le> unat n" and "unat m \<le> length dst"
  shows "(\<exists>s1 s2. hello_write src n s = Returns (0, s1) \<and>
      hello_read dst m s1 = Returns (0, map (\<lambda>b. b + 2) (take (unat m) src) @ drop (unat m) dst, s2) \<and> md_ready s2) \<and>
    (\<forall>k. (DEV_BUFF_MAX < unat k \<longrightarrow> hello_write src k s = Returns (- 1, s) \<and> hello_read dst k s = Returns (- 1, dst, s)) \<and>
      (unat k \<le> DEV_BUFF_MAX \<and> length src < unat k \<longrightarrow> hello_write src k s = Faults))"
proof -
  obtain d i s1 where w: "hello_write src n s = Returns (0, s1)" "md_ready s1" "myDev s1 = Some d"
    "pInputData d = Some i" "take (unat n) i = take (unat n) src" by (rule hello_write_ready [OF assms(1-3)])
  have "unat m \<le> DEV_BUFF_MAX" using assms(2,4) by simp
  then obtain s2 where "hello_read dst m s1 = Returns (0, map (\<lambda>b. b + 2) (take (unat m) i) @ drop (unat m) dst, s2)"
      "md_ready s2" using hello_read_ready [OF w(2) _ assms(5) w(3,4)] by blast
  moreover have "take (unat m) i = take (unat m) src"
    using arg_cong [OF w(5), of "take (unat m)"] assms(4) by (simp add: min_def)
  moreover have "hello_write src k s = Faults" if "unat k \<le> DEV_BUFF_MAX" "length src < unat k" for k
    using assms(1) that by (elim md_readyE) (simp add: hello_write_def on_dev_def)
  ultimately show ?thesis using w(1) by (auto simp: hello_write_def hello_read_def)
qed

definition sim_md_env :: md_env where
  "sim_md_env = \<lparr>me_object = True, me_output = True, me_input = True, me_region = 0, me_class = True, me_cdev_add = 0, me_node = True\<rparr>"

definition sim_md_unloaded :: md_state where
  "sim_md_unloaded = \<lparr>myDev = None, md_held = {}\<rparr>"

lemma my_write_then_read_witness:
  "\<exists>s s1 s2. hello_init sim_md_env sim_md_unloaded = Returns (0, s) \<and>
     hello_write [1, 2, 255] 3 s = Returns (0, s1) \<and> hello_read [9, 9, 9, 9] 3 s1 = Returns (0, [3, 4, 1, 9], s2)"
proof -
  obtain s where s: "hello_init sim_md_env sim_md_unloaded = Returns (0, s)" "md_ready s"
    by (rule md_ready_init [of sim_md_env]) (simp_all add: sim_md_env_def)
  from my_write_then_read [OF s(2), of 3 "[1, 2, 255]" 3 "[9, 9, 9, 9]"] s(1)
  have "\<exists>s1 s2. hello_write [1, 2, 255] 3 s = Returns (0, s1) \<and>
      hello_read [9, 9, 9, 9] 3 s1 = Returns (0, map (\<lambda>b. b + 2) [1, 2, 255] @ [9], s2)"
    by (simp add: DEV_BUFF_MAX_def) blast
  moreover have "map (\<lambda>b. b + 2) [1, 2, 255] @ [9] = [3, 4, 1, 9 :: u8]" by simp
  ultimately show ?thesis using s(1) by metis
qed

text \<open>
  C39. The wake-up of a write can be lost: the queue is woken before the flag is set, so a
  reader that wakes in between finds the flag clear and sleeps again. There is a reachable
  state in which the flag is set, the writer has returned and the reader sleeps; from any such
  state nothing but the reader's own timeout or signal, or another write, goes on.
\<close>

theorem wakeup_lost:
  "(\<exists>s. reachable rw_start rw_step s \<and> rw_flag s = 1 \<and> rw_reader s = R_sleeps \<and> rw_writer s = W_done) \<and>
   (\<forall>s t. rw_reader s = R_sleeps \<and> rw_writer s = W_done \<and> rw_step s t \<longrightarrow>
      t = s\<lparr>rw_reader := R_goes_on\<rparr> \<or> t = s\<lparr>rw_writer := W_wakes\<rparr>)"
proof -
  let ?s = "\<lambda>f r w. \<lparr>rw_flag = f, rw_reader = r, rw_writer = w\<rparr>"
  have step: "reachable rw_start rw_step t \<Longrightarrow> rw_step t u \<Longrightarrow> reachable rw_start rw_step u" for t u
    by (rule reachable.next_state)
  have "reachable rw_start rw_step (?s 0 R_looks W_wakes)" by (rule reachable.start) (simp add: rw_start_def)
  then have "reachable rw_start rw_step (?s 0 R_sleeps W_wakes)"
    by (rule step) (use look_clear [of "?s 0 R_looks W_wakes"] in simp)
  then have "reachable rw_start rw_step (?s 0 R_looks W_sets)"
    by (rule step) (use wake [of "?s 0 R_sleeps W_wakes"] in simp)
  then have "reachable rw_start rw_step (?s 0 R_sleeps W_sets)"
    by (rule step) (use look_clear [of "?s 0 R_looks W_sets"] in simp)
  then have "reachable rw_start rw_step (?s 1 R_sleeps W_done)"
    by (rule step) (use set_flag [of "?s 0 R_sleeps W_sets"] in simp)
  moreover have "t = s\<lparr>rw_reader := R_goes_on\<rparr> \<or> t = s\<lparr>rw_writer := W_wakes\<rparr>"
    if "rw_reader s = R_sleeps \<and> rw_writer s = W_done \<and> rw_step s t" for s t
    using that by (auto elim: rw_stepE)
  ultimately show ?thesis by (metis (no_types, lifting) rw_state.select_convs)
qed

theorem wakeup_lost_witness:
  "\<not> rw_step \<lparr>rw_flag = 1, rw_reader = R_sleeps, rw_writer = W_done\<rparr> \<lparr>rw_flag = 1, rw_reader = R_looks, rw_writer = W_done\<rparr>"
proof
  assume "rw_step \<lparr>rw_flag = 1, rw_reader = R_sleeps, rw_writer = W_done\<rparr> \<lparr>rw_flag = 1, rw_reader = R_looks, rw_writer = W_done\<rparr>"
  with wakeup_lost [THEN conjunct2, rule_format, of "\<lparr>rw_flag = 1, rw_reader = R_sleeps, rw_writer = W_done\<rparr>"
      "\<lparr>rw_flag = 1, rw_reader = R_looks, rw_writer = W_done\<rparr>"]
  show False by simp
qed

text \<open>
  Loading crashes when the object cannot be allocated, and when the device cannot be added
  it fails without giving anything back; when it succeeds, unloading releases everything and
  then stores through the pointer it has just freed, whatever else has happened.
\<close>

lemma my_load_unload:
  "(hello_init E sim_md_unloaded = Faults \<longleftrightarrow> \<not> me_object E) \<and>
   (\<forall>r s. hello_init E sim_md_unloaded = Returns (r, s) \<longrightarrow>
      (r = - 1 \<longleftrightarrow> me_cdev_add E < 0) \<and> Md_object \<in> md_held s \<and>
      (Md_region \<in> md_held s \<longleftrightarrow> 0 \<le> me_region E) \<and> (Md_class \<in> md_held s \<longleftrightarrow> me_class E) \<and>
      (Md_cdev \<in> md_held s \<longleftrightarrow> r = 0) \<and> hello_exit s = Faults)"
  by (auto simp: hello_init_def InitMyDev_def Let_def sim_md_unloaded_def hello_exit_def split: if_splits option.splits)

lemma my_load_unload_witness:
  "\<exists>s. hello_init (sim_md_env\<lparr>me_cdev_add := - 12\<rparr>) sim_md_unloaded = Returns (- 1, s) \<and> Md_region \<in> md_held s"
proof -
  obtain r s where "hello_init (sim_md_env\<lparr>me_cdev_add := - 12\<rparr>) sim_md_unloaded = Returns (r, s)"
    using my_load_unload [of "sim_md_env\<lparr>me_cdev_add := - 12\<rparr>"]
    by (cases "hello_init (sim_md_env\<lparr>me_cdev_add := - 12\<rparr>) sim_md_unloaded")
      (auto simp: sim_md_env_def hello_init_def InitMyDev_def Let_def)
  with my_load_unload [of "sim_md_env\<lparr>me_cdev_add := - 12\<rparr>"] show ?thesis by (auto simp: sim_md_env_def)
qed

section \<open>Runs of file operations\<close>

text \<open>What programs can ask of the device, and what a list of requests does to it.\<close>

datatype md_op = Do_open | Do_release | Do_ioctl u32 u64 | Do_write "u8 list" u64 | Do_read "u8 list" u64

fun md_apply :: "md_op \<Rightarrow> md_state \<Rightarrow> md_state outcome" where
  "md_apply Do_open s = bind_outcome (hello_open s) (\<lambda>(_, s'). Returns s')"
| "md_apply Do_release s = bind_outcome (hello_release s) (\<lambda>(_, s'). Returns s')"
| "md_apply (Do_ioctl cmd arg) s = bind_outcome (hello_unlocked_ioctl cmd arg s) (\<lambda>(_, s'). Returns s')"
| "md_apply (Do_write user n) s = bind_outcome (hello_write user n s) (\<lambda>(_, s'). Returns s')"
| "md_apply (Do_read user n) s = bind_outcome (hello_read user n s) (\<lambda>(_, _, s'). Returns s')"

primrec md_run :: "md_op list \<Rightarrow> md_state \<Rightarrow> md_state outcome" where
  "md_run [] s = Returns s"
| "md_run (x # xs) s = bind_outcome (md_apply x s) (md_run xs)"

text \<open>
  A request is sound when the count it names is refused or does not go beyond the memory
  of the program; it adds to the open count what \<open>opens\<close> says.
\<close>

fun sound_op :: "md_op \<Rightarrow> bool" where
  "sound_op (Do_write user n) \<longleftrightarrow> DEV_BUFF_MAX < unat n \<or> unat n \<le> length user"
| "sound_op (Do_read user n) \<longleftrightarrow> DEV_BUFF_MAX < unat n \<or> unat n \<le> length user"
| "sound_op _ \<longleftrightarrow> True"

fun opens :: "md_op \<Rightarrow> int" where
  "opens Do_open = 1"
| "opens Do_release = - 1"
| "opens _ = 0"

definition open_count :: "md_state \<Rightarrow> int" where
  "open_count s = (case myDev s of None \<Rightarrow> 0 | Some d \<Rightarrow> iOpenCount d)"

lemma md_readyD:
  assumes "md_ready s" and "myDev s = Some d"
  obtains i out where "md_ops d" and "pInputData d = Some i" and "pOutputData d = Some out"
    and "length i = DEV_BUFF_MAX" and "length out = DEV_BUFF_MAX"
  using assms by (auto elim: md_readyE)

text \<open>One request: the device keeps its shape, or the kernel is brought down.\<close>

lemma md_apply_cases:
  assumes "md_ready s"
  shows "if sound_op x
    then \<exists>s'. md_apply x s = Returns s' \<and> md_ready s' \<and> md_held s' = md_held s \<and> open_count s' = open_count s + opens x
    else md_apply x s = Faults"
proof -
  obtain d i out where d: "myDev s = Some d" "md_ops d" "pInputData d = Some i" "pOutputData d = Some out"
    "length i = DEV_BUFF_MAX" "length out = DEV_BUFF_MAX" using assms by (rule md_readyE)
  show ?thesis
  proof (cases x)
    case (Do_write user n)
    with d show ?thesis
      by (auto simp: hello_write_def on_dev_def md_ready_def open_count_def not_less)
  next
    case (Do_read user n)
    with d show ?thesis
      by (auto simp: hello_read_def on_dev_def md_ready_def open_count_def not_less min_def)
  qed (use d in \<open>simp_all add: hello_open_def hello_release_def hello_unlocked_ioctl_def on_dev_def md_ready_def open_count_def\<close>)
qed



end
