(* ===== verification/TestPrograms.thy ===== *)
theory TestPrograms
  imports ModuleOps MyDevice
begin

text \<open>
  The test programs of moduleAppTest and moduleUbuntuTest/moduleApp, run against the
  models of the drivers they were written for. A program is a function of what stands behind the
  node it opens; its result is the exit code, what it prints (or the results it prints) and the
  state it leaves. A node that cannot be opened is \<open>None\<close>.
\<close>

section \<open>Opening nodes\<close>

text \<open>
  A node under /dev is made by \<open>device_create\<close> or by the misc devices. Opening one whose device
  number nobody serves fails.
\<close>

definition char_node :: "nat \<Rightarrow> u8 list" where
  "char_node i = lit ''/dev/myDCdev'' @ show_d (int i)"

definition open_char :: "string \<Rightarrow> cd_state \<Rightarrow> bool" where
  "open_char path s \<longleftrightarrow>
     (\<exists>i\<in>set [0..<DEVICE_MINOR_NUM]. lit path = char_node i \<and> Node (numdev_major s) (int i) \<in> cd_held s \<and>
        Cdev (numdev_major s) (int i) \<in> cd_held s)"

definition open_leds :: "string \<Rightarrow> plat_state \<Rightarrow> bool" where
  "open_leds path s \<longleftrightarrow> path = ''/dev/hello_misc_device'' \<and> pl_misc s"

definition open_misc :: "string \<Rightarrow> misc_state \<Rightarrow> misc_owner option" where
  "open_misc path s = map_option fst (find (\<lambda>(_, name). path = ''/dev/'' @ name) (ms_nodes s))"

section \<open>myInvoke_leds.c\<close>

text \<open>The bytes 0 to 127, and one line for each byte that was read; \<open>char\<close> is signed.\<close>

definition counting :: "nat \<Rightarrow> u8 list" where
  "counting n = map of_nat [0..<n]"

definition read_line :: "nat \<Rightarrow> u8 \<Rightarrow> u8 list" where
  "read_line i b = lit ''read_buff['' @ show_d (int i) @ lit ''] = '' @ show_d (sint b) @ [10]"

definition read_lines :: "u8 list \<Rightarrow> u8 list list" where
  "read_lines bs = map (\<lambda>i. read_line i (bs ! i)) [0..<length bs]"

text \<open>One round: an ioctl, a write, a read, and the lines. The results of the calls are dropped.\<close>

definition leds_round ::
  "u8 list \<Rightarrow> u8 list \<times> u8 list list \<times> cd_state \<Rightarrow> (u8 list \<times> u8 list list \<times> cd_state) outcome" where
  "leds_round write_buff r =
     (case r of (read_buff, out, s) \<Rightarrow>
        bind_outcome (char_hello_write write_buff 128 s) (\<lambda>(_, s1).
        bind_outcome (char_hello_read read_buff 128 s1) (\<lambda>(_, read_buff').
          Returns (read_buff', out @ read_lines read_buff', s1))))"

definition my_invoke_leds :: "cd_state \<Rightarrow> (u8 list list \<times> cd_state) outcome" where
  "my_invoke_leds s =
     (let hello_node = ''/dev/myDCdev0''; write_buff = counting 128; read_buff = replicate 128 0
      in if \<not> open_char hello_node s then Returns ([lit (''APP open '' @ hello_node @ '' failed'')], s)
         else bind_outcome (leds_round write_buff (read_buff, [lit (''APP open '' @ hello_node @ '' success'')], s)) (\<lambda>r1.
           bind_outcome (leds_round write_buff r1) (\<lambda>r2.
           bind_outcome (leds_round write_buff r2) (\<lambda>r3. Returns (snd r3)))))"

section \<open>moduleAppOnlyMiscHelloTest.c, moduleParam.c and invoke_leds.c\<close>

text \<open>The state after each of a list of ioctls, with the results that are printed.\<close>

primrec ioctl_run :: "(u32 \<Rightarrow> u64 \<Rightarrow> 's \<Rightarrow> int \<times> 's) \<Rightarrow> (u32 \<times> u64) list \<Rightarrow> 's \<Rightarrow> (int \<times> 's) list" where
  "ioctl_run f [] s = []"
| "ioctl_run f (c # cs) s = (let r = f (fst c) (snd c) s in r # ioctl_run f cs (snd r))"

definition misc_hello_main :: "plat_state \<Rightarrow> int \<times> (int \<times> plat_state) list" where
  "misc_hello_main s =
     (if \<not> open_leds ''/dev/hello_misc_device'' s then (- 1, [])
      else (0, ioctl_run leds_misc_ioctl [(1, 1), (0, 0), (1, 1)] s))"

definition invoke_leds_main :: "plat_state \<Rightarrow> u8 list list \<times> (int \<times> plat_state) list" where
  "invoke_leds_main s =
     (if \<not> open_leds ''/dev/hello_ctl'' s then ([lit ''APP open /dev/hello_ctl failed''], [])
      else ([lit ''APP open /dev/hello_ctl success''], ioctl_run leds_misc_ioctl [(1, 1), (0, 1), (1, 1)] s))"

text \<open>The program for the parameters talks to whichever of two modules has the name.\<close>

primrec misc_calls ::
  "(u32 \<Rightarrow> u64 \<Rightarrow> misc_state \<Rightarrow> (int \<times> misc_state) outcome) \<Rightarrow> (u32 \<times> u64) list \<Rightarrow> misc_state \<Rightarrow>
   (int list \<times> misc_state) outcome" where
  "misc_calls f [] s = Returns ([], s)"
| "misc_calls f (c # cs) s = bind_outcome (f (fst c) (snd c) s) (\<lambda>(ret, s1).
     bind_outcome (misc_calls f cs s1) (\<lambda>(rets, s2). Returns (ret # rets, s2)))"

definition only_misc_main :: "param_vars \<Rightarrow> misc_state \<Rightarrow> (int \<times> int list \<times> misc_state) outcome" where
  "only_misc_main p s =
     (case open_misc ''/dev/hello_only_misc_device'' s of
        None \<Rightarrow> Returns (- 1, [], s)
      | Some Only_misc \<Rightarrow>
          bind_outcome (misc_calls (\<lambda>cmd arg s. Returns (only_misc_ioctl cmd arg s)) [(1, 1), (0, 0), (1, 1)]
            (snd (only_misc_open s))) (\<lambda>(rets, s1). Returns (0, rets, snd (only_misc_release s1)))
      | Some Param_misc \<Rightarrow>
          bind_outcome (misc_calls (\<lambda>cmd arg. param_ioctl cmd arg p) [(1, 1), (0, 0), (1, 1)]
            (snd (param_open s))) (\<lambda>(rets, s1). Returns (0, rets, snd (param_release s1))))"

section \<open>moduleApp/moduleAppTest.c\<close>

text \<open>
  One round of the program opens the node, writes ten bytes, calls an ioctl and closes; the
  results of the two calls are printed. The state is \<open>None\<close> while the module is not loaded.
\<close>

definition app_round :: "md_state \<Rightarrow> ((int \<times> int) \<times> md_state) outcome" where
  "app_round s =
     bind_outcome (hello_open s) (\<lambda>(_, s1).
     bind_outcome (hello_write (counting 10) 10 s1) (\<lambda>(iRetWrite, s2).
     bind_outcome (hello_unlocked_ioctl 1 2 s2) (\<lambda>(iRetIoctl, s3).
     bind_outcome (hello_release s3) (\<lambda>(_, s4). Returns ((iRetWrite, iRetIoctl), s4)))))"

definition open_my_dev :: "md_state \<Rightarrow> bool" where
  "open_my_dev s \<longleftrightarrow> Md_node \<in> md_held s \<and> Md_cdev \<in> md_held s"

primrec app_rounds :: "nat \<Rightarrow> md_state \<Rightarrow> (int \<times> (int \<times> int) list \<times> md_state) outcome" where
  "app_rounds 0 s = Returns (0, [], s)"
| "app_rounds (Suc n) s =
     (if \<not> open_my_dev s then Returns (- 1, [], s)
      else bind_outcome (app_round s) (\<lambda>(r, s1).
        bind_outcome (app_rounds n s1) (\<lambda>(ret, rs, s2). Returns (ret, r # rs, s2))))"

definition MAIN_COUNT :: nat where "MAIN_COUNT = 5"

definition module_app_main :: "md_state \<Rightarrow> (int \<times> (int \<times> int) list \<times> md_state) outcome" where
  "module_app_main s = app_rounds MAIN_COUNT s"

section \<open>What the programs do\<close>

lemma sint_below_128: "i < 128 \<Longrightarrow> sint (of_nat i :: u8) = int i"
  by (simp add: sint_uint signed_take_bit_int_eq_self take_bit_nat_eq_self unat_of_nat uint_nat)

lemma read_lines_counting:
  "n \<le> 128 \<Longrightarrow> read_lines (counting n) =
     map (\<lambda>i. lit ''read_buff['' @ show_d (int i) @ lit ''] = '' @ show_d (int i) @ [10]) [0..<n]"
  by (auto simp: read_lines_def read_line_def counting_def sint_below_128)

lemma leds_round_counts:
  assumes "has_data bs s" and "length bs = REG_DEV_SIZE" and "length w = 128" and "length r = 128"
  obtains cs t where "leds_round w (r, out, s) = Returns (w, out @ read_lines w, t)" and "has_data cs t"
    and "length cs = REG_DEV_SIZE" and "cd_held t = cd_held s"
proof -
  let ?cs = "take 128 w @ drop 128 bs"
  have "char_hello_write w 128 s = Returns (0, set_first_data ?cs s)"
    using char_write_within [OF assms(1), of 128 w] assms(2,3) by (simp add: REG_DEV_SIZE_def)
  moreover have d: "has_data ?cs (set_first_data ?cs s)" by (rule has_data_set [OF assms(1)])
  then have "char_hello_read r 128 (set_first_data ?cs s) = Returns (0, w)"
    using char_read_within [OF d, of 128 r] assms(2-4) by (simp add: REG_DEV_SIZE_def)
  ultimately show thesis
    using d assms(2,3) by (intro that [of "set_first_data ?cs s" ?cs]) (simp_all add: leds_round_def REG_DEV_SIZE_def set_first_data_def)
qed

lemma loaded_has_data:
  assumes "char_hello_init E (cd_unloaded major minor) = Returns (0, s)"
  obtains bs where "has_data bs s" and "length bs = REG_DEV_SIZE"
proof (rule that)
  have "my_devices s = Some [zero_dev, zero_dev]"
    using char_hello_init_loaded [OF assms] by (simp add: loaded_def)
  then show "has_data (replicate REG_DEV_SIZE 0) s" by (rule has_data_first) (simp add: zero_dev_def)
qed simp

text \<open>
  The program myInvoke_leds over the character device, once its module is loaded and the
  node is there: each of the three rounds reads back the bytes that it wrote, so the program
  prints that it opened the node and then three times the numbers 0 to 127, and leaves
  everything registered as it was. Without the node it prints that it failed and
  touches nothing.
\<close>

lemma my_invoke_leds_counts:
  assumes "char_hello_init E (cd_unloaded major minor) = Returns (0, s)"
  shows "if open_char ''/dev/myDCdev0'' s
    then \<exists>t. my_invoke_leds s = Returns (lit ''APP open /dev/myDCdev0 success'' # concat (replicate 3
        (map (\<lambda>i. lit ''read_buff['' @ show_d (int i) @ lit ''] = '' @ show_d (int i) @ [10]) [0..<128])), t) \<and>
      cd_held t = cd_held s
    else my_invoke_leds s = Returns ([lit ''APP open /dev/myDCdev0 failed''], s)"
proof (cases "open_char ''/dev/myDCdev0'' s")
  case True
  let ?w = "counting 128" and ?o = "[lit ''APP open /dev/myDCdev0 success'']"
  have w: "length ?w = 128" "length (replicate 128 (0 :: u8)) = 128" by (simp_all add: counting_def)
  obtain bs where "has_data bs s" "length bs = REG_DEV_SIZE" by (rule loaded_has_data [OF assms])
  from leds_round_counts [OF this w] obtain b1 t1 where r1:
    "leds_round ?w (replicate 128 0, ?o, s) = Returns (?w, ?o @ read_lines ?w, t1)"
    "has_data b1 t1" "length b1 = REG_DEV_SIZE" "cd_held t1 = cd_held s" by blast
  from leds_round_counts [OF r1(2,3) w(1,1)] obtain b2 t2 where r2:
    "leds_round ?w (?w, ?o @ read_lines ?w, t1) = Returns (?w, (?o @ read_lines ?w) @ read_lines ?w, t2)"
    "has_data b2 t2" "length b2 = REG_DEV_SIZE" "cd_held t2 = cd_held t1" by blast
  from leds_round_counts [OF r2(2,3) w(1,1)] obtain b3 t3 where r3:
    "leds_round ?w (?w, (?o @ read_lines ?w) @ read_lines ?w, t2) =
      Returns (?w, ((?o @ read_lines ?w) @ read_lines ?w) @ read_lines ?w, t3)" "cd_held t3 = cd_held t2" by blast
  have "my_invoke_leds s = Returns (((?o @ read_lines ?w) @ read_lines ?w) @ read_lines ?w, t3)"
    using True r1(1) r2(1) r3(1) by (simp add: my_invoke_leds_def Let_def)
  then show ?thesis
    using True r1(4) r2(4) r3(2) by (simp add: read_lines_counting numeral_3_eq_3)
qed (simp add: my_invoke_leds_def)

lemma sim_char_loads_nodes:
  "\<exists>s. char_hello_init sim_cd_env (cd_unloaded 0 0) = Returns (0, s) \<and> open_char ''/dev/myDCdev0'' s"
proof -
  have "char_node 0 = lit ''/dev/myDCdev0''"
    by (simp add: char_node_def lit_def show_d_def show_nat_def digits.simps digit_char_def)
  then show ?thesis
    by (simp add: open_char_def char_hello_init_def register_numbers_fresh both_devices char_init_dev_def init_data_def
      reg_init_cdev_def sim_cd_env_def Let_def the_major_def split: prod.split)
qed

lemma three_times:
  assumes "out = x # concat (replicate 3 (map f [0..<n]))" and "k < n"
  shows "length out = Suc (3 * n)" and "out ! Suc k = f k"
  using assms by (simp_all add: numeral_3_eq_3 nth_append)

lemma my_invoke_leds_counts_witness:
  "\<exists>s t out. char_hello_init sim_cd_env (cd_unloaded 0 0) = Returns (0, s) \<and> my_invoke_leds s = Returns (out, t) \<and>
     length out = 385 \<and> out ! 8 = lit ''read_buff[7] = 7'' @ [10]"
proof -
  obtain s where s: "char_hello_init sim_cd_env (cd_unloaded 0 0) = Returns (0, s)" "open_char ''/dev/myDCdev0'' s"
    using sim_char_loads_nodes by blast
  let ?l = "\<lambda>i. lit ''read_buff['' @ show_d (int i) @ lit ''] = '' @ show_d (int i) @ [10]"
  obtain t out where out: "my_invoke_leds s = Returns (out, t)"
      "out = lit ''APP open /dev/myDCdev0 success'' # concat (replicate 3 (map ?l [0..<128]))"
    using my_invoke_leds_counts [OF s(1)] s(2) by auto
  have "length out = 385" "out ! Suc 7 = ?l 7" using three_times [OF out(2), of 7] by simp_all
  moreover have "?l 7 = lit ''read_buff[7] = 7'' @ [10]"
    by (simp add: lit_def show_d_def show_nat_def digits.simps digit_char_def)
  ultimately show ?thesis using s(1) out(1) by simp
qed

section \<open>The LED\<close>

text \<open>
  The program for the misc device switches the LED on, off and on again, and every ioctl
  returns 0. The program that came first opens the name of the driver instead of the
  name of the misc device, so it never gets as far as an ioctl.
\<close>

lemma misc_hello_blinks:
  assumes "pl_misc s"
  shows "\<exists>run. misc_hello_main s = (0, run) \<and> map fst run = [0, 0, 0] \<and>
    map (\<lambda>r. pl_levels (snd r) LED) run = [True, False, True]"
  using assms by (simp add: misc_hello_main_def open_leds_def leds_misc_ioctl_def gpio_set_value_def Let_def)

lemma invoke_leds_never_opens:
  "invoke_leds_main s = ([lit ''APP open /dev/hello_ctl failed''], [])"
  by (simp add: invoke_leds_main_def open_leds_def)

section \<open>The parameters\<close>

text \<open>
  The program for the parameters: with the parameter module behind the node it makes the module
  log its arguments three times; whichever module it is, every ioctl returns 0.
\<close>

lemma param_ioctl_log:
  assumes "parse_params a1 a2 vals = Some p"
  shows "param_ioctl cmd arg p s = Returns (0, s\<lparr>ms_log := ms_log s @
    [text_line ''hello_misc is unlocked ioctling'', cmd_line cmd arg] @ param_lines a1 a2 vals\<rparr>)"
  by (simp add: param_ioctl_def print_params_lines [OF assms] printk_def)

lemma only_misc_main_logs:
  assumes "parse_params a1 a2 vals = Some p" and "ms_nodes s = [(Param_misc, MISC_DEVICE_NAME)]"
  shows "\<exists>t. only_misc_main p s = Returns (0, [0, 0, 0], t) \<and> ms_nodes t = ms_nodes s \<and>
    ms_log t = ms_log s @ [text_line ''hello_misc is opening!''] @
      concat (map (\<lambda>(cmd, arg). [text_line ''hello_misc is unlocked ioctling'', cmd_line cmd arg] @ param_lines a1 a2 vals)
        [(1, 1), (0, 0), (1, 1)]) @ [text_line ''hello_misc is releaseing!'']"
  using assms(2)
  by (simp add: only_misc_main_def open_misc_def MISC_DEVICE_NAME_def param_ioctl_log [OF assms(1)] param_open_def
    param_release_def)

section \<open>The test device\<close>

lemma app_round_ready:
  assumes "md_ready s"
  obtains s' where "app_round s = Returns ((0, 0), s')" and "md_ready s'" and "md_held s' = md_held s"
    and "open_count s' = open_count s" and "map_option enable_read (myDev s') = Some 1"
    and "\<exists>d i. myDev s' = Some d \<and> pInputData d = Some i \<and> take 10 i = counting 10"
proof -
  obtain d i out where d: "myDev s = Some d" "md_ops d" "pInputData d = Some i" "pOutputData d = Some out"
    "length i = DEV_BUFF_MAX" "length out = DEV_BUFF_MAX" using assms by (rule md_readyE)
  let ?d = "d\<lparr>pInputData := Some (copy_into i (counting 10) 10), enable_read := 1\<rparr>"
  have n: "length (counting 10) = 10" by (simp add: counting_def)
  have "take 10 (copy_into i (counting 10) 10) = counting 10"
    using d(5) n by (simp add: take_copy_into DEV_BUFF_MAX_def)
  moreover have "app_round s = Returns ((0, 0), s\<lparr>myDev := Some ?d\<rparr>)"
    using d n by (simp add: app_round_def hello_open_def hello_release_def hello_unlocked_ioctl_def hello_write_def
      on_dev_def DEV_BUFF_MAX_def)
  ultimately show thesis
    using d by (intro that [of "s\<lparr>myDev := Some ?d\<rparr>"]) (simp_all add: md_ready_def open_count_def DEV_BUFF_MAX_def)
qed

text \<open>
  The program for the test device: all five rounds report 0 for the write, though the driver
  took all ten bytes, and 0 for the ioctl; the counter of opens is back where it was. Without
  the node it ends with -1.
\<close>

lemma app_rounds_ready:
  assumes "md_ready s" and "open_my_dev s"
  shows "\<exists>t. app_rounds n s = Returns (0, replicate n (0, 0), t) \<and> md_ready t \<and> md_held t = md_held s \<and>
    open_count t = open_count s \<and>
    (0 < n \<longrightarrow> (\<exists>d i. myDev t = Some d \<and> pInputData d = Some i \<and> take 10 i = counting 10))"
  using assms
proof (induction n arbitrary: s)
  case (Suc n)
  obtain s1 where s1: "app_round s = Returns ((0, 0), s1)" "md_ready s1" "md_held s1 = md_held s" "open_count s1 = open_count s"
    "\<exists>d i. myDev s1 = Some d \<and> pInputData d = Some i \<and> take 10 i = counting 10"
    by (rule app_round_ready [OF Suc.prems(1)])
  have "open_my_dev s1" using Suc.prems(2) s1(3) by (simp add: open_my_dev_def)
  from Suc.IH [OF s1(2) this] show ?case
    using s1 Suc.prems(2) by (cases n) auto
qed simp

lemma module_app_main_writes:
  assumes "md_ready s" and "open_my_dev s"
  shows "\<exists>t d i. module_app_main s = Returns (0, replicate 5 (0, 0), t) \<and> md_ready t \<and> open_count t = open_count s \<and>
    myDev t = Some d \<and> pInputData d = Some i \<and> take 10 i = counting 10"
  using app_rounds_ready [OF assms, of 5] by (auto simp: module_app_main_def MAIN_COUNT_def)

lemma module_app_main_fails: "\<not> open_my_dev s \<Longrightarrow> module_app_main s = Returns (- 1, [], s)"
  by (simp add: module_app_main_def MAIN_COUNT_def numeral_eq_Suc)

end
