(* ===== verification/Spec2Isabelle.thy ===== *)
theory Spec2Isabelle
  imports Link TxWakeup RpmsgStack DeviceRefs ReadWakeup LibMem TestPrograms
begin

text \<open>
  A verification of a collection of Linux drivers. Its largest part is the rpmsg stack under
  \<open>src/virtio_rpmsg_test\<close>: a message bus between processors over virtio, in three
  files, the bus (virtio_rpmsg_bus.c), the core it registers with (rpmsg_core.c) and the character
  device on top (rpmsg_char.c). Beside it stand a driver for physical memory with its user library
  (\<open>src/mem_map\<close>), tutorial modules for character, misc and platform devices, and the
  programs that test them.

  How the parts of the rpmsg stack interact. A program writes to an endpoint device
  (\<open>rpmsg_eptdev_write_iter\<close>); the core passes the send on to the operations of the
  endpoint (\<open>rpmsg_send\<close>); the bus takes a transmit buffer, waits for one where it
  may, writes header and payload, and queues it (\<open>rpmsg_send_offchannel_raw\<close>). The
  receive interrupt walks the used buffers (\<open>rpmsg_recv_done\<close>), finds the endpoint
  bound at the destination, calls its callback under the reference it took, and gives the buffer
  back (\<open>rpmsg_recv_single\<close>). A callback is the name service
  (\<open>rpmsg_ns_cb\<close>), which creates and removes channels through the core, or the
  character device (\<open>rpmsg_ept_cb\<close>), which queues the message for a reader
  (\<open>rpmsg_eptdev_read_iter\<close>).

  The theories, in the order they build on each other:

  Prelude: C types at their width, errno values, memory as bytes, the outcome of a C function (it
  returns, faults, or never returns), the locale \<open>inductive_invariant\<close> that each
  state machine below instantiates, \<open>invariant_refinement\<close> and
  \<open>forward_simulation\<close> for a machine that refines another, with and without an
  invariant of its own, \<open>simulated_invariant\<close> for one that takes over the invariant of
  the other, and \<open>wait_queue\<close> for one that loses no wake-up. CStrings: the string
  functions and \<open>printk\<close> formats the code calls. KernelApi: virtqueues and id
  allocators as a record \<open>K\<close> of functions with the laws of their documentation, and
  one kernel that satisfies them, for the witnesses. RpmsgWire: the two packed structures byte by
  byte.

  Virtproc, TxPath: \<open>struct virtproc_info\<close>, the transmit buffers, the wait loop and
  the send; what a send queues, refuses, and leaves alone, when it returns and when it cannot. The
  wait loop is a recursion over the turns it takes: sleeping is a script of verdicts, so that not
  returning is a value of the model and returning is proved where some sleep may time out.
  TxSenders: any number of senders, interleaved region by region (\<open>tx_step\<close>), with
  one owner for each buffer and a sleeper count that counts sleepers. TxWakeup: the same senders
  asleep on the wait queue that \<open>rpmsg_xmit_done\<close> wakes (\<open>wk_step\<close>);
  this system refines TxSenders, and it loses no wake-up. Endpoints: the address table and the
  reference counts. EptLife: receivers and owners interleaved lock by lock
  (\<open>life_step\<close>), and no use after free in any reachable state. RxPath: one received
  message, the whole used ring. RpmsgCore: the calls of rpmsg_core.c, matching, attributes, and
  the probe of a driver on a channel. NameService: announcements in both directions and the
  channels they make. VirtioProbe: probing and removing a remote processor with all error paths.
  RpmsgStack: the three modules as they are loaded and unloaded (\<open>stack_step\<close>), with
  what each registers, in the orders that the use of one by another allows. DeviceRefs: the
  references on the channels and their release, which balance over any sequence of announcements.

  RpmsgChar: every operation of rpmsg_char.c. CharIds, CharSystem: the invariant of its device
  numbers, reference counts and pointers, and the system whose steps are the file operations,
  ioctls, callbacks, probe and remove (\<open>char_step\<close>). ReadWakeup: blocked readers and
  what wakes them, lock by lock (\<open>rd_step\<close>). CharProps: the queue of an endpoint
  device as a FIFO, opening and closing, creating, and what repeated calls break. System: the
  three files together: the callbacks of the module plugged into the receive path (the locale of
  the receive path interpreted on them), and what an interrupt keeps whatever the remote has sent.
  EndToEnd: a write on one side is a read on the other. Link: two systems joined by a transport
  (\<open>link_step\<close>: writes, the transport, receive interrupts, reads, in any order); the two rings
  and the queue of the endpoint device together refine one first in first out buffer, and the
  link can always be emptied.

  MemMap: mem_map.c, 64 bits wide; the loops recurse on the bytes left. LibMem: libmem.c over the
  handlers of MemMap, behind the checks of the system calls. MyDevice: the device of
  moduleUbuntuTest/moduleTest.c, sequences of requests to it, and its wait queue as a step
  relation. CdevModules: the six modules that register character devices. PlatformModules: the LED
  driver, the misc driver and the platform driver and device. MiscModules: the modules that only
  print, with the log of the kernel line by line, and the module parameters. ModuleOps: the
  operations of the other modules that print. TestPrograms: the five programs, each over the model
  of the driver whose node it opens.

  What is an argument of the model. The kernel is not part of the sources: its allocators,
  virtqueues, driver core, wait queues and copies to and from the user are arguments, with laws
  where a property rests on them. Each law is shown to be satisfiable by a concrete instance
  (\<open>sim_kernel\<close> and the other \<open>sim_\<close> definitions), on which every
  witness runs.

  Bounds. Integers have the width of the sources; where C converts between \<open>int\<close>,
  \<open>u32\<close> and \<open>size_t\<close> the conversion is written out. Recursions have no
  fuel: they are structural, or end by the bytes or the used buffers that are left, except the
  wait loop, whose result is \<open>None\<close> when it does not end.

  Not modelled: the generated .mod.c files; the parts of libmem.c's main that \<open>#if 0\<close>
  leaves out; the tables of operations and attributes, which only name the functions modelled
  here; what the rpmsg stack, the memory device and the loading of the character devices print;
  addresses and descriptors that a test program prints; \<open>poll_wait\<close> beyond the
  wake-up it asks for.
\<close>

end
